theory Spec2Isabelle
  imports Main "HOL-Library.Word" "HOL-Library.AList" "HOL-Library.Multiset"
begin

section \<open>Result codes\<close>

text \<open>
  \<open>kvstore::ResultCode\<close>: the enumerators the storage layer names in its switch
  statements. The enumeration's header is not part of the sources at hand, so every
  other enumerator is \<open>ERR_OTHER v\<close>, \<open>v\<close> being its numeric value.
\<close>

datatype ResultCode =
    K_SUCCEEDED
  | ERR_LEADER_CHANGED
  | ERR_SPACE_NOT_FOUND
  | ERR_PART_NOT_FOUND
  | ERR_CONSENSUS_ERROR
  | ERR_CHECKPOINT_ERROR
  | ERR_WRITE_BLOCK_ERROR
  | ERR_PARTIAL_RESULT
  | ERR_OTHER int

text \<open>
  \<open>cpp2::ErrorCode\<close>, the code a processor reports for a partition. \<open>E_OTHER v\<close>
  stands for the enumerators no function below names.
\<close>

datatype ErrorCode =
    SUCCEEDED
  | E_LEADER_CHANGED
  | E_SPACE_NOT_FOUND
  | E_PART_NOT_FOUND
  | E_CONSENSUS_ERROR
  | E_FAILED_TO_CHECKPOINT
  | E_CHECKPOINT_BLOCKED
  | E_PARTIAL_RESULT
  | E_UNKNOWN
  | E_EDGE_PROP_NOT_FOUND
  | E_TAG_PROP_NOT_FOUND
  | E_NOT_NULLABLE
  | E_DATA_TYPE_MISMATCH
  | E_FIELD_UNSET
  | E_OUT_OF_RANGE
  | E_INVALID_FIELD_VALUE
  | E_INVALID_SPACEVIDLEN
  | E_INVALID_OPERATION
  | E_OTHER int

text \<open>\<open>toStorageErr\<close> (storage/admin/TaskUtils.cpp): the switch, case by case.\<close>

fun toStorageErr :: "ResultCode \<Rightarrow> ErrorCode" where
  "toStorageErr K_SUCCEEDED = SUCCEEDED"
| "toStorageErr ERR_LEADER_CHANGED = E_LEADER_CHANGED"
| "toStorageErr ERR_SPACE_NOT_FOUND = E_SPACE_NOT_FOUND"
| "toStorageErr ERR_PART_NOT_FOUND = E_PART_NOT_FOUND"
| "toStorageErr ERR_CONSENSUS_ERROR = E_CONSENSUS_ERROR"
| "toStorageErr ERR_CHECKPOINT_ERROR = E_FAILED_TO_CHECKPOINT"
| "toStorageErr ERR_WRITE_BLOCK_ERROR = E_CHECKPOINT_BLOCKED"
| "toStorageErr ERR_PARTIAL_RESULT = E_PARTIAL_RESULT"
| "toStorageErr (ERR_OTHER v) = E_UNKNOWN"

section \<open>Base processor\<close>

type_synonym GraphSpaceID = int
type_synonym PartitionID = int

record HostAddr =
  host :: string
  port :: nat

text \<open>\<open>nebula::PartitionResult\<close>, as \<open>pushResultCode\<close> fills it; \<open>leader\<close> is optional.\<close>

record PartitionResult =
  code :: ErrorCode
  part_id :: PartitionID
  leader :: "HostAddr option"

text \<open>
  The row writer's result. \<open>W_SUCCEEDED\<close> is \<open>WriteResult::SUCCEEDED\<close>; \<open>W_OTHER v\<close>
  is any enumerator that \<open>writeResultTo\<close> leaves to its default branch.
\<close>

datatype WriteResult =
    W_SUCCEEDED
  | UNKNOWN_FIELD
  | NOT_NULLABLE
  | TYPE_MISMATCH
  | FIELD_UNSET
  | OUT_OF_RANGE
  | INCORRECT_VALUE
  | W_OTHER int

fun writeResultTo :: "WriteResult \<Rightarrow> bool \<Rightarrow> ErrorCode" where
  "writeResultTo W_SUCCEEDED isEdge = SUCCEEDED"
| "writeResultTo UNKNOWN_FIELD isEdge =
     (if isEdge then E_EDGE_PROP_NOT_FOUND else E_TAG_PROP_NOT_FOUND)"
| "writeResultTo NOT_NULLABLE isEdge = E_NOT_NULLABLE"
| "writeResultTo TYPE_MISMATCH isEdge = E_DATA_TYPE_MISMATCH"
| "writeResultTo FIELD_UNSET isEdge = E_FIELD_UNSET"
| "writeResultTo OUT_OF_RANGE isEdge = E_OUT_OF_RANGE"
| "writeResultTo INCORRECT_VALUE isEdge = E_INVALID_FIELD_VALUE"
| "writeResultTo (W_OTHER v) isEdge = E_UNKNOWN"

text \<open>
  Modelled from the spec: \<open>CommonUtils::to\<close>, which \<open>BaseProcessor::to\<close> forwards to,
  is not among the sources; this is the fixed table of the spec's error handling
  section (KV code to processor error).
\<close>

fun CommonUtils_to :: "ResultCode \<Rightarrow> ErrorCode" where
  "CommonUtils_to K_SUCCEEDED = SUCCEEDED"
| "CommonUtils_to ERR_LEADER_CHANGED = E_LEADER_CHANGED"
| "CommonUtils_to ERR_SPACE_NOT_FOUND = E_SPACE_NOT_FOUND"
| "CommonUtils_to ERR_PART_NOT_FOUND = E_PART_NOT_FOUND"
| "CommonUtils_to ERR_CONSENSUS_ERROR = E_CONSENSUS_ERROR"
| "CommonUtils_to ERR_CHECKPOINT_ERROR = E_FAILED_TO_CHECKPOINT"
| "CommonUtils_to ERR_WRITE_BLOCK_ERROR = E_CHECKPOINT_BLOCKED"
| "CommonUtils_to ERR_PARTIAL_RESULT = E_PARTIAL_RESULT"
| "CommonUtils_to (ERR_OTHER v) = E_UNKNOWN"

definition to_ErrorCode :: "ResultCode \<Rightarrow> ErrorCode" where
  "to_ErrorCode c = CommonUtils_to c"

text \<open>
  What a processor does that another thread can observe, in the order it does it:
  taking and releasing \<open>lock\<close> (the \<open>lock_guard\<close>'s scope), recording a partition's
  code, decrementing \<open>callingNum\<close>, and calling \<open>onFinished\<close>; for the atomic edge
  writer, a call of the transaction manager's \<open>addSamePartEdges\<close> with its arguments
  (the last one: whether an index processor is passed), and the run of the callback
  attached to a chain's future, with the code it computed.
\<close>

datatype Event =
    Lock
  | Record
  | Decrement
  | Unlock
  | OnFinished
  | AddSamePartEdges nat GraphSpaceID PartitionID PartitionID "(string \<times> string) list" bool
  | ChainDone PartitionID PartitionID ErrorCode

text \<open>
  The processor's state: the failure list \<open>codes\<close> and the counter \<open>callingNum\<close> of
  callbacks still to come (the source's members of these names, which end in an
  underscore there), and the trace of events so far.
\<close>

record BaseProcessor =
  codes :: "PartitionResult list"
  callingNum :: int
  events :: "Event list"

definition emit :: "Event \<Rightarrow> BaseProcessor \<Rightarrow> BaseProcessor" where
  "emit e p = p\<lparr>events := events p @ [e]\<rparr>"

text \<open>\<open>onFinished\<close> is virtual and its bodies are elsewhere: here it is the event of the call.\<close>

definition onFinished :: "BaseProcessor \<Rightarrow> BaseProcessor" where
  "onFinished p = emit OnFinished p"

text \<open>\<open>pushResultCode(code, partId)\<close>: only a failure is recorded.\<close>

definition pushResultCode :: "ErrorCode \<Rightarrow> PartitionID \<Rightarrow> BaseProcessor \<Rightarrow> BaseProcessor" where
  "pushResultCode c part p =
     (if c \<noteq> SUCCEEDED
      then p\<lparr>codes := codes p @ [\<lparr>code = c, part_id = part, leader = None\<rparr>]\<rparr>
      else p)"

text \<open>\<open>pushResultCode(code, partId, leader)\<close>.\<close>

definition pushResultCodeLeader ::
  "ErrorCode \<Rightarrow> PartitionID \<Rightarrow> HostAddr \<Rightarrow> BaseProcessor \<Rightarrow> BaseProcessor" where
  "pushResultCodeLeader c part addr p =
     (if c \<noteq> SUCCEEDED
      then p\<lparr>codes := codes p @ [\<lparr>code = c, part_id = part, leader = Some addr\<rparr>]\<rparr>
      else p)"

text \<open>
  The store's \<open>partLeader(spaceId, partId)\<close>, an \<open>ErrorOr<ResultCode, HostAddr>\<close>:
  \<open>Inl\<close> the error, \<open>Inr\<close> the leader's address.
\<close>

type_synonym PartLeader = "GraphSpaceID \<Rightarrow> PartitionID \<Rightarrow> ResultCode + HostAddr"

definition handleLeaderChanged ::
  "PartLeader \<Rightarrow> GraphSpaceID \<Rightarrow> PartitionID \<Rightarrow> BaseProcessor \<Rightarrow> BaseProcessor" where
  "handleLeaderChanged partLeader spaceId part p =
     (case partLeader spaceId part of
        Inr addr \<Rightarrow> pushResultCodeLeader E_LEADER_CHANGED part addr p
      | Inl err \<Rightarrow> pushResultCode (to_ErrorCode err) part p)"

definition handleErrorCode ::
  "PartLeader \<Rightarrow> ResultCode \<Rightarrow> GraphSpaceID \<Rightarrow> PartitionID \<Rightarrow> BaseProcessor \<Rightarrow> BaseProcessor" where
  "handleErrorCode partLeader c spaceId part p =
     (if c \<noteq> K_SUCCEEDED
      then (if c = ERR_LEADER_CHANGED
            then handleLeaderChanged partLeader spaceId part p
            else pushResultCode (to_ErrorCode c) part p)
      else p)"

text \<open>
  \<open>handleAsync(spaceId, partId, kvstore::ResultCode)\<close>. The block that holds the
  \<open>lock_guard\<close> runs between \<open>Lock\<close> and \<open>Unlock\<close>; \<open>finished\<close> is read after it.
\<close>

definition handleAsync ::
  "PartLeader \<Rightarrow> GraphSpaceID \<Rightarrow> PartitionID \<Rightarrow> ResultCode \<Rightarrow> BaseProcessor \<Rightarrow> BaseProcessor" where
  "handleAsync partLeader spaceId part c p =
     (let p1 = emit Lock p;
          p2 = emit Record (handleErrorCode partLeader c spaceId part p1);
          p3 = emit Decrement (p2\<lparr>callingNum := callingNum p2 - 1\<rparr>);
          finished = (callingNum p3 = 0);
          p4 = emit Unlock p3
      in if finished then onFinished p4 else p4)"

text \<open>\<open>handleAsync(spaceId, partId, ErrorCode)\<close>, the overload for a processor's own code.\<close>

definition handleAsyncCode ::
  "GraphSpaceID \<Rightarrow> PartitionID \<Rightarrow> ErrorCode \<Rightarrow> BaseProcessor \<Rightarrow> BaseProcessor" where
  "handleAsyncCode spaceId part c p =
     (let p1 = emit Lock p;
          p2 = emit Record (pushResultCode c part p1);
          p3 = emit Decrement (p2\<lparr>callingNum := callingNum p2 - 1\<rparr>);
          finished = (callingNum p3 = 0);
          p4 = emit Unlock p3
      in if finished then onFinished p4 else p4)"

text \<open>
  A fan-out's completions. Each callback's locked block excludes the others', so the
  callbacks of one request take effect one after the other, in some order: a list of
  completions, each the arguments of one \<open>handleAsync\<close> call.
\<close>

datatype Completion =
    KvDone GraphSpaceID PartitionID ResultCode
  | CodeDone GraphSpaceID PartitionID ErrorCode

fun callback :: "PartLeader \<Rightarrow> Completion \<Rightarrow> BaseProcessor \<Rightarrow> BaseProcessor" where
  "callback partLeader (KvDone spaceId part c) p = handleAsync partLeader spaceId part c p"
| "callback partLeader (CodeDone spaceId part c) p = handleAsyncCode spaceId part c p"

definition runCallbacks :: "PartLeader \<Rightarrow> Completion list \<Rightarrow> BaseProcessor \<Rightarrow> BaseProcessor" where
  "runCallbacks partLeader cbs p = fold (callback partLeader) cbs p"

definition finishedCount :: "BaseProcessor \<Rightarrow> nat" where
  "finishedCount p = length (filter (\<lambda>e. e = OnFinished) (events p))"

section \<open>Row encoding\<close>

text \<open>
  \<open>nebula::Status\<close>, by the kinds this code constructs: \<open>Status::Error(msg)\<close> and
  \<open>Status::IndexNotFound()\<close>. A \<open>StatusOr<T>\<close> is \<open>Status + T\<close>.
\<close>

datatype Status = Error string | IndexNotFound

text \<open>
  \<open>RowWriterV2\<close> is the codec's, outside this code: its operations are parameters.
  A writer is made for a schema (\<open>newWriter\<close>); \<open>setValue\<close> by field name or by field
  position and \<open>finish\<close> return a \<open>WriteResult\<close> and leave the writer changed;
  \<open>moveEncodedStr\<close> gives the encoded bytes.
\<close>

record ('s, 'w, 'v) RowWriterV2 =
  newWriter :: "'s \<Rightarrow> 'w"
  setValueByName :: "'w \<Rightarrow> string \<Rightarrow> 'v \<Rightarrow> WriteResult \<times> 'w"
  setValueByIndex :: "'w \<Rightarrow> nat \<Rightarrow> 'v \<Rightarrow> WriteResult \<times> 'w"
  finish :: "'w \<Rightarrow> WriteResult \<times> 'w"
  moveEncodedStr :: "'w \<Rightarrow> string"

text \<open>
  How a loop of field writes ends: \<open>OutOfBounds\<close> when it reads \<open>props[i]\<close> past the end
  of \<open>props\<close> (undefined behaviour in the source), \<open>Fault r\<close> at the first write whose
  result \<open>r\<close> is not \<open>SUCCEEDED\<close>, \<open>Written w\<close> with the writer after the last write.
\<close>

datatype 'w SetResult = OutOfBounds | Fault WriteResult | Written 'w

text \<open>The loop \<open>for (i = 0; i < propNames.size(); i++)\<close> of \<open>encodeRowVal\<close>, from \<open>i\<close> on.\<close>

function setByName ::
  "('s, 'w, 'v) RowWriterV2 \<Rightarrow> string list \<Rightarrow> 'v list \<Rightarrow> nat \<Rightarrow> 'w \<Rightarrow> 'w SetResult" where
  "setByName rw propNames vals i w =
     (if i < length propNames
      then (if i < length vals
            then (case setValueByName rw w (propNames ! i) (vals ! i) of
                    (wRet, w') \<Rightarrow>
                      if wRet \<noteq> W_SUCCEEDED then Fault wRet
                      else setByName rw propNames vals (Suc i) w')
            else OutOfBounds)
      else Written w)"
  by pat_completeness auto
termination
  by (relation "measure (\<lambda>(rw, propNames, vals, i, w). length propNames - i)") auto

declare setByName.simps [simp del]

text \<open>The loop \<open>for (i = 0; i < props.size(); i++)\<close>, from \<open>i\<close> on.\<close>

function setByIndex ::
  "('s, 'w, 'v) RowWriterV2 \<Rightarrow> 'v list \<Rightarrow> nat \<Rightarrow> 'w \<Rightarrow> 'w SetResult" where
  "setByIndex rw vals i w =
     (if i < length vals
      then (case setValueByIndex rw w i (vals ! i) of
              (wRet, w') \<Rightarrow>
                if wRet \<noteq> W_SUCCEEDED then Fault wRet
                else setByIndex rw vals (Suc i) w')
      else Written w)"
  by pat_completeness auto
termination
  by (relation "measure (\<lambda>(rw, vals, i, w). length vals - i)") auto

declare setByIndex.simps [simp del]

text \<open>
  \<open>BaseProcessor::encodeRowVal\<close>. The result is \<open>None\<close> when the source reads past the
  end of \<open>props\<close>; otherwise the value left in the out-parameter \<open>wRet\<close> and the
  returned \<open>StatusOr<std::string>\<close>.
\<close>

definition encodeRowVal ::
  "('s, 'w, 'v) RowWriterV2 \<Rightarrow> 's \<Rightarrow> string list \<Rightarrow> 'v list
     \<Rightarrow> (WriteResult \<times> (Status + string)) option" where
  "encodeRowVal rw schema propNames vals =
     (case (if propNames \<noteq> [] then setByName rw propNames vals 0 (newWriter rw schema)
            else setByIndex rw vals 0 (newWriter rw schema)) of
        OutOfBounds \<Rightarrow> None
      | Fault wRet \<Rightarrow> Some (wRet, Inl (Error ''Add field faild''))
      | Written w \<Rightarrow>
          (case finish rw w of
             (wRet, w') \<Rightarrow>
               if wRet \<noteq> W_SUCCEEDED then Some (wRet, Inl (Error ''Add field faild''))
               else Some (wRet, Inr (moveEncodedStr rw w'))))"

text \<open>
  The field writes of a call as the claim words them: with names, \<open>props[i]\<close> goes to
  the field named \<open>propNames[i]\<close>; without, \<open>props[i]\<close> goes to field position \<open>i\<close>.
\<close>

datatype 'v FieldWrite = ByName string 'v | ByPosition nat 'v

definition fieldWrites :: "string list \<Rightarrow> 'v list \<Rightarrow> 'v FieldWrite list" where
  "fieldWrites propNames vals =
     (if propNames \<noteq> [] then map (\<lambda>(n, v). ByName n v) (zip propNames vals)
      else map (\<lambda>(i, v). ByPosition i v) (zip [0..<length vals] vals))"

fun fieldWrite :: "('s, 'w, 'v) RowWriterV2 \<Rightarrow> 'w \<Rightarrow> 'v FieldWrite \<Rightarrow> WriteResult \<times> 'w" where
  "fieldWrite rw w (ByName n v) = setValueByName rw w n v"
| "fieldWrite rw w (ByPosition i v) = setValueByIndex rw w i v"

text \<open>The writes in order, stopping at the first whose result is not \<open>SUCCEEDED\<close>.\<close>

fun firstFault :: "('s, 'w, 'v) RowWriterV2 \<Rightarrow> 'w \<Rightarrow> 'v FieldWrite list \<Rightarrow> 'w SetResult" where
  "firstFault rw w [] = Written w"
| "firstFault rw w (x # xs) =
     (case fieldWrite rw w x of
        (wRet, w') \<Rightarrow> if wRet \<noteq> W_SUCCEEDED then Fault wRet else firstFault rw w' xs)"

text \<open>The call's result as the claim words it, for a given outcome of the writes.\<close>

definition encodedOrFault ::
  "('s, 'w, 'v) RowWriterV2 \<Rightarrow> 'w SetResult \<Rightarrow> (WriteResult \<times> (Status + string)) option" where
  "encodedOrFault rw r =
     (case r of
        OutOfBounds \<Rightarrow> None
      | Fault wRet \<Rightarrow> Some (wRet, Inl (Error ''Add field faild''))
      | Written w \<Rightarrow>
          (if fst (finish rw w) \<noteq> W_SUCCEEDED
           then Some (fst (finish rw w), Inl (Error ''Add field faild''))
           else Some (W_SUCCEEDED, Inr (moveEncodedStr rw (snd (finish rw w))))))"

section \<open>Schemas and indexes\<close>

type_synonym IndexID = int

text \<open>
  \<open>Value::Type\<close>, of which the planner tests \<open>STRING\<close> only; property types
  (\<open>meta::cpp2::PropertyType\<close>) stay a type parameter, mapped by the environment's
  \<open>toValueType\<close>. A column and an index item are read through their thrift getters.
\<close>

datatype ValueType = STRING | OTHER_TYPE nat

record 'pt ColumnDef =
  get_name :: string
  get_type :: 'pt
  get_nullable :: bool

record 'pt IndexItem =
  get_fields :: "'pt ColumnDef list"

section \<open>Atomic edge writer\<close>

text \<open>
  \<open>EdgeType\<close> is \<open>int32_t\<close>. \<open>std::abs\<close> on it: the negation of the least value,
  \<open>-2147483648\<close>, is not an \<open>int32_t\<close> (the call is undefined there); in two's complement
  it wraps to the least value itself, which is what the word negation gives. The
  statements about the writer are for requests without that edge type.
\<close>

type_synonym EdgeType = "32 word"

definition std_abs :: "EdgeType \<Rightarrow> EdgeType" where
  "std_abs t = (if sint t < 0 then - t else t)"

record EdgeKey =
  src :: string
  edge_type :: EdgeType
  ranking :: int
  dst :: string

record 'v NewEdge =
  key :: EdgeKey
  props :: "'v list"

text \<open>
  \<open>cpp2::AddEdgesRequest\<close>. \<open>parts\<close> is a map from the local partition to its edges, here
  the list of its entries in the order the loops visit them.
\<close>

record 'v AddEdgesRequest =
  space_id :: GraphSpaceID
  prop_names :: "string list"
  parts :: "(PartitionID \<times> 'v NewEdge list) list"

type_synonym ChainId = "PartitionID \<times> PartitionID"
type_synonym KV = "string \<times> string"

text \<open>
  What the processors reach through \<open>env_\<close>, as parameters (\<open>None\<close> where the source's
  \<open>StatusOr\<close> or pointer is not ok): the schema manager's \<open>getSpaceVidLen\<close>,
  \<open>getEdgeSchema\<close>, \<open>getTagSchema\<close>, \<open>toEdgeName\<close> and \<open>toTagName\<close>; the meta client's
  \<open>partId\<close>; the index manager's \<open>getEdgeIndexes\<close>, \<open>getEdgeIndex\<close> and \<open>getTagIndex\<close>;
  \<open>IndexKeyUtils::toValueType\<close> and \<open>TransactionUtils::edgeKey\<close>; the row writer; the
  transaction manager's \<open>addSamePartEdges\<close>: the value its future completes with,
  \<open>None\<close> for a future that completes without a value. \<open>checkSpaceVidLen\<close> is the
  processor's own \<open>getSpaceVidLen(spaceId)\<close>, declared in a header that is not among
  the sources: the code it returns and the length it stores.
\<close>

record ('s, 'w, 'v, 'pt) StorageEnv =
  getSpaceVidLen :: "GraphSpaceID \<Rightarrow> nat option"
  checkSpaceVidLen :: "GraphSpaceID \<Rightarrow> ErrorCode \<times> nat"
  partId :: "GraphSpaceID \<Rightarrow> string \<Rightarrow> PartitionID option"
  getEdgeSchema :: "GraphSpaceID \<Rightarrow> int \<Rightarrow> 's option"
  getTagSchema :: "GraphSpaceID \<Rightarrow> int \<Rightarrow> 's option"
  toEdgeName :: "GraphSpaceID \<Rightarrow> int \<Rightarrow> string option"
  toTagName :: "GraphSpaceID \<Rightarrow> int \<Rightarrow> string option"
  getEdgeIndexes :: "GraphSpaceID \<Rightarrow> 'pt IndexItem list option"
  getEdgeIndex :: "GraphSpaceID \<Rightarrow> IndexID \<Rightarrow> 'pt IndexItem option"
  getTagIndex :: "GraphSpaceID \<Rightarrow> IndexID \<Rightarrow> 'pt IndexItem option"
  toValueType :: "'pt \<Rightarrow> ValueType"
  edgeKey :: "nat \<Rightarrow> PartitionID \<Rightarrow> EdgeKey \<Rightarrow> string"
  rowWriter :: "('s, 'w, 'v) RowWriterV2"
  addSamePartEdges ::
    "nat \<Rightarrow> GraphSpaceID \<Rightarrow> PartitionID \<Rightarrow> PartitionID \<Rightarrow> KV list \<Rightarrow> bool \<Rightarrow> ErrorCode option"

text \<open>
  \<open>encodeSingleEdgeProps\<close>: the returned code and the out-parameter \<open>encodedVal\<close>, which
  the caller passes in empty and which is assigned on success only. \<open>None\<close> when
  \<open>encodeRowVal\<close> reads out of bounds.
\<close>

definition encodeSingleEdgeProps ::
  "('s, 'w, 'v, 'pt) StorageEnv \<Rightarrow> GraphSpaceID \<Rightarrow> string list \<Rightarrow> 'v NewEdge
     \<Rightarrow> (ErrorCode \<times> string) option" where
  "encodeSingleEdgeProps env spaceId propNames e =
     (case getEdgeSchema env spaceId (sint (std_abs (edge_type (key e)))) of
        None \<Rightarrow> Some (E_SPACE_NOT_FOUND, [])
      | Some schema \<Rightarrow>
          (case encodeRowVal (rowWriter env) schema propNames (props e) of
             None \<Rightarrow> None
           | Some (wRet, Inl st) \<Rightarrow> Some (E_DATA_TYPE_MISMATCH, [])
           | Some (wRet, Inr encoded) \<Rightarrow> Some (SUCCEEDED, encoded)))"

text \<open>
  \<open>edgesByChain\<close> and \<open>failedPart\<close> are the two hash maps of \<open>processByChain\<close>, as
  association lists with one entry per key. \<open>edgesByChain[cid].emplace_back(kv)\<close>
  appends to the entry of \<open>cid\<close>, which it makes when there is none; \<open>failedPart[p] = c\<close>
  is \<open>AList.update\<close>.
\<close>

definition addToChain :: "ChainId \<times> KV \<Rightarrow> (ChainId \<times> KV list) list \<Rightarrow> (ChainId \<times> KV list) list" where
  "addToChain x edgesByChain =
     AList.map_default (fst x) [snd x] (\<lambda>kvs. kvs @ [snd x]) edgesByChain"

text \<open>
  The inner loop of \<open>processByChain\<close> over one partition's edges. The two \<open>break\<close>s
  leave the loop with the rest of the edges unread.
\<close>

fun splitEdges ::
  "('s, 'w, 'v, 'pt) StorageEnv \<Rightarrow> nat \<Rightarrow> GraphSpaceID \<Rightarrow> string list \<Rightarrow> PartitionID
     \<Rightarrow> 'v NewEdge list \<Rightarrow> (ChainId \<times> KV list) list \<times> (PartitionID \<times> ErrorCode) list
     \<Rightarrow> ((ChainId \<times> KV list) list \<times> (PartitionID \<times> ErrorCode) list) option" where
  "splitEdges env vIdLen spaceId propNames localPart [] acc = Some acc"
| "splitEdges env vIdLen spaceId propNames localPart (e # rest) (edgesByChain, failedPart) =
     (case partId env spaceId (dst (key e)) of
        None \<Rightarrow> Some (edgesByChain, AList.update localPart E_SPACE_NOT_FOUND failedPart)
      | Some remotePart \<Rightarrow>
          (case encodeSingleEdgeProps env spaceId propNames e of
             None \<Rightarrow> None
           | Some (c, val) \<Rightarrow>
               if c \<noteq> SUCCEEDED
               then Some (edgesByChain, AList.update localPart c failedPart)
               else splitEdges env vIdLen spaceId propNames localPart rest
                      (addToChain ((localPart, remotePart),
                                   (edgeKey env vIdLen localPart (key e), val)) edgesByChain,
                       failedPart)))"

text \<open>The outer loop, over the partitions of the request.\<close>

fun splitParts ::
  "('s, 'w, 'v, 'pt) StorageEnv \<Rightarrow> nat \<Rightarrow> GraphSpaceID \<Rightarrow> string list
     \<Rightarrow> (PartitionID \<times> 'v NewEdge list) list
     \<Rightarrow> (ChainId \<times> KV list) list \<times> (PartitionID \<times> ErrorCode) list
     \<Rightarrow> ((ChainId \<times> KV list) list \<times> (PartitionID \<times> ErrorCode) list) option" where
  "splitParts env vIdLen spaceId propNames [] acc = Some acc"
| "splitParts env vIdLen spaceId propNames (part # rest) acc =
     (case splitEdges env vIdLen spaceId propNames (fst part) (snd part) acc of
        None \<Rightarrow> None
      | Some acc' \<Rightarrow> splitParts env vIdLen spaceId propNames rest acc')"

text \<open>
  The callback attached to a chain's future with \<open>thenTry\<close>: \<open>t\<close> is what the future
  completed with. (The source calls \<open>pushResultCode\<close> under the test \<open>code != SUCCEEDED\<close>.)
\<close>

definition chainCode :: "ErrorCode option \<Rightarrow> ErrorCode" where
  "chainCode t =
     (case t of
        None \<Rightarrow> E_UNKNOWN
      | Some v \<Rightarrow> if v \<noteq> SUCCEEDED then v else SUCCEEDED)"

definition chainCallback ::
  "ErrorCode option \<Rightarrow> PartitionID \<Rightarrow> PartitionID \<Rightarrow> BaseProcessor \<Rightarrow> BaseProcessor" where
  "chainCallback t localPart remotePart p =
     (let c = chainCode t;
          p1 = emit (ChainDone localPart remotePart c) p
      in if c \<noteq> SUCCEEDED then pushResultCode c localPart p1 else p1)"

text \<open>
  A \<open>std::unordered_map\<close> is visited in an order that the code does not fix.
  \<open>iterate picks m\<close> is one such order of the entries \<open>m\<close>: each pick names, among the
  entries not visited yet, the one visited next (the pick modulo their number); when
  the picks run out, the entries left are visited as listed.
\<close>

fun iterate :: "nat list \<Rightarrow> 'a list \<Rightarrow> 'a list" where
  "iterate [] m = m"
| "iterate (k # picks) m =
     (if m = [] then []
      else (let i = k mod length m
            in m ! i # iterate picks (take i m @ drop (Suc i) m)))"

text \<open>
  One turn of the loop over \<open>edgesByChain\<close>: the call of \<open>addSamePartEdges\<close> for a chain;
  and the run of the callback that \<open>thenTry\<close> attached to the chain's future.
\<close>

definition submitChain ::
  "nat \<Rightarrow> GraphSpaceID \<Rightarrow> bool \<Rightarrow> ChainId \<times> KV list \<Rightarrow> BaseProcessor \<Rightarrow> BaseProcessor" where
  "submitChain vIdLen spaceId withIndexes chain p =
     emit (AddSamePartEdges vIdLen spaceId (fst (fst chain)) (snd (fst chain)) (snd chain)
             withIndexes) p"

definition completeChain ::
  "('s, 'w, 'v, 'pt) StorageEnv \<Rightarrow> nat \<Rightarrow> GraphSpaceID \<Rightarrow> bool \<Rightarrow> ChainId \<times> KV list
     \<Rightarrow> BaseProcessor \<Rightarrow> BaseProcessor" where
  "completeChain env vIdLen spaceId withIndexes chain p =
     chainCallback
       (addSamePartEdges env vIdLen spaceId (fst (fst chain)) (snd (fst chain)) (snd chain)
          withIndexes)
       (fst (fst chain)) (snd (fst chain)) p"

text \<open>
  The loop attaches each callback as soon as it has submitted the chain, and the
  future may complete at any time from then on: a callback can run before the next
  turn of the loop, or after the loop. A run is a list of steps of the two threads of
  control. \<open>Submit\<close> is the next turn of the loop; \<open>Complete k\<close> runs the callback of a
  chain in flight (submitted and not completed: the \<open>k\<close>-th, modulo their number). A
  step that cannot be taken (the loop is over, or no chain is in flight) is passed
  over. When the steps run out, what is left runs in program order: the loop to its
  end, then the callbacks of the chains in flight.
\<close>

datatype Step = Submit | Complete nat

fun runChains ::
  "('s, 'w, 'v, 'pt) StorageEnv \<Rightarrow> nat \<Rightarrow> GraphSpaceID \<Rightarrow> bool \<Rightarrow> Step list
     \<Rightarrow> (ChainId \<times> KV list) list \<Rightarrow> (ChainId \<times> KV list) list
     \<Rightarrow> BaseProcessor \<Rightarrow> BaseProcessor" where
  "runChains env vIdLen spaceId withIndexes [] toSubmit inFlight p =
     fold (completeChain env vIdLen spaceId withIndexes) (inFlight @ toSubmit)
       (fold (submitChain vIdLen spaceId withIndexes) toSubmit p)"
| "runChains env vIdLen spaceId withIndexes (Submit # run) toSubmit inFlight p =
     (case toSubmit of
        [] \<Rightarrow> runChains env vIdLen spaceId withIndexes run [] inFlight p
      | chain # rest \<Rightarrow>
          runChains env vIdLen spaceId withIndexes run rest (inFlight @ [chain])
            (submitChain vIdLen spaceId withIndexes chain p))"
| "runChains env vIdLen spaceId withIndexes (Complete k # run) toSubmit inFlight p =
     (if inFlight = [] then runChains env vIdLen spaceId withIndexes run toSubmit inFlight p
      else (let i = k mod length inFlight
            in runChains env vIdLen spaceId withIndexes run toSubmit
                 (take i inFlight @ drop (Suc i) inFlight)
                 (completeChain env vIdLen spaceId withIndexes (inFlight ! i) p)))"

text \<open>
  What a run of \<open>processByChain\<close> leaves to the hash maps and to the scheduler: the
  visiting orders of \<open>failedPart\<close> and of \<open>edgesByChain\<close>, and the steps of the chains.
\<close>

record Schedule =
  failedPicks :: "nat list"
  chainPicks :: "nat list"
  chainSteps :: "Step list"

text \<open>
  \<open>processByChain\<close>. \<open>collectAll(futures)\<close> completes when every future has, and only
  then its continuation calls \<open>onFinished\<close>. \<open>None\<close> when a row encoding reads out of
  bounds.
\<close>

definition processByChain ::
  "('s, 'w, 'v, 'pt) StorageEnv \<Rightarrow> Schedule \<Rightarrow> nat \<Rightarrow> 'v AddEdgesRequest \<Rightarrow> BaseProcessor
     \<Rightarrow> BaseProcessor option" where
  "processByChain env sched vIdLen req p =
     (case splitParts env vIdLen (space_id req) (prop_names req) (parts req) ([], []) of
        None \<Rightarrow> None
      | Some (edgesByChain, failedPart) \<Rightarrow>
          if failedPart \<noteq> []
          then Some (onFinished
                       (fold (\<lambda>part. pushResultCode (snd part) (fst part))
                          (iterate (failedPicks sched) failedPart) p))
          else (case getEdgeIndexes env (space_id req) of
                  None \<Rightarrow>
                    Some (onFinished
                            (fold (\<lambda>part. pushResultCode E_SPACE_NOT_FOUND (fst part)) (parts req) p))
                | Some indexes \<Rightarrow>
                    Some (onFinished
                            (runChains env vIdLen (space_id req) (indexes \<noteq> [])
                               (chainSteps sched)
                               (iterate (chainPicks sched) edgesByChain) [] p))))"

text \<open>\<open>AddEdgesAtomicProcessor::process\<close>.\<close>

definition process ::
  "('s, 'w, 'v, 'pt) StorageEnv \<Rightarrow> Schedule \<Rightarrow> 'v AddEdgesRequest \<Rightarrow> BaseProcessor
     \<Rightarrow> BaseProcessor option" where
  "process env sched req p =
     (case getSpaceVidLen env (space_id req) of
        None \<Rightarrow>
          Some (onFinished
                  (fold (\<lambda>part. pushResultCode E_INVALID_SPACEVIDLEN (fst part)) (parts req) p))
      | Some vIdLen \<Rightarrow> processByChain env sched vIdLen req p)"

text \<open>
  The notions the statements about the writer use. An edge of partition \<open>localPart\<close>
  that resolves and encodes has a chain and an encoded pair (\<open>edgeChain\<close>); an edge that
  makes the loop break does so with a code (\<open>edgeFailure\<close>).
\<close>

definition edgeChain ::
  "('s, 'w, 'v, 'pt) StorageEnv \<Rightarrow> nat \<Rightarrow> GraphSpaceID \<Rightarrow> string list \<Rightarrow> PartitionID
     \<Rightarrow> 'v NewEdge \<Rightarrow> (ChainId \<times> KV) option" where
  "edgeChain env vIdLen spaceId propNames localPart e =
     (case partId env spaceId (dst (key e)) of
        None \<Rightarrow> None
      | Some remotePart \<Rightarrow>
          (case encodeSingleEdgeProps env spaceId propNames e of
             None \<Rightarrow> None
           | Some (c, val) \<Rightarrow>
               if c = SUCCEEDED
               then Some ((localPart, remotePart), (edgeKey env vIdLen localPart (key e), val))
               else None))"

definition edgeFailure ::
  "('s, 'w, 'v, 'pt) StorageEnv \<Rightarrow> GraphSpaceID \<Rightarrow> string list \<Rightarrow> 'v NewEdge
     \<Rightarrow> ErrorCode option" where
  "edgeFailure env spaceId propNames e =
     (case partId env spaceId (dst (key e)) of
        None \<Rightarrow> Some E_SPACE_NOT_FOUND
      | Some remotePart \<Rightarrow>
          (case encodeSingleEdgeProps env spaceId propNames e of
             None \<Rightarrow> None
           | Some (c, val) \<Rightarrow> if c \<noteq> SUCCEEDED then Some c else None))"

definition edgeOk ::
  "('s, 'w, 'v, 'pt) StorageEnv \<Rightarrow> GraphSpaceID \<Rightarrow> string list \<Rightarrow> 'v NewEdge \<Rightarrow> bool" where
  "edgeOk env spaceId propNames e =
     (case partId env spaceId (dst (key e)) of
        None \<Rightarrow> False
      | Some remotePart \<Rightarrow>
          (case encodeSingleEdgeProps env spaceId propNames e of
             None \<Rightarrow> False
           | Some (c, val) \<Rightarrow> c = SUCCEEDED))"

text \<open>Every edge of the request has a property for every property name.\<close>

definition propsInBounds :: "'v AddEdgesRequest \<Rightarrow> bool" where
  "propsInBounds req =
     list_all (\<lambda>part. list_all (\<lambda>e. length (prop_names req) \<le> length (props e)) (snd part))
       (parts req)"

text \<open>No edge of the request has the edge type whose absolute value overflows.\<close>

definition edgeTypesInRange :: "'v AddEdgesRequest \<Rightarrow> bool" where
  "edgeTypesInRange req =
     list_all (\<lambda>part. list_all (\<lambda>e. sint (edge_type (key e)) \<noteq> - 2147483648) (snd part))
       (parts req)"



text \<open>The events and the recorded result of one submitted chain \<open>x = (cid, localData)\<close>.\<close>

definition submitEvent :: "nat \<Rightarrow> GraphSpaceID \<Rightarrow> bool \<Rightarrow> ChainId \<times> KV list \<Rightarrow> Event" where
  "submitEvent vIdLen spaceId withIndexes x =
     AddSamePartEdges vIdLen spaceId (fst (fst x)) (snd (fst x)) (snd x) withIndexes"

definition chainResult ::
  "('s, 'w, 'v, 'pt) StorageEnv \<Rightarrow> nat \<Rightarrow> GraphSpaceID \<Rightarrow> bool \<Rightarrow> ChainId \<times> KV list
     \<Rightarrow> ErrorCode" where
  "chainResult env vIdLen spaceId withIndexes x =
     chainCode (addSamePartEdges env vIdLen spaceId (fst (fst x)) (snd (fst x)) (snd x)
                  withIndexes)"

definition doneEvent ::
  "('s, 'w, 'v, 'pt) StorageEnv \<Rightarrow> nat \<Rightarrow> GraphSpaceID \<Rightarrow> bool \<Rightarrow> ChainId \<times> KV list
     \<Rightarrow> Event" where
  "doneEvent env vIdLen spaceId withIndexes x =
     ChainDone (fst (fst x)) (snd (fst x)) (chainResult env vIdLen spaceId withIndexes x)"

definition chainFailure ::
  "('s, 'w, 'v, 'pt) StorageEnv \<Rightarrow> nat \<Rightarrow> GraphSpaceID \<Rightarrow> bool \<Rightarrow> ChainId \<times> KV list
     \<Rightarrow> PartitionResult" where
  "chainFailure env vIdLen spaceId withIndexes x =
     \<lparr>code = chainResult env vIdLen spaceId withIndexes x, part_id = fst (fst x),
      leader = None\<rparr>"

text \<open>
  Reading a trace: the calls of the transaction manager, the runs of chain callbacks,
  and the failures that the callbacks of a trace record, in order.
\<close>

fun isSubmission :: "Event \<Rightarrow> bool" where
  "isSubmission (AddSamePartEdges v s l r kvs b) = True"
| "isSubmission e = False"

fun isCompletion :: "Event \<Rightarrow> bool" where
  "isCompletion (ChainDone l r c) = True"
| "isCompletion e = False"

fun failuresOf :: "Event list \<Rightarrow> PartitionResult list" where
  "failuresOf [] = []"
| "failuresOf (ChainDone l r c # es) =
     (if c \<noteq> SUCCEEDED then [\<lparr>code = c, part_id = l, leader = None\<rparr>] else []) @ failuresOf es"
| "failuresOf (e # es) = failuresOf es"


section \<open>Lookup planner\<close>

text \<open>
  \<open>cpp2::IndexQueryContext\<close> and \<open>cpp2::LookupIndexRequest\<close>, read through their thrift
  getters. \<open>filter\<close> and \<open>return_columns\<close> are optional fields: \<open>None\<close> is a field that is
  not set (\<open>__isset\<close> false). Column hints stay a type parameter. The request's part
  list plays no role in the planner.
\<close>

record 'h IndexQueryContext =
  get_index_id :: IndexID
  get_column_hints :: "'h list"
  get_filter :: "string option"

record 'h IndexSpec =
  get_contexts :: "'h IndexQueryContext list"
  get_is_edge :: bool
  get_tag_or_edge_id :: int

record 'h LookupIndexRequest =
  get_space_id :: GraphSpaceID
  get_indices :: "'h IndexSpec"
  get_return_columns :: "string list option"

text \<open>
  \<open>PlanContext\<close>, by the members the planner assigns and reads. Of \<open>edgeType\<close> and
  \<open>tagId\<close>, \<open>requestCheck\<close> assigns one; the other is never read.
\<close>

record PlanContext =
  planSpaceId :: GraphSpaceID
  planVIdLen :: nat
  isEdge :: bool
  edgeType :: int
  tagId :: int

text \<open>
  The lookup processor's members: \<open>spaceId_\<close> (here \<open>lookupSpaceId\<close>), \<open>planContext\<close> (a
  pointer, null at first),
  \<open>contexts\<close>, \<open>yieldCols\<close> and the column names of \<open>resultDataSet\<close>.
\<close>

record 'h LookupProcessor =
  lookupSpaceId :: GraphSpaceID
  planContext :: "PlanContext option"
  contexts :: "'h IndexQueryContext list"
  yieldCols :: "string list"
  colNames :: "string list"

definition newLookupProcessor :: "'h LookupProcessor" where
  "newLookupProcessor =
     \<lparr>lookupSpaceId = 0, planContext = None, contexts = [], yieldCols = [], colNames = []\<rparr>"

text \<open>\<open>LookupBaseProcessor::requestCheck\<close>: the returned code and the processor after it.\<close>

definition requestCheck ::
  "('s, 'w, 'v, 'pt) StorageEnv \<Rightarrow> 'h LookupIndexRequest \<Rightarrow> 'h LookupProcessor
     \<Rightarrow> ErrorCode \<times> 'h LookupProcessor" where
  "requestCheck env req pr =
     (let pr1 = pr\<lparr>lookupSpaceId := get_space_id req\<rparr>;
          retCode = fst (checkSpaceVidLen env (lookupSpaceId pr1))
      in if retCode \<noteq> SUCCEEDED then (retCode, pr1)
         else
           (let indices = get_indices req;
                pc = \<lparr>planSpaceId = lookupSpaceId pr1,
                      planVIdLen = snd (checkSpaceVidLen env (lookupSpaceId pr1)),
                      isEdge = get_is_edge indices,
                      edgeType = (if get_is_edge indices then get_tag_or_edge_id indices else 0),
                      tagId = (if get_is_edge indices then 0 else get_tag_or_edge_id indices)\<rparr>;
                pr2 = pr1\<lparr>planContext := Some pc\<rparr>
            in if get_contexts indices = [] then (E_INVALID_OPERATION, pr2)
               else
                 (let pr3 = pr2\<lparr>contexts := get_contexts indices\<rparr>;
                      pr4 = (case get_return_columns req of
                               Some retcols \<Rightarrow> pr3\<lparr>yieldCols := retcols\<rparr>
                             | None \<Rightarrow> pr3);
                      pr5 = (if isEdge pc
                             then pr4\<lparr>colNames := colNames pr4 @ [''_src'', ''_ranking'', ''_dst'']\<rparr>
                             else pr4\<lparr>colNames := colNames pr4 @ [''_vid'']\<rparr>);
                      pr6 = pr5\<lparr>colNames := colNames pr5 @ yieldCols pr5\<rparr>
                  in (SUCCEEDED, pr6))))"

text \<open>
  Plan nodes. A node is made with \<open>make_unique\<close> and is known to other nodes by its
  address: here its \<open>node_id\<close>, the number of nodes made before it. \<open>dependencies\<close> is what
  \<open>addDependency\<close> collects. The kinds follow the constructors the planner calls: a
  data node and a filter node hold the node they read from; an output node holds it
  with what else its constructor takes (\<open>OutputInput\<close>; for an output node over a
  filter node, the boolean passed, \<open>None\<close> when the call leaves it to its default).
\<close>

type_synonym NodeId = nat

datatype OutputInput =
    FromScan "(string \<times> ValueType) list" int bool
  | FromEdge
  | FromVertex
  | FromFilter "bool option"

datatype ('s, 'h) NodeKind =
    AggregateNode
  | IndexScanNode IndexID "'h list"
  | IndexEdgeNode NodeId 's string
  | IndexVertexNode NodeId 's string
  | IndexFilterNode NodeId string nat int bool bool "(string \<times> ValueType) list"
  | IndexFilterNodeData nat NodeId string
  | IndexOutputNode NodeId OutputInput

record ('s, 'h) PlanNode =
  node_id :: NodeId
  kind :: "('s, 'h) NodeKind"
  dependencies :: "NodeId list"

text \<open>
  \<open>StoragePlan\<close>: the nodes that \<open>addNode\<close> has taken, in order, and the count of nodes
  made so far.
\<close>

record ('s, 'h) StoragePlan =
  nodes :: "('s, 'h) PlanNode list"
  made :: nat

definition addNode :: "('s, 'h) PlanNode \<Rightarrow> ('s, 'h) StoragePlan \<Rightarrow> ('s, 'h) StoragePlan" where
  "addNode n plan = plan\<lparr>nodes := nodes plan @ [n]\<rparr>"

definition filterText :: "'h IndexQueryContext \<Rightarrow> string" where
  "filterText ctx = (case get_filter ctx of None \<Rightarrow> [] | Some f \<Rightarrow> f)"

text \<open>\<open>buildPlanBasic\<close>: the output node it returns, and the plan with the scan node added.\<close>

definition buildPlanBasic ::
  "PlanContext \<Rightarrow> 'h IndexQueryContext \<Rightarrow> ('s, 'h) StoragePlan
     \<Rightarrow> (string \<times> ValueType) list \<Rightarrow> int \<Rightarrow> bool
     \<Rightarrow> ('s, 'h) PlanNode option \<times> ('s, 'h) StoragePlan" where
  "buildPlanBasic pc ctx plan cols vColNum hasNullableCol =
     (let indexScan = \<lparr>node_id = made plan,
                       kind = IndexScanNode (get_index_id ctx) (get_column_hints ctx),
                       dependencies = []\<rparr>;
          output = \<lparr>node_id = made plan + 1,
                    kind = IndexOutputNode (node_id indexScan) (FromScan cols vColNum hasNullableCol),
                    dependencies = [node_id indexScan]\<rparr>
      in (Some output, addNode indexScan (plan\<lparr>made := made plan + 2\<rparr>)))"

text \<open>The schema and the schema name that the two builders with a data node look up.\<close>

definition planSchema ::
  "('s, 'w, 'v, 'pt) StorageEnv \<Rightarrow> GraphSpaceID \<Rightarrow> PlanContext \<Rightarrow> 's option" where
  "planSchema env space pc =
     (if isEdge pc then getEdgeSchema env space (edgeType pc)
      else getTagSchema env space (tagId pc))"

definition planSchemaName ::
  "('s, 'w, 'v, 'pt) StorageEnv \<Rightarrow> GraphSpaceID \<Rightarrow> PlanContext \<Rightarrow> string option" where
  "planSchemaName env space pc =
     (if isEdge pc then toEdgeName env space (edgeType pc)
      else toTagName env space (tagId pc))"

text \<open>\<open>buildPlanWithData\<close>; \<open>None\<close> is the null pointer it returns.\<close>

definition buildPlanWithData ::
  "('s, 'w, 'v, 'pt) StorageEnv \<Rightarrow> GraphSpaceID \<Rightarrow> PlanContext \<Rightarrow> 'h IndexQueryContext
     \<Rightarrow> ('s, 'h) StoragePlan \<Rightarrow> ('s, 'h) PlanNode option \<times> ('s, 'h) StoragePlan" where
  "buildPlanWithData env space pc ctx plan =
     (case planSchema env space pc of
        None \<Rightarrow> (None, plan)
      | Some schema \<Rightarrow>
          (case planSchemaName env space pc of
             None \<Rightarrow> (None, plan)
           | Some schemaName \<Rightarrow>
               (let indexScan = \<lparr>node_id = made plan,
                                 kind = IndexScanNode (get_index_id ctx) (get_column_hints ctx),
                                 dependencies = []\<rparr>
                in if isEdge pc
                   then
                     (let edge = \<lparr>node_id = made plan + 1,
                                  kind = IndexEdgeNode (node_id indexScan) schema schemaName,
                                  dependencies = [node_id indexScan]\<rparr>;
                          output = \<lparr>node_id = made plan + 2,
                                    kind = IndexOutputNode (node_id edge) FromEdge,
                                    dependencies = [node_id edge]\<rparr>
                      in (Some output,
                          addNode edge (addNode indexScan (plan\<lparr>made := made plan + 3\<rparr>))))
                   else
                     (let vertex = \<lparr>node_id = made plan + 1,
                                    kind = IndexVertexNode (node_id indexScan) schema schemaName,
                                    dependencies = [node_id indexScan]\<rparr>;
                          output = \<lparr>node_id = made plan + 2,
                                    kind = IndexOutputNode (node_id vertex) FromVertex,
                                    dependencies = [node_id vertex]\<rparr>
                      in (Some output,
                          addNode vertex (addNode indexScan (plan\<lparr>made := made plan + 3\<rparr>)))))))"

text \<open>\<open>buildPlanWithFilter\<close>.\<close>

definition buildPlanWithFilter ::
  "PlanContext \<Rightarrow> 'h IndexQueryContext \<Rightarrow> ('s, 'h) StoragePlan \<Rightarrow> int \<Rightarrow> bool
     \<Rightarrow> (string \<times> ValueType) list
     \<Rightarrow> ('s, 'h) PlanNode option \<times> ('s, 'h) StoragePlan" where
  "buildPlanWithFilter pc ctx plan vColNum hasNullableCol indexCols =
     (let indexScan = \<lparr>node_id = made plan,
                       kind = IndexScanNode (get_index_id ctx) (get_column_hints ctx),
                       dependencies = []\<rparr>;
          filter = \<lparr>node_id = made plan + 1,
                    kind = IndexFilterNode (node_id indexScan) (filterText ctx) (planVIdLen pc)
                             vColNum hasNullableCol (isEdge pc) indexCols,
                    dependencies = [node_id indexScan]\<rparr>;
          output = \<lparr>node_id = made plan + 2,
                    kind = IndexOutputNode (node_id filter) (FromFilter (Some True)),
                    dependencies = [node_id filter]\<rparr>
      in (Some output, addNode filter (addNode indexScan (plan\<lparr>made := made plan + 3\<rparr>))))"

text \<open>\<open>buildPlanWithDataAndFilter\<close>.\<close>

definition buildPlanWithDataAndFilter ::
  "('s, 'w, 'v, 'pt) StorageEnv \<Rightarrow> GraphSpaceID \<Rightarrow> PlanContext \<Rightarrow> 'h IndexQueryContext
     \<Rightarrow> ('s, 'h) StoragePlan \<Rightarrow> ('s, 'h) PlanNode option \<times> ('s, 'h) StoragePlan" where
  "buildPlanWithDataAndFilter env space pc ctx plan =
     (case planSchema env space pc of
        None \<Rightarrow> (None, plan)
      | Some schema \<Rightarrow>
          (case planSchemaName env space pc of
             None \<Rightarrow> (None, plan)
           | Some schemaName \<Rightarrow>
               (let indexScan = \<lparr>node_id = made plan,
                                 kind = IndexScanNode (get_index_id ctx) (get_column_hints ctx),
                                 dependencies = []\<rparr>
                in if isEdge pc
                   then
                     (let edge = \<lparr>node_id = made plan + 1,
                                  kind = IndexEdgeNode (node_id indexScan) schema schemaName,
                                  dependencies = [node_id indexScan]\<rparr>;
                          filter = \<lparr>node_id = made plan + 2,
                                    kind = IndexFilterNodeData (planVIdLen pc) (node_id edge)
                                             (filterText ctx),
                                    dependencies = [node_id edge]\<rparr>;
                          output = \<lparr>node_id = made plan + 3,
                                    kind = IndexOutputNode (node_id filter) (FromFilter None),
                                    dependencies = [node_id filter]\<rparr>
                      in (Some output,
                          addNode filter
                            (addNode edge (addNode indexScan (plan\<lparr>made := made plan + 4\<rparr>)))))
                   else
                     (let vertex = \<lparr>node_id = made plan + 1,
                                    kind = IndexVertexNode (node_id indexScan) schema schemaName,
                                    dependencies = [node_id indexScan]\<rparr>;
                          filter = \<lparr>node_id = made plan + 2,
                                    kind = IndexFilterNodeData (planVIdLen pc) (node_id vertex)
                                             (filterText ctx),
                                    dependencies = [node_id vertex]\<rparr>;
                          output = \<lparr>node_id = made plan + 3,
                                    kind = IndexOutputNode (node_id filter) (FromFilter None),
                                    dependencies = [node_id filter]\<rparr>
                      in (Some output,
                          addNode filter
                            (addNode vertex
                               (addNode indexScan (plan\<lparr>made := made plan + 4\<rparr>))))))))"

text \<open>
  The two booleans of \<open>buildPlan\<close>. \<open>needFilter\<close>: the filter is set and not empty.
  \<open>needData\<close>: the loop over \<open>yieldCols\<close> with \<open>std::find_if\<close> over the index's fields,
  which stops at the first yield column that is no field's name.
\<close>

definition needFilter :: "'h IndexQueryContext \<Rightarrow> bool" where
  "needFilter ctx = (case get_filter ctx of None \<Rightarrow> False | Some f \<Rightarrow> f \<noteq> [])"

definition needData :: "'pt IndexItem \<Rightarrow> string list \<Rightarrow> bool" where
  "needData index cols =
     list_ex (\<lambda>yieldCol. List.find (\<lambda>columnDef. yieldCol = get_name columnDef) (get_fields index)
                           = None) cols"

definition planIndex ::
  "('s, 'w, 'v, 'pt) StorageEnv \<Rightarrow> GraphSpaceID \<Rightarrow> PlanContext \<Rightarrow> IndexID
     \<Rightarrow> 'pt IndexItem option" where
  "planIndex env space pc indexId =
     (if isEdge pc then getEdgeIndex env space indexId else getTagIndex env space indexId)"

text \<open>
  The body of \<open>buildPlan\<close>'s loop for one context, between the index lookup and the test
  of \<open>out\<close>: what the loop over the index's fields computes, then the choice of builder.
\<close>

definition buildContext ::
  "('s, 'w, 'v, 'pt) StorageEnv \<Rightarrow> GraphSpaceID \<Rightarrow> PlanContext \<Rightarrow> string list
     \<Rightarrow> 'pt IndexItem \<Rightarrow> 'h IndexQueryContext \<Rightarrow> ('s, 'h) StoragePlan
     \<Rightarrow> ('s, 'h) PlanNode option \<times> ('s, 'h) StoragePlan" where
  "buildContext env space pc cols index ctx plan =
     (let hasNullableCol = list_ex get_nullable (get_fields index);
          vColNum = int (length (filter (\<lambda>col. toValueType env (get_type col) = STRING)
                                   (get_fields index)));
          indexCols = map (\<lambda>col. (get_name col, toValueType env (get_type col)))
                        (get_fields index)
      in if \<not> needData index cols \<and> \<not> needFilter ctx
         then buildPlanBasic pc ctx plan indexCols vColNum hasNullableCol
         else if needData index cols \<and> \<not> needFilter ctx
         then buildPlanWithData env space pc ctx plan
         else if \<not> needData index cols \<and> needFilter ctx
         then buildPlanWithFilter pc ctx plan vColNum hasNullableCol indexCols
         else buildPlanWithDataAndFilter env space pc ctx plan)"

text \<open>
  The loop of \<open>buildPlan\<close> over the contexts. \<open>aggr\<close> is the aggregate node, made before
  the loop and added to the plan after it.
\<close>

fun buildPlanLoop ::
  "('s, 'w, 'v, 'pt) StorageEnv \<Rightarrow> GraphSpaceID \<Rightarrow> PlanContext \<Rightarrow> string list
     \<Rightarrow> 'h IndexQueryContext list \<Rightarrow> ('s, 'h) PlanNode \<times> ('s, 'h) StoragePlan
     \<Rightarrow> Status + ('s, 'h) PlanNode \<times> ('s, 'h) StoragePlan" where
  "buildPlanLoop env space pc cols [] acc = Inr acc"
| "buildPlanLoop env space pc cols (ctx # rest) (aggr, plan) =
     (case planIndex env space pc (get_index_id ctx) of
        None \<Rightarrow> Inl IndexNotFound
      | Some index \<Rightarrow>
          (case buildContext env space pc cols index ctx plan of
             (None, plan') \<Rightarrow> Inl (Error ''Index scan plan error'')
           | (Some out, plan') \<Rightarrow>
               buildPlanLoop env space pc cols rest
                 (aggr\<lparr>dependencies := dependencies aggr @ [node_id out]\<rparr>, addNode out plan')))"

text \<open>\<open>LookupBaseProcessor::buildPlan\<close>: a status, or the nodes of the plan.\<close>

definition buildPlan ::
  "('s, 'w, 'v, 'pt) StorageEnv \<Rightarrow> GraphSpaceID \<Rightarrow> PlanContext \<Rightarrow> 'h IndexQueryContext list
     \<Rightarrow> string list \<Rightarrow> Status + ('s, 'h) PlanNode list" where
  "buildPlan env space pc ctxs cols =
     (let IndexAggr = \<lparr>node_id = 0, kind = AggregateNode, dependencies = []\<rparr>
      in case buildPlanLoop env space pc cols ctxs (IndexAggr, \<lparr>nodes = [], made = 1\<rparr>) of
           Inl st \<Rightarrow> Inl st
         | Inr (aggr, plan) \<Rightarrow> Inr (nodes (addNode aggr plan)))"

text \<open>
  Reading a plan. The stage of a node, and the pipeline that ends in a node: the
  stages met when following the first dependency down to a node without one, listed
  from that node on. \<open>n\<close> bounds the number of nodes followed.
\<close>

datatype Stage = Aggregate | IndexScan | IndexEdge | IndexVertex | IndexFilter | IndexOutput

fun stage :: "('s, 'h) NodeKind \<Rightarrow> Stage" where
  "stage AggregateNode = Aggregate"
| "stage (IndexScanNode i hints) = IndexScan"
| "stage (IndexEdgeNode input schema n) = IndexEdge"
| "stage (IndexVertexNode input schema n) = IndexVertex"
| "stage (IndexFilterNode input f v c nl e cols) = IndexFilter"
| "stage (IndexFilterNodeData v input f) = IndexFilter"
| "stage (IndexOutputNode input inp) = IndexOutput"

fun pipeline :: "nat \<Rightarrow> ('s, 'h) PlanNode list \<Rightarrow> NodeId \<Rightarrow> Stage list" where
  "pipeline 0 plan i = []"
| "pipeline (Suc n) plan i =
     (case List.find (\<lambda>node. node_id node = i) plan of
        None \<Rightarrow> []
      | Some node \<Rightarrow>
          (case dependencies node of
             [] \<Rightarrow> []
           | d # ds \<Rightarrow> pipeline n plan d) @ [stage (kind node)])"

text \<open>The four plan shapes of the specification.\<close>

definition planShape :: "bool \<Rightarrow> bool \<Rightarrow> bool \<Rightarrow> Stage list" where
  "planShape edge data filt =
     [IndexScan] @ (if data then [if edge then IndexEdge else IndexVertex] else [])
       @ (if filt then [IndexFilter] else []) @ [IndexOutput]"

text \<open>
  What makes \<open>buildPlan\<close> fail at a context, if anything: no index, or a data node is
  needed and the schema or its name is not found.
\<close>

definition contextError ::
  "('s, 'w, 'v, 'pt) StorageEnv \<Rightarrow> GraphSpaceID \<Rightarrow> PlanContext \<Rightarrow> string list
     \<Rightarrow> 'h IndexQueryContext \<Rightarrow> Status option" where
  "contextError env space pc cols ctx =
     (case planIndex env space pc (get_index_id ctx) of
        None \<Rightarrow> Some IndexNotFound
      | Some index \<Rightarrow>
          if needData index cols
             \<and> (planSchema env space pc = None \<or> planSchemaName env space pc = None)
          then Some (Error ''Index scan plan error'')
          else None)"

text \<open>
  A chain of plan nodes: the nodes with identifiers \<open>ids\<close> are in the plan, in stages
  \<open>ts\<close>, the first depending on \<open>prev\<close> (on nothing when \<open>prev\<close> is \<open>None\<close>) and each
  other one on the one before it.
\<close>

fun linked ::
  "('s, 'h) PlanNode list \<Rightarrow> NodeId option \<Rightarrow> NodeId list \<Rightarrow> Stage list \<Rightarrow> bool" where
  "linked plan prev [] [] = True"
| "linked plan prev (i # ids) (t # ts) =
     (case List.find (\<lambda>node. node_id node = i) plan of
        None \<Rightarrow> False
      | Some node \<Rightarrow>
          stage (kind node) = t
          \<and> dependencies node = (case prev of None \<Rightarrow> [] | Some j \<Rightarrow> [j])
          \<and> linked plan (Some i) ids ts)"
| "linked plan prev [] (t # ts) = False"
| "linked plan prev (i # ids) [] = False"

text \<open>
  A plan whose nodes were all made before \<open>made\<close> (\<open>fresh\<close>), and what a builder adds to
  a plan: a chain \<open>ids\<close> that ends in the output node (\<open>chainAdded\<close>).
\<close>

definition fresh :: "('s, 'h) StoragePlan \<Rightarrow> bool" where
  "fresh plan = list_all (\<lambda>n. node_id n < made plan) (nodes plan)"

definition chainAdded ::
  "('s, 'h) StoragePlan \<Rightarrow> ('s, 'h) PlanNode \<Rightarrow> ('s, 'h) StoragePlan \<Rightarrow> NodeId list
     \<Rightarrow> Stage list \<Rightarrow> bool" where
  "chainAdded plan out plan' ids ts =
     (linked (nodes (addNode out plan')) None ids ts
      \<and> ids \<noteq> [] \<and> last ids = node_id out
      \<and> (\<exists>new. nodes (addNode out plan') = nodes plan @ new \<and> length ids \<le> length new)
      \<and> fresh (addNode out plan'))"

section \<open>Cluster identity\<close>

text \<open>
  The meta daemon's \<open>initKV\<close>. \<open>nebula::ClusterID\<close> is a 64-bit integer, and 0 stands for
  "no cluster id". What \<open>initKV\<close> calls and does not define is a parameter: the result of
  \<open>kvstore->init()\<close>; of the \<open>n\<close>-th call of \<open>partLeader\<close> on the meta partition
  (\<open>leaderAt\<close>); of the \<open>n\<close>-th call of \<open>ClusterIdMan::getClusterIdFromKV\<close> on the key
  (\<open>clusterIdAt\<close>: the id read, 0 when there is none; the store changes under the
  replica's feet, so successive reads may differ); of \<open>ClusterIdMan::persistInKV\<close>; and
  the two flags read.
\<close>

type_synonym ClusterID = "64 word"

definition kClusterIdKey :: string where
  "kClusterIdKey = ''__meta_cluster_id_key__''"

text \<open>
  The canonical form of the configured meta-peer list \<open>host:port,host:port,...\<close>: its
  \<open>host:port\<close> strings, sorted (by character code, a prefix first), each followed by a
  comma.
\<close>

fun splitPeers :: "string \<Rightarrow> string \<Rightarrow> string list" where
  "splitPeers peer [] = [peer]"
| "splitPeers peer (c # cs) =
     (if c = CHR '','' then peer # splitPeers [] cs else splitPeers (peer @ [c]) cs)"

fun peerLe :: "string \<Rightarrow> string \<Rightarrow> bool" where
  "peerLe [] b = True"
| "peerLe (x # xs) [] = False"
| "peerLe (x # xs) (y # ys) =
     ((of_char x :: nat) < of_char y \<or> (x = y \<and> peerLe xs ys))"

fun insertPeer :: "string \<Rightarrow> string list \<Rightarrow> string list" where
  "insertPeer a [] = [a]"
| "insertPeer a (b # bs) = (if peerLe a b then a # b # bs else b # insertPeer a bs)"

definition canonicalPeers :: "string \<Rightarrow> string" where
  "canonicalPeers addrs =
     concat (map (\<lambda>peer. peer @ '','') (foldr insertPeer (splitPeers [] addrs) []))"

text \<open>
  Modelled from the spec: \<open>ClusterIdMan::create\<close> is not among the sources. The
  specification has it derive a non-zero 64-bit id from the canonical form of the
  configured meta-peer list: the hash of the sorted \<open>host:port\<close> strings, salted. The
  hash function and the salt, which the specification does not name, are parameters.
  The specification does not say how the id is kept from being zero either: here a
  hash of zero gives the id 1.
\<close>

definition ClusterIdMan_create :: "(string \<Rightarrow> 64 word) \<Rightarrow> string \<Rightarrow> string \<Rightarrow> ClusterID" where
  "ClusterIdMan_create hash salt addrs =
     (let h = hash (salt @ canonicalPeers addrs) in if h = 0 then 1 else h)"

record MetaEnv =
  storeInit :: bool
  leaderAt :: "nat \<Rightarrow> ResultCode + HostAddr"
  clusterIdAt :: "nat \<Rightarrow> ClusterID"
  hashOf :: "string \<Rightarrow> 64 word"
  idSalt :: string
  persistInKV :: "string \<Rightarrow> ClusterID \<Rightarrow> bool"
  meta_server_addrs :: string
  upgrade_meta_data :: bool

text \<open>\<open>ClusterIdMan::create(addrs)\<close>, with the hash and the salt of the environment.\<close>

definition createClusterId :: "MetaEnv \<Rightarrow> string \<Rightarrow> ClusterID" where
  "createClusterId env addrs = ClusterIdMan_create (hashOf env) (idSalt env) addrs"

text \<open>
  What \<open>initKV\<close> changes: the global \<open>gClusterId\<close>; and, to speak of its effects, the
  number of \<open>partLeader\<close> calls and of key reads made, the seconds slept, the calls of
  \<open>persistInKV\<close> with their key and value, and whether the meta data upgrade ran.
\<close>

record MetaState =
  gClusterId :: ClusterID
  leaderCalls :: nat
  idReads :: nat
  slept :: nat
  persistCalls :: "(string \<times> ClusterID) list"
  upgraded :: bool

text \<open>\<open>gClusterId = ClusterIdMan::getClusterIdFromKV(kvstore, kClusterIdKey)\<close>.\<close>

definition getClusterIdFromKV :: "MetaEnv \<Rightarrow> MetaState \<Rightarrow> MetaState" where
  "getClusterIdFromKV env st =
     st\<lparr>gClusterId := clusterIdAt env (idReads st), idReads := idReads st + 1\<rparr>"

text \<open>
  The loop \<open>while (true)\<close> that waits for the leader: \<open>None\<close> in the result is the
  \<open>return nullptr\<close> on a \<open>partLeader\<close> error. The loop may run forever.
\<close>

partial_function (option) waitForLeader ::
  "MetaEnv \<Rightarrow> MetaState \<Rightarrow> (HostAddr option \<times> MetaState) option" where
  "waitForLeader env st =
     (case leaderAt env (leaderCalls st) of
        Inl err \<Rightarrow> Some (None, st\<lparr>leaderCalls := leaderCalls st + 1\<rparr>)
      | Inr addr \<Rightarrow>
          if addr \<noteq> \<lparr>host = [], port = 0\<rparr>
          then Some (Some addr, st\<lparr>leaderCalls := leaderCalls st + 1\<rparr>)
          else waitForLeader env (st\<lparr>leaderCalls := leaderCalls st + 1, slept := slept st + 1\<rparr>))"

text \<open>The follower's loop \<open>while (gClusterId == 0)\<close>: sleep one second, read again.\<close>

partial_function (option) waitForClusterId :: "MetaEnv \<Rightarrow> MetaState \<Rightarrow> MetaState option" where
  "waitForClusterId env st =
     (if gClusterId st = 0
      then waitForClusterId env (getClusterIdFromKV env (st\<lparr>slept := slept st + 1\<rparr>))
      else Some st)"

text \<open>
  The part of \<open>initKV\<close> from the first read of the cluster id on, \<open>ldr\<close> being the leader
  found. The boolean is whether \<open>initKV\<close> goes on (\<open>False\<close>: it returns \<open>nullptr\<close>).
\<close>

definition initClusterId ::
  "MetaEnv \<Rightarrow> HostAddr \<Rightarrow> HostAddr \<Rightarrow> MetaState \<Rightarrow> (bool \<times> MetaState) option" where
  "initClusterId env ldr localhost st =
     (let st1 = getClusterIdFromKV env st
      in if gClusterId st1 = 0
         then (if ldr = localhost
               then (let st2 = st1\<lparr>gClusterId := createClusterId env (meta_server_addrs env)\<rparr>;
                         st3 = st2\<lparr>persistCalls := persistCalls st2 @ [(kClusterIdKey, gClusterId st2)]\<rparr>
                     in if \<not> persistInKV env kClusterIdKey (gClusterId st2)
                        then Some (False, st3)
                        else Some (True, st3))
               else (case waitForClusterId env st1 of
                       None \<Rightarrow> None
                     | Some st2 \<Rightarrow> Some (True, st2)))
         else Some (True, st1))"

text \<open>
  \<open>initKV\<close>: \<open>False\<close> is the null pointer, \<open>True\<close> the store. The making of the part
  manager, of the thread pools and of the store has no part in the claims and is left
  out.
\<close>

definition initKV :: "MetaEnv \<Rightarrow> HostAddr \<Rightarrow> MetaState \<Rightarrow> (bool \<times> MetaState) option" where
  "initKV env localhost st =
     (if \<not> storeInit env then Some (False, st)
      else (case waitForLeader env st of
              None \<Rightarrow> None
            | Some (None, st1) \<Rightarrow> Some (False, st1)
            | Some (Some ldr, st1) \<Rightarrow>
                (case initClusterId env ldr localhost st1 of
                   None \<Rightarrow> None
                 | Some (False, st2) \<Rightarrow> Some (False, st2)
                 | Some (True, st2) \<Rightarrow>
                     Some (True, if upgrade_meta_data env then st2\<lparr>upgraded := True\<rparr> else st2))))"

section \<open>A sample environment\<close>

text \<open>
  The codec, the schema manager, the meta client and the transaction manager are
  parameters of the definitions above. The statements below are instantiated on this
  small environment: rows are strings \<open>field=value;...\<close>, values are integers from 0 to
  9, a negative value is out of range for every field and a value above 9 is of the
  wrong type.
\<close>

definition showDigit :: "int \<Rightarrow> string" where
  "showDigit v = [''0123456789'' ! nat v]"

definition sampleWriter :: "(unit, string, int) RowWriterV2" where
  "sampleWriter =
     \<lparr>newWriter = (\<lambda>schema. []),
      setValueByName = (\<lambda>w n v.
         if v < 0 then (OUT_OF_RANGE, w)
         else if 9 < v then (TYPE_MISMATCH, w)
         else (W_SUCCEEDED, w @ n @ ''='' @ showDigit v @ '';'')),
      setValueByIndex = (\<lambda>w i v.
         if v < 0 then (OUT_OF_RANGE, w)
         else if 9 < v then (TYPE_MISMATCH, w)
         else (W_SUCCEEDED, w @ showDigit (int i) @ ''='' @ showDigit v @ '';'')),
      finish = (\<lambda>w. (W_SUCCEEDED, w)),
      moveEncodedStr = (\<lambda>w. w)\<rparr>"

text \<open>
  Space 1 has vertex ids of length 8, one edge type, 5, named \<open>e\<close>, and one tag, 2,
  named \<open>t\<close>, with columns \<open>c1\<close>, \<open>c2\<close>, \<open>c3\<close>. Tag index 10 is on \<open>(c1, c2)\<close> of tag 2;
  tag index 11 is on \<open>(c1)\<close> of a tag whose schema is missing; edge index 20 is on
  \<open>(c1)\<close> of edge type 5. Property types are strings (\<open>''string''\<close> is the string type).
  Vertex \<open>A\<close> is in partition 1, \<open>B\<close> in partition 2, \<open>C\<close> in partition 3, and no other
  vertex resolves. The transaction manager commits a chain whose remote partition is
  1, answers \<open>E_CONSENSUS_ERROR\<close> for remote partition 2, and loses the future
  otherwise.
\<close>

definition sampleColumn :: "string \<Rightarrow> string ColumnDef" where
  "sampleColumn n = \<lparr>get_name = n, get_type = ''int'', get_nullable = False\<rparr>"

definition sampleEnv :: "(unit, string, int, string) StorageEnv" where
  "sampleEnv =
     \<lparr>getSpaceVidLen = (\<lambda>s. if s = 1 then Some 8 else None),
      checkSpaceVidLen = (\<lambda>s. if s = 1 then (SUCCEEDED, 8) else (E_INVALID_SPACEVIDLEN, 0)),
      partId = (\<lambda>s vid. if vid = ''A'' then Some 1 else if vid = ''B'' then Some 2
                         else if vid = ''C'' then Some 3 else None),
      getEdgeSchema = (\<lambda>s t. if t = 5 then Some () else None),
      getTagSchema = (\<lambda>s t. if t = 2 then Some () else None),
      toEdgeName = (\<lambda>s t. if t = 5 then Some ''e'' else None),
      toTagName = (\<lambda>s t. if t = 2 then Some ''t'' else None),
      getEdgeIndexes = (\<lambda>s. Some []),
      getEdgeIndex = (\<lambda>s i. if i = 20 then Some \<lparr>get_fields = [sampleColumn ''c1'']\<rparr>
                              else None),
      getTagIndex = (\<lambda>s i.
         if i = 10 then Some \<lparr>get_fields = [sampleColumn ''c1'', sampleColumn ''c2'']\<rparr>
         else if i = 11 then Some \<lparr>get_fields = [sampleColumn ''c1'']\<rparr>
         else None),
      toValueType = (\<lambda>t. if t = ''string'' then STRING else OTHER_TYPE 0),
      edgeKey = (\<lambda>vIdLen part k. src k @ ''>'' @ dst k),
      rowWriter = sampleWriter,
      addSamePartEdges = (\<lambda>vIdLen s localPart remotePart kvs withIndexes.
         if remotePart = 1 then Some SUCCEEDED
         else if remotePart = 2 then Some E_CONSENSUS_ERROR else None)\<rparr>"

definition sampleEdge :: "string \<Rightarrow> string \<Rightarrow> int list \<Rightarrow> int NewEdge" where
  "sampleEdge a b vals = \<lparr>key = \<lparr>src = a, edge_type = 5, ranking = 0, dst = b\<rparr>, props = vals\<rparr>"


text \<open>
  Lookups in space 1: a plan context for a tag or an edge type, a context for an index
  with an optional filter and no column hint, and the plan of the vertex lookup
  through index 10 that yields \<open>c3\<close>, once without and once with a filter.
\<close>

definition samplePlanContext :: "bool \<Rightarrow> int \<Rightarrow> PlanContext" where
  "samplePlanContext e t =
     \<lparr>planSpaceId = 1, planVIdLen = 8, isEdge = e, edgeType = (if e then t else 0),
      tagId = (if e then 0 else t)\<rparr>"

definition sampleContext :: "IndexID \<Rightarrow> string option \<Rightarrow> nat IndexQueryContext" where
  "sampleContext i f = \<lparr>get_index_id = i, get_column_hints = [], get_filter = f\<rparr>"

definition samplePlan :: "(unit, nat) PlanNode list" where
  "samplePlan =
     [\<lparr>node_id = 1, kind = IndexScanNode 10 [], dependencies = []\<rparr>,
      \<lparr>node_id = 2, kind = IndexVertexNode 1 () ''t'', dependencies = [1]\<rparr>,
      \<lparr>node_id = 3, kind = IndexOutputNode 2 FromVertex, dependencies = [2]\<rparr>,
      \<lparr>node_id = 4, kind = IndexScanNode 10 [], dependencies = []\<rparr>,
      \<lparr>node_id = 5, kind = IndexVertexNode 4 () ''t'', dependencies = [4]\<rparr>,
      \<lparr>node_id = 6, kind = IndexFilterNodeData 8 5 ''c1 > 1'', dependencies = [5]\<rparr>,
      \<lparr>node_id = 7, kind = IndexOutputNode 6 (FromFilter None), dependencies = [6]\<rparr>,
      \<lparr>node_id = 0, kind = AggregateNode, dependencies = [3, 7]\<rparr>]"

text \<open>
  The plan of the same vertex lookup yielding the indexed columns \<open>c1, c2\<close>, and the
  plan of the edge lookup through index 20 that yields \<open>c2\<close>.
\<close>

definition sampleIndexedPlan :: "(unit, nat) PlanNode list" where
  "sampleIndexedPlan =
     [\<lparr>node_id = 1, kind = IndexScanNode 10 [], dependencies = []\<rparr>,
      \<lparr>node_id = 2,
        kind = IndexOutputNode 1
                 (FromScan [(''c1'', OTHER_TYPE 0), (''c2'', OTHER_TYPE 0)] 0 False),
        dependencies = [1]\<rparr>,
      \<lparr>node_id = 3, kind = IndexScanNode 10 [], dependencies = []\<rparr>,
      \<lparr>node_id = 4,
        kind = IndexFilterNode 3 ''c1 > 1'' 8 0 False False
                 [(''c1'', OTHER_TYPE 0), (''c2'', OTHER_TYPE 0)],
        dependencies = [3]\<rparr>,
      \<lparr>node_id = 5, kind = IndexOutputNode 4 (FromFilter (Some True)), dependencies = [4]\<rparr>,
      \<lparr>node_id = 0, kind = AggregateNode, dependencies = [2, 5]\<rparr>]"

definition sampleEdgePlan :: "(unit, nat) PlanNode list" where
  "sampleEdgePlan =
     [\<lparr>node_id = 1, kind = IndexScanNode 20 [], dependencies = []\<rparr>,
      \<lparr>node_id = 2, kind = IndexEdgeNode 1 () ''e'', dependencies = [1]\<rparr>,
      \<lparr>node_id = 3, kind = IndexOutputNode 2 FromEdge, dependencies = [2]\<rparr>,
      \<lparr>node_id = 0, kind = AggregateNode, dependencies = [3]\<rparr>]"

text \<open>
  A meta replica's environment: the leader is \<open>m1\<close>; the cluster id 42 is in the store
  from the read numbered \<open>presentFrom\<close> on; the hash of a string is its length, and the
  salt is \<open>id:\<close>; \<open>persistInKV\<close> succeeds or not as \<open>persistOk\<close> says.
\<close>

definition sampleMetaEnv :: "nat \<Rightarrow> bool \<Rightarrow> MetaEnv" where
  "sampleMetaEnv presentFrom persistOk =
     \<lparr>storeInit = True,
      leaderAt = (\<lambda>n. Inr \<lparr>host = ''m1'', port = 45500\<rparr>),
      clusterIdAt = (\<lambda>n. if n < presentFrom then 0 else 42),
      hashOf = (\<lambda>s. of_nat (length s)),
      idSalt = ''id:'',
      persistInKV = (\<lambda>k v. persistOk),
      meta_server_addrs = ''m2:45500,m1:45500,m3:45500'',
      upgrade_meta_data = False\<rparr>"

definition newMetaState :: MetaState where
  "newMetaState =
     \<lparr>gClusterId = 0, leaderCalls = 0, idReads = 0, slept = 0, persistCalls = [], upgraded = False\<rparr>"

section \<open>The translation table of result codes\<close>

text \<open>
  Claim C6. For every kvstore result code the translation is the fixed table:
  Succeeded, LeaderChanged, SpaceNotFound, PartNotFound, ConsensusError and
  PartialResult keep their meaning, CheckpointError becomes FailedToCheckpoint,
  WriteBlockError becomes CheckpointBlocked, and every code outside these eight
  becomes Unknown.
\<close>

theorem toStorageErr_table:
  "toStorageErr K_SUCCEEDED = SUCCEEDED
   \<and> toStorageErr ERR_LEADER_CHANGED = E_LEADER_CHANGED
   \<and> toStorageErr ERR_SPACE_NOT_FOUND = E_SPACE_NOT_FOUND
   \<and> toStorageErr ERR_PART_NOT_FOUND = E_PART_NOT_FOUND
   \<and> toStorageErr ERR_CONSENSUS_ERROR = E_CONSENSUS_ERROR
   \<and> toStorageErr ERR_CHECKPOINT_ERROR = E_FAILED_TO_CHECKPOINT
   \<and> toStorageErr ERR_WRITE_BLOCK_ERROR = E_CHECKPOINT_BLOCKED
   \<and> toStorageErr ERR_PARTIAL_RESULT = E_PARTIAL_RESULT
   \<and> (c \<notin> {K_SUCCEEDED, ERR_LEADER_CHANGED, ERR_SPACE_NOT_FOUND, ERR_PART_NOT_FOUND,
             ERR_CONSENSUS_ERROR, ERR_CHECKPOINT_ERROR, ERR_WRITE_BLOCK_ERROR,
             ERR_PARTIAL_RESULT}
        \<longrightarrow> toStorageErr c = E_UNKNOWN)"
  by (cases c) simp_all

theorem toStorageErr_table_witness:
  "ERR_OTHER (- 3) \<notin> {K_SUCCEEDED, ERR_LEADER_CHANGED, ERR_SPACE_NOT_FOUND,
       ERR_PART_NOT_FOUND, ERR_CONSENSUS_ERROR, ERR_CHECKPOINT_ERROR,
       ERR_WRITE_BLOCK_ERROR, ERR_PARTIAL_RESULT}
   \<and> toStorageErr (ERR_OTHER (- 3)) = E_UNKNOWN
   \<and> toStorageErr ERR_CHECKPOINT_ERROR = E_FAILED_TO_CHECKPOINT"
  using toStorageErr_table [of "ERR_OTHER (- 3)"] by simp

section \<open>Completion of a fan-out\<close>


lemma events_pushResultCode [simp]: "events (pushResultCode c part p) = events p"
  and callingNum_pushResultCode [simp]: "callingNum (pushResultCode c part p) = callingNum p"
  by (simp_all add: pushResultCode_def)

lemma events_pushResultCodeLeader [simp]:
  "events (pushResultCodeLeader c part a p) = events p"
  and callingNum_pushResultCodeLeader [simp]:
  "callingNum (pushResultCodeLeader c part a p) = callingNum p"
  by (simp_all add: pushResultCodeLeader_def)

lemma events_handleErrorCode [simp]:
  "events (handleErrorCode pl c s part p) = events p"
  and callingNum_handleErrorCode [simp]:
  "callingNum (handleErrorCode pl c s part p) = callingNum p"
  by (simp_all add: handleErrorCode_def handleLeaderChanged_def split: sum.splits)

lemma codes_emit [simp]: "codes (emit e p) = codes p"
  and callingNum_emit [simp]: "callingNum (emit e p) = callingNum p"
  and events_emit [simp]: "events (emit e p) = events p @ [e]"
  by (simp_all add: emit_def)

lemma pushResultCode_emit: "pushResultCode c part (emit e p) = emit e (pushResultCode c part p)"
  by (simp add: emit_def pushResultCode_def)

lemma handleErrorCode_emit:
  "handleErrorCode pl c s part (emit e p) = emit e (handleErrorCode pl c s part p)"
  by (simp add: emit_def handleErrorCode_def handleLeaderChanged_def pushResultCode_def
        pushResultCodeLeader_def split: sum.splits)

lemma callback_events:
  "events (callback pl cb p) =
     events p @ [Lock, Record, Decrement, Unlock] @ (if callingNum p = 1 then [OnFinished] else [])"
  by (cases cb) (simp_all add: handleAsync_def handleAsyncCode_def Let_def onFinished_def)

lemma callback_callingNum: "callingNum (callback pl cb p) = callingNum p - 1"
  by (cases cb) (simp_all add: handleAsync_def handleAsyncCode_def Let_def onFinished_def)

lemma codes_handleAsync:
  "codes (handleAsync pl s part c p) = codes (handleErrorCode pl c s part p)"
  by (simp add: handleAsync_def Let_def onFinished_def handleErrorCode_emit)

lemma codes_handleAsyncCode:
  "codes (handleAsyncCode s part c p) = codes (pushResultCode c part p)"
  by (simp add: handleAsyncCode_def Let_def onFinished_def pushResultCode_emit)

lemma callback_code_done:
  "codes (callback pl (CodeDone s part ec) q) =
     codes q @ (if ec = SUCCEEDED then [] else [\<lparr>code = ec, part_id = part, leader = None\<rparr>])"
  by (simp add: codes_handleAsyncCode pushResultCode_def)

lemma callback_kv_succeeded: "codes (callback pl (KvDone s part K_SUCCEEDED) q) = codes q"
  by (simp add: codes_handleAsync handleErrorCode_def)

lemma callback_kv_failed:
  "kc \<noteq> K_SUCCEEDED \<Longrightarrow> kc \<noteq> ERR_LEADER_CHANGED \<Longrightarrow>
   codes (callback pl (KvDone s part kc) q) =
     codes q @ (if to_ErrorCode kc = SUCCEEDED then []
                else [\<lparr>code = to_ErrorCode kc, part_id = part, leader = None\<rparr>])"
  by (simp add: codes_handleAsync handleErrorCode_def pushResultCode_def)

lemma callback_kv_leader:
  "pl s part = Inr addr \<Longrightarrow>
   codes (callback pl (KvDone s part ERR_LEADER_CHANGED) q) =
     codes q @ [\<lparr>code = E_LEADER_CHANGED, part_id = part, leader = Some addr\<rparr>]"
  by (simp add: codes_handleAsync handleErrorCode_def handleLeaderChanged_def
        pushResultCodeLeader_def)

lemma callback_kv_no_leader:
  "pl s part = Inl err \<Longrightarrow>
   codes (callback pl (KvDone s part ERR_LEADER_CHANGED) q) =
     codes q @ (if to_ErrorCode err = SUCCEEDED then []
                else [\<lparr>code = to_ErrorCode err, part_id = part, leader = None\<rparr>])"
  by (simp add: codes_handleAsync handleErrorCode_def handleLeaderChanged_def pushResultCode_def)

lemma finishedCount_callback:
  "finishedCount (callback pl cb p) = finishedCount p + (if callingNum p = 1 then 1 else 0)"
  by (simp add: finishedCount_def callback_events)

lemma runCallbacks_callingNum:
  "callingNum (runCallbacks pl cbs p) = callingNum p - int (length cbs)"
  unfolding runCallbacks_def
  by (induction cbs arbitrary: p) (simp_all add: callback_callingNum)

lemma runCallbacks_not_finished:
  "int (length cbs) < callingNum p \<Longrightarrow> finishedCount (runCallbacks pl cbs p) = finishedCount p"
  unfolding runCallbacks_def
  by (induction cbs arbitrary: p) (simp_all add: callback_callingNum finishedCount_callback)

lemma runCallbacks_snoc:
  "runCallbacks pl (cbs @ [cb]) p = callback pl cb (runCallbacks pl cbs p)"
  by (simp add: runCallbacks_def)

text \<open>
  Claim C4. A request fans out over \<open>n \<ge> 1\<close> partitions, \<open>callingNum\<close> starts at
  \<open>n\<close>, and the \<open>n\<close> completion callbacks run in any serial order \<open>cbs\<close>. Every
  callback takes the lock, records its code, decrements \<open>callingNum\<close> and releases the
  lock, in this order. \<open>onFinished\<close> is called exactly once over the whole run, by no
  callback before the last one, and by the last one (which finds the counter at 1 and
  leaves it at 0) after it has released the lock. What a callback records: for a
  processor's own code, that code against the partition unless it is \<open>SUCCEEDED\<close>; for
  a KV code, nothing for \<open>SUCCEEDED\<close>, for \<open>ERR_LEADER_CHANGED\<close> the result
  \<open>E_LEADER_CHANGED\<close> with the leader the store names (or the translated error of the
  store's refusal), and for any other code its translation, against the partition.
\<close>

theorem handleAsync_onFinished_once:
  assumes "cbs \<noteq> []" and "callingNum p = int (length cbs)"
  shows "finishedCount (runCallbacks pl cbs p) = finishedCount p + 1
    \<and> (\<forall>k < length cbs. finishedCount (runCallbacks pl (take k cbs) p) = finishedCount p)
    \<and> events (runCallbacks pl cbs p) =
        events (runCallbacks pl (butlast cbs) p) @ [Lock, Record, Decrement, Unlock, OnFinished]
    \<and> callingNum (runCallbacks pl (butlast cbs) p) = 1
    \<and> callingNum (runCallbacks pl cbs p) = 0
    \<and> events (callback pl cb q) =
        events q @ [Lock, Record, Decrement, Unlock] @ (if callingNum q = 1 then [OnFinished] else [])
    \<and> callingNum (callback pl cb q) = callingNum q - 1
    \<and> codes (callback pl (CodeDone s part ec) q) =
        codes q @ (if ec = SUCCEEDED then [] else [\<lparr>code = ec, part_id = part, leader = None\<rparr>])
    \<and> codes (callback pl (KvDone s part K_SUCCEEDED) q) = codes q
    \<and> (kc \<noteq> K_SUCCEEDED \<and> kc \<noteq> ERR_LEADER_CHANGED \<longrightarrow>
          codes (callback pl (KvDone s part kc) q) =
            codes q @ (if to_ErrorCode kc = SUCCEEDED then []
                       else [\<lparr>code = to_ErrorCode kc, part_id = part, leader = None\<rparr>]))
    \<and> (pl s part = Inr addr \<longrightarrow>
          codes (callback pl (KvDone s part ERR_LEADER_CHANGED) q) =
            codes q @ [\<lparr>code = E_LEADER_CHANGED, part_id = part, leader = Some addr\<rparr>])
    \<and> (pl s part = Inl err \<longrightarrow>
          codes (callback pl (KvDone s part ERR_LEADER_CHANGED) q) =
            codes q @ (if to_ErrorCode err = SUCCEEDED then []
                       else [\<lparr>code = to_ErrorCode err, part_id = part, leader = None\<rparr>]))"
proof -
  from assms(1) have split: "cbs = butlast cbs @ [last cbs]" by simp
  have len: "int (length (butlast cbs)) = callingNum p - 1"
    using assms by (cases cbs rule: rev_cases) simp_all
  have one: "callingNum (runCallbacks pl (butlast cbs) p) = 1"
    using len by (simp add: runCallbacks_callingNum)
  have before: "finishedCount (runCallbacks pl (butlast cbs) p) = finishedCount p"
    using len by (intro runCallbacks_not_finished) simp
  have run: "runCallbacks pl cbs p = callback pl (last cbs) (runCallbacks pl (butlast cbs) p)"
    using split runCallbacks_snoc by metis
  have a: "finishedCount (runCallbacks pl cbs p) = finishedCount p + 1"
    by (simp add: run finishedCount_callback one before)
  have b: "\<forall>k < length cbs. finishedCount (runCallbacks pl (take k cbs) p) = finishedCount p"
    using assms(2) by (auto intro!: runCallbacks_not_finished)
  have c: "events (runCallbacks pl cbs p) =
        events (runCallbacks pl (butlast cbs) p) @ [Lock, Record, Decrement, Unlock, OnFinished]"
    by (simp add: run callback_events one)
  have d: "callingNum (runCallbacks pl cbs p) = 0"
    using assms(2) by (simp add: runCallbacks_callingNum)
  have e: "events (callback pl cb q) =
        events q @ [Lock, Record, Decrement, Unlock] @ (if callingNum q = 1 then [OnFinished] else [])"
    by (rule callback_events)
  have f: "callingNum (callback pl cb q) = callingNum q - 1"
    by (rule callback_callingNum)
  note g = callback_code_done [of pl s part ec q] callback_kv_succeeded [of pl s part q]
  have h: "kc \<noteq> K_SUCCEEDED \<and> kc \<noteq> ERR_LEADER_CHANGED \<longrightarrow>
          codes (callback pl (KvDone s part kc) q) =
            codes q @ (if to_ErrorCode kc = SUCCEEDED then []
                       else [\<lparr>code = to_ErrorCode kc, part_id = part, leader = None\<rparr>])"
    using callback_kv_failed [of kc pl s part q] by blast
  have i: "pl s part = Inr addr \<longrightarrow>
          codes (callback pl (KvDone s part ERR_LEADER_CHANGED) q) =
            codes q @ [\<lparr>code = E_LEADER_CHANGED, part_id = part, leader = Some addr\<rparr>]"
    using callback_kv_leader [of pl s part addr q] by blast
  have j: "pl s part = Inl err \<longrightarrow>
          codes (callback pl (KvDone s part ERR_LEADER_CHANGED) q) =
            codes q @ (if to_ErrorCode err = SUCCEEDED then []
                       else [\<lparr>code = to_ErrorCode err, part_id = part, leader = None\<rparr>])"
    using callback_kv_no_leader [of pl s part err q] by blast
  from a b c one d e f g h i j show ?thesis by (intro conjI)
qed

theorem handleAsync_onFinished_once_witness:
  "[KvDone 1 1 K_SUCCEEDED, KvDone 1 7 ERR_LEADER_CHANGED, CodeDone 1 3 E_UNKNOWN] \<noteq> []
   \<and> callingNum \<lparr>codes = [], callingNum = 3, events = []\<rparr> =
       int (length [KvDone 1 1 K_SUCCEEDED, KvDone 1 7 ERR_LEADER_CHANGED, CodeDone 1 3 E_UNKNOWN])
   \<and> finishedCount (runCallbacks (\<lambda>s part. Inr \<lparr>host = ''H'', port = 9779\<rparr>)
         [KvDone 1 1 K_SUCCEEDED, KvDone 1 7 ERR_LEADER_CHANGED, CodeDone 1 3 E_UNKNOWN]
         \<lparr>codes = [], callingNum = 3, events = []\<rparr>) = 1
   \<and> finishedCount (runCallbacks (\<lambda>s part. Inr \<lparr>host = ''H'', port = 9779\<rparr>)
         [KvDone 1 1 K_SUCCEEDED, KvDone 1 7 ERR_LEADER_CHANGED]
         \<lparr>codes = [], callingNum = 3, events = []\<rparr>) = 0
   \<and> codes (callback (\<lambda>s part. Inr \<lparr>host = ''H'', port = 9779\<rparr>)
         (KvDone 1 7 ERR_LEADER_CHANGED) \<lparr>codes = [], callingNum = 2, events = []\<rparr>) =
       [\<lparr>code = E_LEADER_CHANGED, part_id = 7, leader = Some \<lparr>host = ''H'', port = 9779\<rparr>\<rparr>]
   \<and> codes (callback (\<lambda>s part. Inr \<lparr>host = ''H'', port = 9779\<rparr>)
         (KvDone 1 4 ERR_CONSENSUS_ERROR) \<lparr>codes = [], callingNum = 2, events = []\<rparr>) =
       [\<lparr>code = E_CONSENSUS_ERROR, part_id = 4, leader = None\<rparr>]
   \<and> codes (runCallbacks (\<lambda>s part. Inr \<lparr>host = ''H'', port = 9779\<rparr>)
         [KvDone 1 1 K_SUCCEEDED, KvDone 1 7 ERR_LEADER_CHANGED, CodeDone 1 3 E_UNKNOWN]
         \<lparr>codes = [], callingNum = 3, events = []\<rparr>) =
       [\<lparr>code = E_LEADER_CHANGED, part_id = 7, leader = Some \<lparr>host = ''H'', port = 9779\<rparr>\<rparr>,
        \<lparr>code = E_UNKNOWN, part_id = 3, leader = None\<rparr>]"
proof -
  let ?cbs = "[KvDone 1 1 K_SUCCEEDED, KvDone 1 7 ERR_LEADER_CHANGED, CodeDone 1 3 E_UNKNOWN]"
  let ?p = "\<lparr>codes = [], callingNum = 3, events = []\<rparr>"
  let ?q = "\<lparr>codes = [], callingNum = 2, events = []\<rparr>"
  let ?H = "\<lparr>host = ''H'', port = 9779\<rparr>"
  let ?pl = "\<lambda>(s::int) (part::int). (Inr \<lparr>host = ''H'', port = 9779\<rparr> :: ResultCode + HostAddr)"
  have h1: "?cbs \<noteq> []" by simp
  have h2: "callingNum ?p = int (length ?cbs)" by simp
  note t = handleAsync_onFinished_once [OF h1 h2, where pl = ?pl and q = ?q and s = 1]
  from t have once: "finishedCount (runCallbacks ?pl ?cbs ?p) = finishedCount ?p + 1" by blast
  from t have "\<forall>k < length ?cbs. finishedCount (runCallbacks ?pl (take k ?cbs) ?p) = finishedCount ?p"
    by blast
  then have "2 < length ?cbs \<longrightarrow>
      finishedCount (runCallbacks ?pl (take 2 ?cbs) ?p) = finishedCount ?p" by (rule spec)
  then have before: "finishedCount (runCallbacks ?pl [KvDone 1 1 K_SUCCEEDED, KvDone 1 7 ERR_LEADER_CHANGED] ?p) = finishedCount ?p"
    by simp
  have zero: "finishedCount ?p = 0" by (simp add: finishedCount_def)
  from t [where part = 7 and addr = ?H]
  have "?pl 1 7 = Inr ?H \<longrightarrow> codes (callback ?pl (KvDone 1 7 ERR_LEADER_CHANGED) ?q) =
      codes ?q @ [\<lparr>code = E_LEADER_CHANGED, part_id = 7, leader = Some ?H\<rparr>]" by blast
  then have ldr: "codes (callback ?pl (KvDone 1 7 ERR_LEADER_CHANGED) ?q) =
      [\<lparr>code = E_LEADER_CHANGED, part_id = 7, leader = Some ?H\<rparr>]" by simp
  from t [where part = 4 and kc = ERR_CONSENSUS_ERROR]
  have "ERR_CONSENSUS_ERROR \<noteq> K_SUCCEEDED \<and> ERR_CONSENSUS_ERROR \<noteq> ERR_LEADER_CHANGED \<longrightarrow>
      codes (callback ?pl (KvDone 1 4 ERR_CONSENSUS_ERROR) ?q) =
        codes ?q @ (if to_ErrorCode ERR_CONSENSUS_ERROR = SUCCEEDED then []
           else [\<lparr>code = to_ErrorCode ERR_CONSENSUS_ERROR, part_id = 4, leader = None\<rparr>])"
    by blast
  then have kv: "codes (callback ?pl (KvDone 1 4 ERR_CONSENSUS_ERROR) ?q) =
      [\<lparr>code = E_CONSENSUS_ERROR, part_id = 4, leader = None\<rparr>]"
    by (simp add: to_ErrorCode_def)
  have run: "codes (runCallbacks ?pl ?cbs ?p) =
      [\<lparr>code = E_LEADER_CHANGED, part_id = 7, leader = Some ?H\<rparr>,
       \<lparr>code = E_UNKNOWN, part_id = 3, leader = None\<rparr>]"
    by (simp add: runCallbacks_def codes_handleAsync codes_handleAsyncCode handleAsync_def
          handleAsyncCode_def Let_def onFinished_def emit_def handleErrorCode_def
          handleLeaderChanged_def pushResultCode_def pushResultCodeLeader_def)
  show ?thesis using h1 h2 once before zero ldr kv run by simp
qed

section \<open>Leader changes\<close>

text \<open>
  Claim C8. When a partition's KV result is \<open>ERR_LEADER_CHANGED\<close>, the processor asks the
  store for the partition's leader. If the store answers with an address, the recorded
  result is \<open>E_LEADER_CHANGED\<close> with that address as leader. If the store answers with
  an error whose translation is a failure code, the recorded result is that translated
  code, with no leader. Nothing else of the processor changes.
\<close>

theorem handleErrorCode_leader:
  "(partLeader spaceId part = Inr addr \<longrightarrow>
      handleErrorCode partLeader ERR_LEADER_CHANGED spaceId part p =
        p\<lparr>codes := codes p @ [\<lparr>code = E_LEADER_CHANGED, part_id = part, leader = Some addr\<rparr>]\<rparr>)
   \<and> (partLeader spaceId part = Inl err \<and> to_ErrorCode err \<noteq> SUCCEEDED \<longrightarrow>
      handleErrorCode partLeader ERR_LEADER_CHANGED spaceId part p =
        p\<lparr>codes := codes p @ [\<lparr>code = to_ErrorCode err, part_id = part, leader = None\<rparr>]\<rparr>)"
  by (simp add: handleErrorCode_def handleLeaderChanged_def pushResultCode_def
        pushResultCodeLeader_def)

theorem handleErrorCode_leader_witness:
  "handleErrorCode (\<lambda>s part. Inr \<lparr>host = ''H'', port = 9779\<rparr>) ERR_LEADER_CHANGED 1 7
       \<lparr>codes = [], callingNum = 1, events = []\<rparr> =
     \<lparr>codes = [\<lparr>code = E_LEADER_CHANGED, part_id = 7,
                 leader = Some \<lparr>host = ''H'', port = 9779\<rparr>\<rparr>],
      callingNum = 1, events = []\<rparr>
   \<and> to_ErrorCode ERR_PART_NOT_FOUND \<noteq> SUCCEEDED
   \<and> handleErrorCode (\<lambda>s part. Inl ERR_PART_NOT_FOUND) ERR_LEADER_CHANGED 1 7
       \<lparr>codes = [], callingNum = 1, events = []\<rparr> =
     \<lparr>codes = [\<lparr>code = E_PART_NOT_FOUND, part_id = 7, leader = None\<rparr>],
      callingNum = 1, events = []\<rparr>"
  using handleErrorCode_leader [of "\<lambda>s part. Inr \<lparr>host = ''H'', port = 9779\<rparr>" 1 7
          "\<lparr>host = ''H'', port = 9779\<rparr>" "\<lparr>codes = [], callingNum = 1, events = []\<rparr>"]
        handleErrorCode_leader [of "\<lambda>s part. Inl ERR_PART_NOT_FOUND" 1 7 _
          "\<lparr>codes = [], callingNum = 1, events = []\<rparr>" ERR_PART_NOT_FOUND]
  by (simp add: to_ErrorCode_def)

text \<open>
  \<open>pushResultCode\<close> drops \<open>SUCCEEDED\<close>: were the store's error to translate to it,
  nothing would be recorded.
\<close>

lemma handleLeaderChanged_success_code:
  "partLeader spaceId part = Inl err \<Longrightarrow> to_ErrorCode err = SUCCEEDED \<Longrightarrow>
     handleErrorCode partLeader ERR_LEADER_CHANGED spaceId part p = p"
  by (simp add: handleErrorCode_def handleLeaderChanged_def pushResultCode_def)

section \<open>Row encoding: the field writes of a call\<close>

lemma setByName_firstFault:
  "length propNames \<le> length vals \<Longrightarrow>
   setByName rw propNames vals i w =
     firstFault rw w (map (\<lambda>(n, v). ByName n v) (zip (drop i propNames) (drop i vals)))"
proof (induction rw propNames vals i w rule: setByName.induct)
  case (1 rw propNames vals i w)
  show ?case
  proof (cases "i < length propNames")
    case False
    then show ?thesis by (subst setByName.simps) simp
  next
    case True
    with "1.prems" have iv: "i < length vals" by simp
    obtain wRet w' where sv: "setValueByName rw w (propNames ! i) (vals ! i) = (wRet, w')"
      by (cases "setValueByName rw w (propNames ! i) (vals ! i)")
    have dn: "drop i propNames = propNames ! i # drop (Suc i) propNames"
      using True by (simp add: Cons_nth_drop_Suc)
    have dv: "drop i vals = vals ! i # drop (Suc i) vals"
      using iv by (simp add: Cons_nth_drop_Suc)
    show ?thesis
    proof (cases "wRet = W_SUCCEEDED")
      case False
      then show ?thesis
        using True iv sv by (subst setByName.simps) (simp add: dn dv)
    next
      case ok: True
      have "setByName rw propNames vals (Suc i) w' =
              firstFault rw w'
                (map (\<lambda>(n, v). ByName n v) (zip (drop (Suc i) propNames) (drop (Suc i) vals)))"
        using "1.IH" [OF True iv sv [symmetric]] ok "1.prems" by simp
      then show ?thesis
        using True iv sv ok by (subst setByName.simps) (simp add: dn dv)
    qed
  qed
qed

lemma setByIndex_firstFault:
  "setByIndex rw vals i w =
     firstFault rw w (map (\<lambda>(k, v). ByPosition k v) (zip [i..<length vals] (drop i vals)))"
proof (induction rw vals i w rule: setByIndex.induct)
  case (1 rw vals i w)
  show ?case
  proof (cases "i < length vals")
    case False
    then show ?thesis by (subst setByIndex.simps) simp
  next
    case True
    obtain wRet w' where sv: "setValueByIndex rw w i (vals ! i) = (wRet, w')"
      by (cases "setValueByIndex rw w i (vals ! i)")
    have dv: "drop i vals = vals ! i # drop (Suc i) vals"
      using True by (simp add: Cons_nth_drop_Suc)
    have up: "[i..<length vals] = i # [Suc i..<length vals]"
      using True by (simp add: upt_conv_Cons)
    show ?thesis
    proof (cases "wRet = W_SUCCEEDED")
      case False
      then show ?thesis
        using True sv by (subst setByIndex.simps) (simp add: dv up)
    next
      case ok: True
      have "setByIndex rw vals (Suc i) w' =
              firstFault rw w'
                (map (\<lambda>(k, v). ByPosition k v) (zip [Suc i..<length vals] (drop (Suc i) vals)))"
        using "1.IH" [OF True sv [symmetric]] ok by simp
      then show ?thesis
        using True sv ok by (subst setByIndex.simps) (simp add: dv up)
    qed
  qed
qed

text \<open>
  Claim C10. A call of \<open>encodeRowVal\<close> whose \<open>props\<close> are at least as many as its
  \<open>propNames\<close> performs the field writes of \<open>fieldWrites\<close> in order: by name when
  \<open>propNames\<close> is not empty, by position otherwise. At the first write whose result is
  not \<open>SUCCEEDED\<close> it returns an error status with that result in the out-parameter;
  when all succeed it calls \<open>finish\<close>, returns an error status with \<open>finish\<close>'s result
  when that is not \<open>SUCCEEDED\<close>, and the encoded bytes otherwise.
\<close>

theorem encodeRowVal_writes:
  assumes "length propNames \<le> length vals"
  shows "encodeRowVal rw schema propNames vals =
           encodedOrFault rw (firstFault rw (newWriter rw schema) (fieldWrites propNames vals))"
proof (cases "propNames = []")
  case True
  then show ?thesis
    by (simp add: encodeRowVal_def encodedOrFault_def fieldWrites_def setByIndex_firstFault
          split: SetResult.splits prod.splits)
next
  case False
  then show ?thesis
    using assms
    by (simp add: encodeRowVal_def encodedOrFault_def fieldWrites_def setByName_firstFault
          split: SetResult.splits prod.splits)
qed

theorem encodeRowVal_writes_witness:
  "length [''a'', ''b''] \<le> length [1, - 1 :: int]
   \<and> encodeRowVal sampleWriter () [''a'', ''b''] [1, - 1] =
       Some (OUT_OF_RANGE, Inl (Error ''Add field faild''))
   \<and> encodeRowVal sampleWriter () [''a'', ''b''] [1, 2, 3] = Some (W_SUCCEEDED, Inr ''a=1;b=2;'')
   \<and> encodeRowVal sampleWriter () [] [7, 8] = Some (W_SUCCEEDED, Inr ''0=7;1=8;'')"
  using encodeRowVal_writes [of "[''a'', ''b'']" "[1, - 1 :: int]" sampleWriter "()"]
        encodeRowVal_writes [of "[''a'', ''b'']" "[1, 2, 3 :: int]" sampleWriter "()"]
        encodeRowVal_writes [of "[]" "[7, 8 :: int]" sampleWriter "()"]
  by (simp add: encodedOrFault_def fieldWrites_def sampleWriter_def showDigit_def upt_rec)

section \<open>Atomic edge writer: the split of a request\<close>

text \<open>Away from the least \<open>int32_t\<close>, \<open>std::abs\<close> is the absolute value.\<close>

lemma std_abs_in_range:
  assumes "sint t \<noteq> - 2147483648"
  shows "sint (std_abs t) = \<bar>sint t\<bar>"
proof (cases "sint t < 0")
  case False
  then show ?thesis by (simp add: std_abs_def)
next
  case True
  have lo: "- 2147483648 \<le> sint t" using sint_ge [of t] by simp
  have "sint (- t) = signed_take_bit 31 (- sint t)"
    by (simp add: sint_word_ariths)
  also have "\<dots> = - sint t"
    using lo assms True by (intro signed_take_bit_int_eq_self) simp_all
  finally show ?thesis using True by (simp add: std_abs_def)
qed

text \<open>The visiting orders of a hash map are the orders of its entries.\<close>

lemma mset_without_nth:
  "i < length m \<Longrightarrow> add_mset (m ! i) (mset (take i m @ drop (Suc i) m)) = mset m"
proof -
  assume "i < length m"
  then have "m = take i m @ m ! i # drop (Suc i) m" by (rule id_take_nth_drop)
  then have "mset m = mset (take i m @ m ! i # drop (Suc i) m)" by simp
  then show ?thesis by simp
qed

lemma mset_iterate [simp]: "mset (iterate picks m) = mset m"
proof (induction picks arbitrary: m)
  case Nil
  then show ?case by simp
next
  case (Cons k picks)
  show ?case
  proof (cases "m = []")
    case True
    then show ?thesis by simp
  next
    case False
    then have "k mod length m < length m" by simp
    from mset_without_nth [OF this] False show ?thesis
      by (simp add: Let_def Cons.IH)
  qed
qed

lemma set_iterate [simp]: "set (iterate picks m) = set m"
  using mset_iterate [of picks m] by (rule mset_eq_setD)

lemma iterate_any_order: "mset ys = mset m \<Longrightarrow> \<exists>picks. iterate picks m = ys"
proof (induction ys arbitrary: m)
  case Nil
  then have "iterate [] m = []" by simp
  then show ?case by (rule exI)
next
  case (Cons y ys)
  then have "y \<in> set m" using mset_eq_setD by fastforce
  then obtain i where i: "i < length m" and y: "m ! i = y" by (auto simp: in_set_conv_nth)
  from mset_without_nth [OF i] Cons.prems y
  have "add_mset y (mset ys) = add_mset y (mset (take i m @ drop (Suc i) m))" by simp
  then have "mset ys = mset (take i m @ drop (Suc i) m)" by simp
  from Cons.IH [OF this] obtain picks where
    "iterate picks (take i m @ drop (Suc i) m) = ys" by blast
  with i y have "iterate (i # picks) m = y # ys" by (auto simp: Let_def)
  then show ?case by (rule exI)
qed

lemma edgeOk_edgeChain:
  "edgeOk env s pn e \<Longrightarrow> \<exists>x. edgeChain env v s pn lp e = Some x"
  by (auto simp: edgeOk_def edgeChain_def split: option.splits)


lemma splitEdges_prefix:
  "\<forall>e \<in> set pre. edgeOk env s pn e \<Longrightarrow>
   splitEdges env v s pn lp (pre @ rest) (ebc, fp) =
     splitEdges env v s pn lp rest
       (fold addToChain (List.map_filter (edgeChain env v s pn lp) pre) ebc, fp)"
proof (induction pre arbitrary: ebc)
  case Nil
  then show ?case by simp
next
  case (Cons e es)
  from Cons.prems have ok: "edgeOk env s pn e" and rest: "\<forall>e \<in> set es. edgeOk env s pn e"
    by simp_all
  from ok obtain rp val where rp: "partId env s (dst (key e)) = Some rp"
    and enc: "encodeSingleEdgeProps env s pn e = Some (SUCCEEDED, val)"
    by (auto simp: edgeOk_def split: option.splits)
  have ch: "edgeChain env v s pn lp e = Some ((lp, rp), (edgeKey env v lp (key e), val))"
    by (simp add: edgeChain_def rp enc)
  show ?case
    using Cons.IH [OF rest] by (simp add: rp enc ch)
qed

lemma splitEdges_failure:
  "edgeFailure env s pn e = Some c \<Longrightarrow>
   splitEdges env v s pn lp (e # post) (ebc, fp) = Some (ebc, AList.update lp c fp)"
  by (auto simp: edgeFailure_def split: option.splits if_splits)

lemma edgeFailure_not_SUCCEEDED: "edgeFailure env s pn e = Some c \<Longrightarrow> c \<noteq> SUCCEEDED"
  by (auto simp: edgeFailure_def split: option.splits if_splits)

text \<open>No out-of-bounds read when the edge has a property for every name.\<close>

lemma firstFault_in_bounds: "firstFault rw w xs \<noteq> OutOfBounds"
  by (induction xs arbitrary: w) (auto split: prod.splits)

lemma encodeRowVal_defined:
  "length pn \<le> length vals \<Longrightarrow> encodeRowVal rw schema pn vals \<noteq> None"
  using firstFault_in_bounds [of rw "newWriter rw schema"]
  by (simp add: encodeRowVal_def setByName_firstFault setByIndex_firstFault
        split: SetResult.splits prod.splits)




lemma encodeSingleEdgeProps_defined:
  "length pn \<le> length (props e) \<Longrightarrow> encodeSingleEdgeProps env s pn e \<noteq> None"
proof (cases "getEdgeSchema env s (sint (std_abs (edge_type (key e))))")
  case None
  then show ?thesis by (simp add: encodeSingleEdgeProps_def)
next
  case (Some schema)
  assume "length pn \<le> length (props e)"
  then obtain wRet r where "encodeRowVal (rowWriter env) schema pn (props e) = Some (wRet, r)"
    using encodeRowVal_defined [of pn "props e" "rowWriter env" schema] by auto
  then show ?thesis using Some by (cases r) (simp_all add: encodeSingleEdgeProps_def)
qed

lemma splitEdges_defined:
  "\<forall>e \<in> set es. length pn \<le> length (props e) \<Longrightarrow>
   \<exists>ebc' fp'. splitEdges env v s pn lp es (ebc, fp) = Some (ebc', fp')
      \<and> (fp' = fp \<or> (\<exists>c. c \<noteq> SUCCEEDED \<and> fp' = AList.update lp c fp))"
proof (induction es arbitrary: ebc)
  case Nil
  then show ?case by simp
next
  case (Cons e es)
  then obtain c val where d: "encodeSingleEdgeProps env s pn e = Some (c, val)"
    using encodeSingleEdgeProps_defined [of pn e env s] by auto
  from Cons.prems have rest: "\<forall>e \<in> set es. length pn \<le> length (props e)" by simp
  show ?case
  proof (cases "partId env s (dst (key e))")
    case None
    then show ?thesis by (auto intro!: exI [of _ E_SPACE_NOT_FOUND])
  next
    case (Some rp)
    show ?thesis
    proof (cases "c = SUCCEEDED")
      case True
      then show ?thesis using Some d Cons.IH [OF rest] by simp
    next
      case False
      then show ?thesis using Some d by (auto intro!: exI [of _ c])
    qed
  qed
qed


lemma splitParts_append:
  "splitParts env v s pn (xs @ ys) acc =
     (case splitParts env v s pn xs acc of
        None \<Rightarrow> None
      | Some acc' \<Rightarrow> splitParts env v s pn ys acc')"
  by (induction xs arbitrary: acc) (auto split: option.splits)

lemma splitParts_defined:
  "\<forall>part \<in> set ps. \<forall>e \<in> set (snd part). length pn \<le> length (props e) \<Longrightarrow>
   \<exists>ebc' fp'. splitParts env v s pn ps (ebc, fp) = Some (ebc', fp')
      \<and> (\<forall>k. k \<notin> fst ` set ps \<longrightarrow> map_of fp' k = map_of fp k)
      \<and> (\<forall>k c. map_of fp k = Some c \<longrightarrow> (\<exists>c'. map_of fp' k = Some c'))"
proof (induction ps arbitrary: ebc fp)
  case Nil
  then show ?case by simp
next
  case (Cons part ps)
  from Cons.prems have here: "\<forall>e \<in> set (snd part). length pn \<le> length (props e)"
    and rest: "\<forall>part \<in> set ps. \<forall>e \<in> set (snd part). length pn \<le> length (props e)"
    by simp_all
  from splitEdges_defined [OF here, of env v s "fst part" ebc fp]
  obtain ebc1 fp1 where one: "splitEdges env v s pn (fst part) (snd part) (ebc, fp) = Some (ebc1, fp1)"
    and fp1: "fp1 = fp \<or> (\<exists>c. c \<noteq> SUCCEEDED \<and> fp1 = AList.update (fst part) c fp)"
    by blast
  from Cons.IH [OF rest, of ebc1 fp1]
  obtain ebc2 fp2 where two: "splitParts env v s pn ps (ebc1, fp1) = Some (ebc2, fp2)"
    and keep: "\<forall>k. k \<notin> fst ` set ps \<longrightarrow> map_of fp2 k = map_of fp1 k"
    and stay: "\<forall>k c. map_of fp1 k = Some c \<longrightarrow> (\<exists>c'. map_of fp2 k = Some c')"
    by blast
  have a: "splitParts env v s pn (part # ps) (ebc, fp) = Some (ebc2, fp2)"
    by (simp add: one two)
  have b: "\<forall>k. k \<notin> fst ` set (part # ps) \<longrightarrow> map_of fp2 k = map_of fp k"
    using keep fp1 by (auto simp: update_conv')
  have c: "\<forall>k c. map_of fp k = Some c \<longrightarrow> (\<exists>c'. map_of fp2 k = Some c')"
    using stay fp1 by (auto simp: update_conv')
  show ?case using a b c by blast
qed

text \<open>The first edge of a partition that fails decides the partition's code.\<close>

lemma splitParts_first_failure:
  assumes wf: "\<forall>part \<in> set ps. \<forall>e \<in> set (snd part). length pn \<le> length (props e)"
    and dist: "distinct (map fst ps)"
    and part: "(lp, pre @ e # post) \<in> set ps"
    and pre: "\<forall>x \<in> set pre. edgeOk env s pn x"
    and fail: "edgeFailure env s pn e = Some c"
  shows "\<exists>ebc' fp'. splitParts env v s pn ps (ebc, fp) = Some (ebc', fp') \<and> map_of fp' lp = Some c"
proof -
  from part obtain xs ys where ps: "ps = xs @ (lp, pre @ e # post) # ys"
    by (auto dest: split_list)
  from dist ps have notin: "lp \<notin> fst ` set ys" by auto
  from wf ps have wfx: "\<forall>part \<in> set xs. \<forall>e \<in> set (snd part). length pn \<le> length (props e)"
    and wfy: "\<forall>part \<in> set ys. \<forall>e \<in> set (snd part). length pn \<le> length (props e)"
    by auto
  from splitParts_defined [OF wfx, of env v s ebc fp]
  obtain ebc1 fp1 where one: "splitParts env v s pn xs (ebc, fp) = Some (ebc1, fp1)" by blast
  have two: "splitEdges env v s pn lp (pre @ e # post) (ebc1, fp1) =
      Some (fold addToChain (List.map_filter (edgeChain env v s pn lp) pre) ebc1,
            AList.update lp c fp1)"
    using splitEdges_prefix [OF pre] splitEdges_failure [OF fail] by simp
  from splitParts_defined [OF wfy, of env v s
      "fold addToChain (List.map_filter (edgeChain env v s pn lp) pre) ebc1" "AList.update lp c fp1"]
  obtain ebc3 fp3 where three: "splitParts env v s pn ys
        (fold addToChain (List.map_filter (edgeChain env v s pn lp) pre) ebc1,
         AList.update lp c fp1) = Some (ebc3, fp3)"
    and keep: "\<forall>k. k \<notin> fst ` set ys \<longrightarrow> map_of fp3 k = map_of (AList.update lp c fp1) k"
    by blast
  have "splitParts env v s pn ps (ebc, fp) = Some (ebc3, fp3)"
    by (simp add: ps splitParts_append one two three)
  moreover have "map_of fp3 lp = Some c"
    using keep notin by (simp add: update_conv')
  ultimately show ?thesis by blast
qed

lemma fold_pushResultCode:
  "fold (\<lambda>part. pushResultCode (f part) (fst part)) xs p =
     p\<lparr>codes := codes p @
          map (\<lambda>part. \<lparr>code = f part, part_id = fst part, leader = None\<rparr>)
            (filter (\<lambda>part. f part \<noteq> SUCCEEDED) xs)\<rparr>"
  by (induction xs arbitrary: p) (simp_all add: pushResultCode_def)

lemma processByChain_first_failure:
  assumes wf: "\<forall>part \<in> set (parts req). \<forall>e \<in> set (snd part).
                 length (prop_names req) \<le> length (props e)"
    and dist: "distinct (map fst (parts req))"
    and part: "(lp, pre @ e # post) \<in> set (parts req)"
    and pre: "\<forall>x \<in> set pre. edgeOk env (space_id req) (prop_names req) x"
    and fail: "edgeFailure env (space_id req) (prop_names req) e = Some c"
  shows "\<exists>p'. processByChain env sched v req p = Some p'
           \<and> \<lparr>code = c, part_id = lp, leader = None\<rparr> \<in> set (codes p')
           \<and> events p' = events p @ [OnFinished]
           \<and> callingNum p' = callingNum p"
proof -
  from splitParts_first_failure [OF wf dist part pre fail, of v "[]" "[]"]
  obtain ebc fp where sp: "splitParts env v (space_id req) (prop_names req) (parts req) ([], []) =
      Some (ebc, fp)" and c: "map_of fp lp = Some c" by blast
  from c have mem: "(lp, c) \<in> set fp" by (rule map_of_SomeD)
  then have ne: "fp \<noteq> []" by auto
  have cs: "c \<noteq> SUCCEEDED" using fail by (rule edgeFailure_not_SUCCEEDED)
  let ?p' = "onFinished (fold (\<lambda>part. pushResultCode (snd part) (fst part))
                           (iterate (failedPicks sched) fp) p)"
  have run: "processByChain env sched v req p = Some ?p'"
    by (simp add: processByChain_def sp ne)
  have "\<lparr>code = snd (lp, c), part_id = fst (lp, c), leader = None\<rparr> \<in> set (codes ?p')"
    using mem cs by (simp add: fold_pushResultCode onFinished_def image_iff)
  moreover have "events ?p' = events p @ [OnFinished]"
    by (simp add: fold_pushResultCode onFinished_def)
  moreover have "callingNum ?p' = callingNum p"
    by (simp add: fold_pushResultCode onFinished_def)
  ultimately show ?thesis using run by simp
qed


section \<open>Atomic edge writer: abort\<close>

text \<open>
  Claim C2. Take a request whose edges all have a property for every property name and
  an edge type whose absolute value is an \<open>int32_t\<close>, and whose partitions are distinct
  map keys; and an edge \<open>e\<close> of partition \<open>localPart\<close> that the split reaches (the edges
  before it in its partition resolve and encode). If resolving the partition of \<open>e\<close>'s
  destination fails, \<open>E_SPACE_NOT_FOUND\<close> is recorded against \<open>localPart\<close>; if the
  destination resolves, the schema of the edge type's absolute value is there and
  encoding the row value returns an error status, \<open>E_DATA_TYPE_MISMATCH\<close> is recorded
  against \<open>localPart\<close>. In both cases, whatever the schedule, the processor does nothing
  but call \<open>onFinished\<close>: no chain is submitted to the transaction manager.
\<close>

theorem processByChain_abort:
  assumes "propsInBounds req"
    and "edgeTypesInRange req"
    and "distinct (map fst (parts req))"
    and "(localPart, pre @ e # post) \<in> set (parts req)"
    and "list_all (edgeOk env (space_id req) (prop_names req)) pre"
  shows "(partId env (space_id req) (dst (key e)) = None \<longrightarrow>
            (\<exists>p'. processByChain env sched vIdLen req p = Some p'
               \<and> \<lparr>code = E_SPACE_NOT_FOUND, part_id = localPart, leader = None\<rparr> \<in> set (codes p')
               \<and> events p' = events p @ [OnFinished]))
       \<and> (partId env (space_id req) (dst (key e)) = Some remotePart
            \<and> getEdgeSchema env (space_id req) \<bar>sint (edge_type (key e))\<bar> = Some schema
            \<and> encodeRowVal (rowWriter env) schema (prop_names req) (props e) = Some (wRet, Inl st)
          \<longrightarrow>
            (\<exists>p'. processByChain env sched vIdLen req p = Some p'
               \<and> \<lparr>code = E_DATA_TYPE_MISMATCH, part_id = localPart, leader = None\<rparr> \<in> set (codes p')
               \<and> events p' = events p @ [OnFinished]))"
proof -
  have wf: "\<forall>part \<in> set (parts req). \<forall>e \<in> set (snd part).
              length (prop_names req) \<le> length (props e)"
    using assms(1) by (simp add: propsInBounds_def list_all_iff)
  have pre: "\<forall>x \<in> set pre. edgeOk env (space_id req) (prop_names req) x"
    using assms(5) by (simp add: list_all_iff)
  have "sint (edge_type (key e)) \<noteq> - 2147483648"
    using assms(2,4) by (fastforce simp: edgeTypesInRange_def list_all_iff)
  then have ab: "sint (std_abs (edge_type (key e))) = \<bar>sint (edge_type (key e))\<bar>"
    by (rule std_abs_in_range)
  note ff = processByChain_first_failure [OF wf assms(3) assms(4) pre, of _ sched vIdLen p]
  have a: "edgeFailure env (space_id req) (prop_names req) e = Some E_SPACE_NOT_FOUND"
    if "partId env (space_id req) (dst (key e)) = None"
    using that by (simp add: edgeFailure_def)
  have b: "edgeFailure env (space_id req) (prop_names req) e = Some E_DATA_TYPE_MISMATCH"
    if "partId env (space_id req) (dst (key e)) = Some remotePart"
      and "getEdgeSchema env (space_id req) \<bar>sint (edge_type (key e))\<bar> = Some schema"
      and "encodeRowVal (rowWriter env) schema (prop_names req) (props e) = Some (wRet, Inl st)"
    using that by (simp add: edgeFailure_def encodeSingleEdgeProps_def ab)
  show ?thesis using ff [OF a] ff [OF b] by blast
qed

text \<open>
  The third way an edge fails: its edge type has no schema in the space, and
  \<open>encodeSingleEdgeProps\<close> answers \<open>E_SPACE_NOT_FOUND\<close> before any encoding.
\<close>

lemma processByChain_abort_no_schema:
  assumes "propsInBounds req"
    and "distinct (map fst (parts req))"
    and "(localPart, pre @ e # post) \<in> set (parts req)"
    and "list_all (edgeOk env (space_id req) (prop_names req)) pre"
    and "partId env (space_id req) (dst (key e)) = Some remotePart"
    and "getEdgeSchema env (space_id req) (sint (std_abs (edge_type (key e)))) = None"
  shows "\<exists>p'. processByChain env sched vIdLen req p = Some p'
           \<and> \<lparr>code = E_SPACE_NOT_FOUND, part_id = localPart, leader = None\<rparr> \<in> set (codes p')
           \<and> events p' = events p @ [OnFinished]"
proof -
  have wf: "\<forall>part \<in> set (parts req). \<forall>e \<in> set (snd part).
              length (prop_names req) \<le> length (props e)"
    using assms(1) by (simp add: propsInBounds_def list_all_iff)
  have pre: "\<forall>x \<in> set pre. edgeOk env (space_id req) (prop_names req) x"
    using assms(4) by (simp add: list_all_iff)
  have "edgeFailure env (space_id req) (prop_names req) e = Some E_SPACE_NOT_FOUND"
    using assms(5,6) by (simp add: edgeFailure_def encodeSingleEdgeProps_def)
  from processByChain_first_failure [OF wf assms(2) assms(3) pre this, of sched vIdLen p]
  show ?thesis by blast
qed

text \<open>
  At the least \<open>int32_t\<close> the negation wraps, and the schema asked for is that of the
  edge type itself.
\<close>

lemma std_abs_least: "sint (std_abs (- 2147483648)) = - 2147483648"
  by (simp add: std_abs_def)

lemma sampleEnv_simps [simp]:
  "getSpaceVidLen sampleEnv s = (if s = 1 then Some 8 else None)"
  "partId sampleEnv s vid =
     (if vid = ''A'' then Some 1 else if vid = ''B'' then Some 2
      else if vid = ''C'' then Some 3 else None)"
  "getEdgeSchema sampleEnv s t = (if t = 5 then Some () else None)"
  "getEdgeIndexes sampleEnv s = Some []"
  "edgeKey sampleEnv v part k = src k @ ''>'' @ dst k"
  "rowWriter sampleEnv = sampleWriter"
  "addSamePartEdges sampleEnv v s lp rp kvs b =
     (if rp = 1 then Some SUCCEEDED else if rp = 2 then Some E_CONSENSUS_ERROR else None)"
  by (simp_all add: sampleEnv_def)

lemma sampleEdge_simps [simp]:
  "key (sampleEdge a b vals) = \<lparr>src = a, edge_type = 5, ranking = 0, dst = b\<rparr>"
  "props (sampleEdge a b vals) = vals"
  by (simp_all add: sampleEdge_def)

lemma sample_edge_type [simp]: "sint (std_abs 5) = 5"
  by (simp add: std_abs_def)

lemma sample_encodeRowVal [simp]:
  "encodeRowVal sampleWriter () [''w''] [v] =
     Some (if v < 0 then (OUT_OF_RANGE, Inl (Error ''Add field faild''))
           else if 9 < v then (TYPE_MISMATCH, Inl (Error ''Add field faild''))
           else (W_SUCCEEDED, Inr (''w='' @ showDigit v @ '';'')))"
  by (simp add: encodeRowVal_def sampleWriter_def
        setByName.simps [of _ _ _ 0] setByName.simps [of _ _ _ "Suc 0"])

lemma sample_encode [simp]:
  "encodeSingleEdgeProps sampleEnv 1 [''w''] (sampleEdge a b [v]) =
     Some (if v < 0 \<or> 9 < v then (E_DATA_TYPE_MISMATCH, []) else (SUCCEEDED, ''w='' @ showDigit v @ '';''))"
  by (simp add: encodeSingleEdgeProps_def)

theorem processByChain_abort_witness:
  "propsInBounds \<lparr>space_id = 1, prop_names = [''w''],
       parts = [(1, [sampleEdge ''A'' ''B'' [3], sampleEdge ''A'' ''D'' [4]]),
                (2, [sampleEdge ''B'' ''A'' [12]])]\<rparr>
   \<and> edgeTypesInRange \<lparr>space_id = 1, prop_names = [''w''],
       parts = [(1, [sampleEdge ''A'' ''B'' [3], sampleEdge ''A'' ''D'' [4]]),
                (2, [sampleEdge ''B'' ''A'' [12]])]\<rparr>
   \<and> partId sampleEnv 1 (dst (key (sampleEdge ''A'' ''D'' [4]))) = None
   \<and> partId sampleEnv 1 (dst (key (sampleEdge ''B'' ''A'' [12]))) = Some 1
   \<and> encodeRowVal (rowWriter sampleEnv) () [''w''] (props (sampleEdge ''B'' ''A'' [12])) =
       Some (TYPE_MISMATCH, Inl (Error ''Add field faild''))
   \<and> (\<exists>p'. processByChain sampleEnv \<lparr>failedPicks = [1], chainPicks = [], chainSteps = []\<rparr> 8
         \<lparr>space_id = 1, prop_names = [''w''],
          parts = [(1, [sampleEdge ''A'' ''B'' [3], sampleEdge ''A'' ''D'' [4]]),
                   (2, [sampleEdge ''B'' ''A'' [12]])]\<rparr>
         \<lparr>codes = [], callingNum = 0, events = []\<rparr> = Some p'
       \<and> \<lparr>code = E_SPACE_NOT_FOUND, part_id = 1, leader = None\<rparr> \<in> set (codes p')
       \<and> \<lparr>code = E_DATA_TYPE_MISMATCH, part_id = 2, leader = None\<rparr> \<in> set (codes p')
       \<and> events p' = [OnFinished])"
proof -
  let ?req = "\<lparr>space_id = 1, prop_names = [''w''],
       parts = [(1, [sampleEdge ''A'' ''B'' [3], sampleEdge ''A'' ''D'' [4]]),
                (2, [sampleEdge ''B'' ''A'' [12]])]\<rparr>"
  let ?p = "\<lparr>codes = [], callingNum = 0, events = []\<rparr>"
  let ?sched = "\<lparr>failedPicks = [1], chainPicks = [], chainSteps = []\<rparr>"
  have h1: "propsInBounds ?req" by (simp add: propsInBounds_def)
  have h0: "edgeTypesInRange ?req" by (simp add: edgeTypesInRange_def)
  have h2: "distinct (map fst (parts ?req))" by simp
  have h3: "(1, [sampleEdge ''A'' ''B'' [3]] @ sampleEdge ''A'' ''D'' [4] # []) \<in> set (parts ?req)"
    by simp
  have h4: "list_all (edgeOk sampleEnv (space_id ?req) (prop_names ?req)) [sampleEdge ''A'' ''B'' [3]]"
    by (simp add: edgeOk_def)
  have g3: "(2, [] @ sampleEdge ''B'' ''A'' [12] # []) \<in> set (parts ?req)" by simp
  have g4: "list_all (edgeOk sampleEnv (space_id ?req) (prop_names ?req)) []" by simp
  have r1: "partId sampleEnv 1 (dst (key (sampleEdge ''A'' ''D'' [4]))) = None"
    by simp
  have r2: "partId sampleEnv 1 (dst (key (sampleEdge ''B'' ''A'' [12]))) = Some 1"
    by simp
  have r3: "getEdgeSchema sampleEnv 1 \<bar>sint (edge_type (key (sampleEdge ''B'' ''A'' [12])))\<bar> = Some ()"
    by simp
  have r4: "encodeRowVal (rowWriter sampleEnv) () [''w''] (props (sampleEdge ''B'' ''A'' [12])) =
       Some (TYPE_MISMATCH, Inl (Error ''Add field faild''))"
    by simp
  from processByChain_abort [OF h1 h0 h2 h3 h4, where sched = ?sched and vIdLen = 8 and p = ?p] r1
  obtain p1 where p1: "processByChain sampleEnv ?sched 8 ?req ?p = Some p1"
    and c1: "\<lparr>code = E_SPACE_NOT_FOUND, part_id = 1, leader = None\<rparr> \<in> set (codes p1)"
    and e1: "events p1 = events ?p @ [OnFinished]"
    by auto
  from processByChain_abort [OF h1 h0 h2 g3 g4, where sched = ?sched and vIdLen = 8 and p = ?p
      and remotePart = 1 and schema = "()" and wRet = TYPE_MISMATCH
      and st = "Error ''Add field faild''"]
    r2 r3 r4
  obtain p2 where p2: "processByChain sampleEnv ?sched 8 ?req ?p = Some p2"
    and c2: "\<lparr>code = E_DATA_TYPE_MISMATCH, part_id = 2, leader = None\<rparr> \<in> set (codes p2)"
    by auto
  from p1 p2 have "p2 = p1" by simp
  with p1 c1 c2 e1 h1 h0 r1 r2 r4 show ?thesis by simp
qed

section \<open>Atomic edge writer: chains\<close>













lemma failuresOf_submissions [simp]: "failuresOf (map (submitEvent v s b) xs) = []"
  by (induction xs) (simp_all add: submitEvent_def)

lemma failuresOf_completions [simp]:
  "failuresOf (map (doneEvent env v s b) xs) =
     map (chainFailure env v s b) (filter (\<lambda>x. chainResult env v s b x \<noteq> SUCCEEDED) xs)"
  by (induction xs) (simp_all add: doneEvent_def chainFailure_def)


lemma isSubmission_submitEvent [simp]: "isSubmission (submitEvent v s b x)"
  and isCompletion_submitEvent [simp]: "\<not> isCompletion (submitEvent v s b x)"
  and isSubmission_doneEvent [simp]: "\<not> isSubmission (doneEvent env v s b x)"
  and isCompletion_doneEvent [simp]: "isCompletion (doneEvent env v s b x)"
  by (simp_all add: submitEvent_def doneEvent_def)

lemma filter_isSubmission_map [simp]:
  "filter isSubmission (map (submitEvent v s b) xs) = map (submitEvent v s b) xs"
  "filter isSubmission (map (doneEvent env v s b) xs) = []"
  "filter isCompletion (map (submitEvent v s b) xs) = []"
  "filter isCompletion (map (doneEvent env v s b) xs) = map (doneEvent env v s b) xs"
  by (induction xs) simp_all



lemma failuresOf_events [simp]:
  "failuresOf (submitEvent v s b x # es) = failuresOf es"
  "failuresOf (doneEvent env v s b x # es) =
     (if chainResult env v s b x \<noteq> SUCCEEDED then [chainFailure env v s b x] else [])
       @ failuresOf es"
  by (simp_all add: submitEvent_def doneEvent_def chainFailure_def)






section \<open>Lookup: checks\<close>

text \<open>
  Claim C9. For a lookup request that passes \<open>requestCheck\<close> (the space's vertex id
  length is known and there is at least one context), on a new processor, the column
  names of the result data set are \<open>_src\<close>, \<open>_ranking\<close>, \<open>_dst\<close> for edges and \<open>_vid\<close> for
  vertices, followed by the requested return columns in order (none when
  \<open>return_columns\<close> is not set).
\<close>

theorem requestCheck_colNames:
  assumes "fst (checkSpaceVidLen env (get_space_id req)) = SUCCEEDED"
    and "get_contexts (get_indices req) \<noteq> []"
  shows "fst (requestCheck env req newLookupProcessor) = SUCCEEDED
    \<and> colNames (snd (requestCheck env req newLookupProcessor)) =
        (if get_is_edge (get_indices req) then [''_src'', ''_ranking'', ''_dst''] else [''_vid''])
        @ (case get_return_columns req of None \<Rightarrow> [] | Some retcols \<Rightarrow> retcols)"
  using assms
  by (simp add: requestCheck_def newLookupProcessor_def Let_def split: option.splits)

text \<open>A request that \<open>requestCheck\<close> refuses leaves the column names empty.\<close>

lemma requestCheck_failure:
  "fst (checkSpaceVidLen env (get_space_id req)) \<noteq> SUCCEEDED \<or> get_contexts (get_indices req) = []
   \<Longrightarrow> fst (requestCheck env req newLookupProcessor) \<noteq> SUCCEEDED
     \<and> colNames (snd (requestCheck env req newLookupProcessor)) = []"
  by (auto simp: requestCheck_def newLookupProcessor_def Let_def split: option.splits)

section \<open>Lookup: planner errors\<close>

lemma buildContext_None:
  "fst (buildContext env space pc cols index ctx plan) = None \<longleftrightarrow>
     needData index cols \<and> (planSchema env space pc = None \<or> planSchemaName env space pc = None)"
  by (auto simp: buildContext_def buildPlanBasic_def buildPlanWithData_def buildPlanWithFilter_def
        buildPlanWithDataAndFilter_def Let_def split: option.splits)

lemma buildPlanLoop_step_ok:
  "contextError env space pc cols ctx = None \<Longrightarrow>
   \<exists>acc'. buildPlanLoop env space pc cols (ctx # rest) (aggr, plan) =
           buildPlanLoop env space pc cols rest acc'"
proof -
  assume ok: "contextError env space pc cols ctx = None"
  then obtain index where ix: "planIndex env space pc (get_index_id ctx) = Some index"
    by (auto simp: contextError_def split: option.splits)
  with ok have "\<not> (needData index cols
      \<and> (planSchema env space pc = None \<or> planSchemaName env space pc = None))"
    by (auto simp: contextError_def split: if_splits)
  then have "fst (buildContext env space pc cols index ctx plan) \<noteq> None"
    by (simp add: buildContext_None)
  then obtain out plan' where "buildContext env space pc cols index ctx plan = (Some out, plan')"
    by (cases "buildContext env space pc cols index ctx plan") auto
  then have "buildPlanLoop env space pc cols (ctx # rest) (aggr, plan) =
      buildPlanLoop env space pc cols rest
        (aggr\<lparr>dependencies := dependencies aggr @ [node_id out]\<rparr>, addNode out plan')"
    using ix by simp
  then show ?thesis by (rule exI)
qed

lemma buildPlanLoop_step_error:
  "contextError env space pc cols ctx = Some e \<Longrightarrow>
   buildPlanLoop env space pc cols (ctx # rest) (aggr, plan) = Inl e"
proof -
  assume err: "contextError env space pc cols ctx = Some e"
  show ?thesis
  proof (cases "planIndex env space pc (get_index_id ctx)")
    case None
    then show ?thesis using err by (simp add: contextError_def)
  next
    case (Some index)
    with err have e: "e = Error ''Index scan plan error''"
      and nd: "needData index cols
        \<and> (planSchema env space pc = None \<or> planSchemaName env space pc = None)"
      by (auto simp: contextError_def split: if_splits)
    from nd have "fst (buildContext env space pc cols index ctx plan) = None"
      by (simp add: buildContext_None)
    then obtain plan' where "buildContext env space pc cols index ctx plan = (None, plan')"
      by (cases "buildContext env space pc cols index ctx plan") auto
    then show ?thesis using Some e by simp
  qed
qed

lemma buildPlanLoop_first_error:
  "list_all (\<lambda>c. contextError env space pc cols c = None) pre \<Longrightarrow>
   contextError env space pc cols ctx = Some e \<Longrightarrow>
   buildPlanLoop env space pc cols (pre @ ctx # post) acc = Inl e"
proof (induction pre arbitrary: acc)
  case Nil
  then show ?case by (cases acc) (simp only: append_Nil buildPlanLoop_step_error)
next
  case (Cons c pre)
  obtain aggr plan where acc: "acc = (aggr, plan)" by (cases acc)
  from Cons.prems have c: "contextError env space pc cols c = None"
    and rest: "list_all (\<lambda>c. contextError env space pc cols c = None) pre" by simp_all
  from buildPlanLoop_step_ok [OF c, of "pre @ ctx # post" aggr plan]
  obtain acc' where "buildPlanLoop env space pc cols (c # pre @ ctx # post) (aggr, plan) =
      buildPlanLoop env space pc cols (pre @ ctx # post) acc'" by blast
  then show ?case using Cons.IH [OF rest Cons.prems(2), of acc'] acc by simp
qed

lemma buildPlanLoop_all_ok:
  "list_all (\<lambda>c. contextError env space pc cols c = None) ctxs \<Longrightarrow>
   \<exists>r. buildPlanLoop env space pc cols ctxs acc = Inr r"
proof (induction ctxs arbitrary: acc)
  case Nil
  then show ?case by simp
next
  case (Cons c ctxs)
  obtain aggr plan where acc: "acc = (aggr, plan)" by (cases acc)
  from Cons.prems have c: "contextError env space pc cols c = None"
    and rest: "list_all (\<lambda>c. contextError env space pc cols c = None) ctxs" by simp_all
  from buildPlanLoop_step_ok [OF c, of ctxs aggr plan]
  obtain acc' where "buildPlanLoop env space pc cols (c # ctxs) (aggr, plan) =
      buildPlanLoop env space pc cols ctxs acc'" by blast
  then show ?case using Cons.IH [OF rest, of acc'] acc by simp
qed

text \<open>
  Claim C7, as the code has it. \<open>requestCheck\<close> answers \<open>E_INVALID_OPERATION\<close> for a
  request without contexts (when the space's vertex id length is known). \<open>buildPlan\<close>
  stops at the first context that has an error: with \<open>Status::IndexNotFound\<close> when
  the context's index is not found, and with the generic
  \<open>Status::Error("Index scan plan error")\<close> when a data node is needed and the tag or
  edge schema, or its name, is not found. When no context has an error it returns a
  plan.
\<close>

theorem planner_errors:
  "(fst (checkSpaceVidLen env (get_space_id req)) = SUCCEEDED
      \<and> get_contexts (get_indices req) = []
    \<longrightarrow> fst (requestCheck env req pr) = E_INVALID_OPERATION)
   \<and> (list_all (\<lambda>c. contextError env space pc cols c = None) pre
      \<and> planIndex env space pc (get_index_id ctx) = None
    \<longrightarrow> buildPlan env space pc (pre @ ctx # post) cols = Inl IndexNotFound)
   \<and> (list_all (\<lambda>c. contextError env space pc cols c = None) pre
      \<and> planIndex env space pc (get_index_id ctx) = Some index
      \<and> needData index cols
      \<and> (planSchema env space pc = None \<or> planSchemaName env space pc = None)
    \<longrightarrow> buildPlan env space pc (pre @ ctx # post) cols = Inl (Error ''Index scan plan error''))
   \<and> (list_all (\<lambda>c. contextError env space pc cols c = None) ctxs
    \<longrightarrow> (\<exists>plan. buildPlan env space pc ctxs cols = Inr plan))"
proof -
  have a: "fst (requestCheck env req pr) = E_INVALID_OPERATION"
    if "fst (checkSpaceVidLen env (get_space_id req)) = SUCCEEDED"
      and "get_contexts (get_indices req) = []"
    using that by (simp add: requestCheck_def Let_def)
  have b: "buildPlan env space pc (pre @ ctx # post) cols = Inl IndexNotFound"
    if "list_all (\<lambda>c. contextError env space pc cols c = None) pre"
      and "planIndex env space pc (get_index_id ctx) = None"
  proof -
    from that(2) have "contextError env space pc cols ctx = Some IndexNotFound"
      by (simp add: contextError_def)
    from buildPlanLoop_first_error [OF that(1) this] show ?thesis
      by (simp add: buildPlan_def)
  qed
  have c: "buildPlan env space pc (pre @ ctx # post) cols = Inl (Error ''Index scan plan error'')"
    if "list_all (\<lambda>c. contextError env space pc cols c = None) pre"
      and "planIndex env space pc (get_index_id ctx) = Some index"
      and "needData index cols"
      and "planSchema env space pc = None \<or> planSchemaName env space pc = None"
  proof -
    from that(2,3,4) have "contextError env space pc cols ctx = Some (Error ''Index scan plan error'')"
      by (auto simp: contextError_def)
    from buildPlanLoop_first_error [OF that(1) this] show ?thesis
      by (simp add: buildPlan_def)
  qed
  have d: "\<exists>plan. buildPlan env space pc ctxs cols = Inr plan"
    if "list_all (\<lambda>c. contextError env space pc cols c = None) ctxs"
  proof -
    from buildPlanLoop_all_ok [OF that]
    obtain r where "buildPlanLoop env space pc cols ctxs
        (\<lparr>node_id = 0, kind = AggregateNode, dependencies = []\<rparr>, \<lparr>nodes = [], made = 1\<rparr>) = Inr r"
      by blast
    then show ?thesis by (cases r) (simp add: buildPlan_def)
  qed
  show ?thesis using a b c d by blast
qed

section \<open>Lookup: plan shapes\<close>

lemma find_app:
  "List.find P (xs @ ys) = (case List.find P xs of None \<Rightarrow> List.find P ys | Some x \<Rightarrow> Some x)"
  by (induction xs) simp_all

lemma linked_append:
  "linked plan prev ids ts \<Longrightarrow> linked (plan @ later) prev ids ts"
  by (induction plan prev ids ts rule: linked.induct)
     (auto simp: find_app split: option.splits)

lemma pipeline_linked:
  "linked plan prev ids ts \<Longrightarrow> ids \<noteq> [] \<Longrightarrow> length ids \<le> n \<Longrightarrow>
   pipeline n plan (last ids) =
     (case prev of None \<Rightarrow> [] | Some j \<Rightarrow> pipeline (n - length ids) plan j) @ ts"
proof (induction plan prev ids ts arbitrary: n rule: linked.induct)
  case (2 plan prev i ids t ts)
  from "2.prems"(1) obtain node where f: "List.find (\<lambda>node. node_id node = i) plan = Some node"
    and st: "stage (kind node) = t"
    and dep: "dependencies node = (case prev of None \<Rightarrow> [] | Some j \<Rightarrow> [j])"
    and rest: "linked plan (Some i) ids ts"
    by (auto split: option.splits)
  show ?case
  proof (cases ids)
    case Nil
    with rest have ts: "ts = []" by (cases ts) simp_all
    from "2.prems"(3) obtain m where n: "n = Suc m" by (cases n) simp_all
    show ?thesis using Nil ts n f st dep by (simp split: option.splits)
  next
    case (Cons i2 ids2)
    from "2.prems"(3) Cons have len: "length ids \<le> n" and pos: "n - length ids \<noteq> 0" by simp_all
    from pos obtain m where m: "n - length ids = Suc m" by (cases "n - length ids") simp_all
    have m': "m = n - length (i # ids)" using m by simp
    have "pipeline n plan (last ids) = pipeline (n - length ids) plan i @ ts"
      using "2.IH" [OF f rest _ len] Cons by simp
    also have "pipeline (n - length ids) plan i =
        (case prev of None \<Rightarrow> [] | Some j \<Rightarrow> pipeline m plan j) @ [t]"
      using m f st dep by (simp split: option.splits)
    finally show ?thesis using Cons m' by (cases prev) simp_all
  qed
qed simp_all

lemma find_fresh:
  "fresh plan \<Longrightarrow> made plan \<le> i \<Longrightarrow> List.find (\<lambda>node. node_id node = i) (nodes plan) = None"
  by (auto simp: fresh_def find_None_iff list_all_iff)

lemma fresh_lt: "fresh plan \<Longrightarrow> n \<in> set (nodes plan) \<Longrightarrow> made plan \<le> m \<Longrightarrow> node_id n < m"
  by (fastforce simp: fresh_def list_all_iff)

lemma buildPlanBasic_chain:
  assumes "fresh plan"
  shows "case buildPlanBasic pc ctx plan cols v h of
           (None, plan') \<Rightarrow> False
         | (Some out, plan') \<Rightarrow>
             chainAdded plan out plan' [made plan, made plan + 1] [IndexScan, IndexOutput]"
  by (simp add: buildPlanBasic_def chainAdded_def Let_def addNode_def find_app
        find_fresh [OF assms] fresh_def list_all_iff fresh_lt [OF assms])

lemma buildPlanWithFilter_chain:
  assumes "fresh plan"
  shows "case buildPlanWithFilter pc ctx plan v h cols of
           (None, plan') \<Rightarrow> False
         | (Some out, plan') \<Rightarrow>
             chainAdded plan out plan' [made plan, made plan + 1, made plan + 2]
               [IndexScan, IndexFilter, IndexOutput]"
  by (simp add: buildPlanWithFilter_def chainAdded_def Let_def addNode_def find_app
        find_fresh [OF assms] fresh_def list_all_iff fresh_lt [OF assms])

lemma buildPlanWithData_chain:
  assumes "fresh plan"
  shows "case buildPlanWithData env space pc ctx plan of
           (None, plan') \<Rightarrow> True
         | (Some out, plan') \<Rightarrow>
             chainAdded plan out plan' [made plan, made plan + 1, made plan + 2]
               [IndexScan, if isEdge pc then IndexEdge else IndexVertex, IndexOutput]"
  by (simp add: buildPlanWithData_def chainAdded_def Let_def addNode_def find_app
        find_fresh [OF assms] fresh_def list_all_iff fresh_lt [OF assms] split: option.splits)

lemma buildPlanWithDataAndFilter_chain:
  assumes "fresh plan"
  shows "case buildPlanWithDataAndFilter env space pc ctx plan of
           (None, plan') \<Rightarrow> True
         | (Some out, plan') \<Rightarrow>
             chainAdded plan out plan'
               [made plan, made plan + 1, made plan + 2, made plan + 3]
               [IndexScan, if isEdge pc then IndexEdge else IndexVertex, IndexFilter, IndexOutput]"
  by (simp add: buildPlanWithDataAndFilter_def chainAdded_def Let_def addNode_def find_app
        find_fresh [OF assms] fresh_def list_all_iff fresh_lt [OF assms] split: option.splits)

lemma buildContext_chain:
  assumes "fresh plan"
    and "buildContext env space pc cols index ctx plan = (Some out, plan')"
  shows "\<exists>ids. chainAdded plan out plan' ids
                 (planShape (isEdge pc) (needData index cols) (needFilter ctx))"
proof -
  consider (basic) "\<not> needData index cols" "\<not> needFilter ctx"
    | (data) "needData index cols" "\<not> needFilter ctx"
    | (filt) "\<not> needData index cols" "needFilter ctx"
    | (both) "needData index cols" "needFilter ctx"
    by blast
  then show ?thesis
  proof cases
    case basic
    with assms(2) obtain cs v h where "buildPlanBasic pc ctx plan cs v h = (Some out, plan')"
      by (simp add: buildContext_def Let_def)
    with buildPlanBasic_chain [OF assms(1), where pc = pc and ctx = ctx and cols = cs and v = v and h = h]
    have "chainAdded plan out plan' [made plan, made plan + 1] [IndexScan, IndexOutput]" by simp
    then show ?thesis using basic by (auto simp: planShape_def)
  next
    case data
    with assms(2) have "buildPlanWithData env space pc ctx plan = (Some out, plan')"
      by (simp add: buildContext_def Let_def)
    with buildPlanWithData_chain [OF assms(1), where env = env and space = space and pc = pc and ctx = ctx]
    have "chainAdded plan out plan' [made plan, made plan + 1, made plan + 2]
            [IndexScan, if isEdge pc then IndexEdge else IndexVertex, IndexOutput]" by simp
    then show ?thesis using data by (auto simp: planShape_def)
  next
    case filt
    with assms(2) obtain cs v h where "buildPlanWithFilter pc ctx plan v h cs = (Some out, plan')"
      by (simp add: buildContext_def Let_def)
    with buildPlanWithFilter_chain [OF assms(1), where pc = pc and ctx = ctx and cols = cs and v = v and h = h]
    have "chainAdded plan out plan' [made plan, made plan + 1, made plan + 2]
            [IndexScan, IndexFilter, IndexOutput]" by simp
    then show ?thesis using filt by (auto simp: planShape_def)
  next
    case both
    with assms(2) have "buildPlanWithDataAndFilter env space pc ctx plan = (Some out, plan')"
      by (simp add: buildContext_def Let_def)
    with buildPlanWithDataAndFilter_chain [OF assms(1), where env = env and space = space and pc = pc and ctx = ctx]
    have "chainAdded plan out plan' [made plan, made plan + 1, made plan + 2, made plan + 3]
            [IndexScan, if isEdge pc then IndexEdge else IndexVertex, IndexFilter, IndexOutput]"
      by simp
    then show ?thesis using both by (auto simp: planShape_def)
  qed
qed

text \<open>The loop keeps what it has built and adds one chain per context.\<close>

lemma buildPlanLoop_chains:
  assumes "buildPlanLoop env space pc cols ctxs (aggr, plan) = Inr (aggr', plan')"
    and "fresh plan"
  shows "fresh plan'
    \<and> (\<exists>new. nodes plan' = nodes plan @ new)
    \<and> node_id aggr' = node_id aggr \<and> kind aggr' = kind aggr
    \<and> (\<exists>deps. dependencies aggr' = dependencies aggr @ deps \<and> length deps = length ctxs
          \<and> (\<forall>i < length ctxs.
                \<exists>index ids. planIndex env space pc (get_index_id (ctxs ! i)) = Some index
                  \<and> linked (nodes plan') None ids
                       (planShape (isEdge pc) (needData index cols) (needFilter (ctxs ! i)))
                  \<and> ids \<noteq> [] \<and> last ids = deps ! i \<and> length ids \<le> length (nodes plan')))"
  using assms
proof (induction ctxs arbitrary: aggr plan)
  case Nil
  then show ?case by simp
next
  case (Cons ctx rest)
  from Cons.prems(1) obtain index where ix: "planIndex env space pc (get_index_id ctx) = Some index"
    by (auto split: option.splits)
  from Cons.prems(1) ix obtain out plan1 where
    bc: "buildContext env space pc cols index ctx plan = (Some out, plan1)"
    and loop: "buildPlanLoop env space pc cols rest
        (aggr\<lparr>dependencies := dependencies aggr @ [node_id out]\<rparr>, addNode out plan1) =
        Inr (aggr', plan')"
    by (auto split: option.splits prod.splits)
  from buildContext_chain [OF Cons.prems(2) bc]
  obtain ids where ch: "chainAdded plan out plan1 ids
      (planShape (isEdge pc) (needData index cols) (needFilter ctx))" by blast
  then obtain new1 where l1: "linked (nodes (addNode out plan1)) None ids
        (planShape (isEdge pc) (needData index cols) (needFilter ctx))"
    and ne: "ids \<noteq> []" and la: "last ids = node_id out"
    and n1: "nodes (addNode out plan1) = nodes plan @ new1" and le: "length ids \<le> length new1"
    and fr: "fresh (addNode out plan1)"
    by (auto simp: chainAdded_def)
  from Cons.IH [OF loop fr]
  obtain new2 deps where fr': "fresh plan'"
    and n2: "nodes plan' = nodes (addNode out plan1) @ new2"
    and id: "node_id aggr' = node_id aggr" and kd: "kind aggr' = kind aggr"
    and dp: "dependencies aggr' = (dependencies aggr @ [node_id out]) @ deps"
    and ln: "length deps = length rest"
    and each: "\<forall>i < length rest.
        \<exists>index ids. planIndex env space pc (get_index_id (rest ! i)) = Some index
          \<and> linked (nodes plan') None ids
               (planShape (isEdge pc) (needData index cols) (needFilter (rest ! i)))
          \<and> ids \<noteq> [] \<and> last ids = deps ! i \<and> length ids \<le> length (nodes plan')"
    by auto
  have l1': "linked (nodes plan') None ids
        (planShape (isEdge pc) (needData index cols) (needFilter ctx))"
    using l1 n2 by (simp add: linked_append)
  have le': "length ids \<le> length (nodes plan')" using le n1 n2 by simp
  have all: "\<forall>i < length (ctx # rest).
        \<exists>index ids. planIndex env space pc (get_index_id ((ctx # rest) ! i)) = Some index
          \<and> linked (nodes plan') None ids
               (planShape (isEdge pc) (needData index cols) (needFilter ((ctx # rest) ! i)))
          \<and> ids \<noteq> [] \<and> last ids = (node_id out # deps) ! i
          \<and> length ids \<le> length (nodes plan')"
  proof (intro allI impI)
    fix i assume "i < length (ctx # rest)"
    show "\<exists>index ids. planIndex env space pc (get_index_id ((ctx # rest) ! i)) = Some index
          \<and> linked (nodes plan') None ids
               (planShape (isEdge pc) (needData index cols) (needFilter ((ctx # rest) ! i)))
          \<and> ids \<noteq> [] \<and> last ids = (node_id out # deps) ! i
          \<and> length ids \<le> length (nodes plan')"
    proof (cases i)
      case 0
      then show ?thesis using ix l1' ne la le' by auto
    next
      case (Suc j)
      with \<open>i < length (ctx # rest)\<close> have "j < length rest" by simp
      with each Suc show ?thesis by simp
    qed
  qed
  have "dependencies aggr' = dependencies aggr @ (node_id out # deps)
      \<and> length (node_id out # deps) = length (ctx # rest)"
    using dp ln by simp
  with all have "\<exists>deps. dependencies aggr' = dependencies aggr @ deps
      \<and> length deps = length (ctx # rest)
      \<and> (\<forall>i < length (ctx # rest).
            \<exists>index ids. planIndex env space pc (get_index_id ((ctx # rest) ! i)) = Some index
              \<and> linked (nodes plan') None ids
                   (planShape (isEdge pc) (needData index cols) (needFilter ((ctx # rest) ! i)))
              \<and> ids \<noteq> [] \<and> last ids = deps ! i \<and> length ids \<le> length (nodes plan'))"
    by blast
  moreover have "\<exists>new. nodes plan' = nodes plan @ new" using n1 n2 by simp
  ultimately show ?case using fr' id kd by blast
qed

lemma needData_iff:
  "needData index cols \<longleftrightarrow> (\<exists>c \<in> set cols. c \<notin> get_name ` set (get_fields index))"
  by (auto simp: needData_def list_ex_iff find_None_iff)

lemma needFilter_iff: "needFilter ctx \<longleftrightarrow> (\<exists>f. get_filter ctx = Some f \<and> f \<noteq> [])"
  by (simp add: needFilter_def split: option.splits)

text \<open>A context without error has its index, and its schema when a data node is needed.\<close>

lemma contextError_None_iff:
  "contextError env space pc cols ctx = None \<longleftrightarrow>
     (\<exists>index. planIndex env space pc (get_index_id ctx) = Some index
        \<and> (needData index cols \<longrightarrow>
              planSchema env space pc \<noteq> None \<and> planSchemaName env space pc \<noteq> None))"
  by (auto simp: contextError_def split: option.splits)

text \<open>\<open>buildPlan\<close> returns a plan exactly when no context has an error.\<close>

lemma buildPlan_succeeds_iff:
  "(\<exists>plan. buildPlan env space pc ctxs cols = Inr plan) \<longleftrightarrow>
     list_all (\<lambda>c. contextError env space pc cols c = None) ctxs"
proof
  assume ok: "list_all (\<lambda>c. contextError env space pc cols c = None) ctxs"
  from buildPlanLoop_all_ok [OF ok]
  obtain r where "buildPlanLoop env space pc cols ctxs
      (\<lparr>node_id = 0, kind = AggregateNode, dependencies = []\<rparr>, \<lparr>nodes = [], made = 1\<rparr>) = Inr r"
    by blast
  then show "\<exists>plan. buildPlan env space pc ctxs cols = Inr plan"
    by (cases r) (simp add: buildPlan_def)
next
  assume built: "\<exists>plan. buildPlan env space pc ctxs cols = Inr plan"
  show "list_all (\<lambda>c. contextError env space pc cols c = None) ctxs"
  proof (rule ccontr)
    assume "\<not> list_all (\<lambda>c. contextError env space pc cols c = None) ctxs"
    then have "\<exists>c \<in> set ctxs. contextError env space pc cols c \<noteq> None"
      by (simp add: list_all_iff)
    from split_list_first_prop [OF this]
    obtain pre ctx post where ctxs: "ctxs = pre @ ctx # post"
      and bad: "contextError env space pc cols ctx \<noteq> None"
      and good: "\<forall>c \<in> set pre. \<not> contextError env space pc cols c \<noteq> None"
      by blast
    from bad obtain e where e: "contextError env space pc cols ctx = Some e" by auto
    from good have pre: "list_all (\<lambda>c. contextError env space pc cols c = None) pre"
      by (simp add: list_all_iff)
    from buildPlanLoop_first_error [OF pre e]
    have "buildPlan env space pc ctxs cols = Inl e"
      by (simp add: buildPlan_def ctxs)
    with built show False by simp
  qed
qed

text \<open>
  Claim C1. \<open>buildPlan\<close> returns a plan exactly when every context has its index and,
  where a data node is needed, the schema and its name. The plan's last node is the
  aggregate node, with one dependency per context, in order; and the pipeline that
  ends in the dependency of context \<open>i\<close> has the shape that \<open>needData\<close> and
  \<open>needFilter\<close> select: scan and output; with a data node (edge or vertex) between
  them when some return column is no field of the index; with a filter node before
  the output when the context's filter is set and not empty; the data node before the
  filter node when both are there.
\<close>

theorem buildPlan_shapes:
  "((\<exists>built. buildPlan env space pc ctxs cols = Inr built)
      \<longleftrightarrow> list_all (\<lambda>c. contextError env space pc cols c = None) ctxs)
   \<and> (contextError env space pc cols ctx = None \<longleftrightarrow>
        (\<exists>index. planIndex env space pc (get_index_id ctx) = Some index
           \<and> (needData index cols \<longrightarrow>
                 planSchema env space pc \<noteq> None \<and> planSchemaName env space pc \<noteq> None)))
   \<and> (buildPlan env space pc ctxs cols = Inr plan \<and> i < length ctxs \<longrightarrow>
        (\<exists>index. planIndex env space pc (get_index_id (ctxs ! i)) = Some index
           \<and> plan \<noteq> [] \<and> kind (last plan) = AggregateNode
           \<and> length (dependencies (last plan)) = length ctxs
           \<and> pipeline (length plan) plan (dependencies (last plan) ! i) =
               planShape (isEdge pc) (needData index cols) (needFilter (ctxs ! i))
           \<and> (needData index cols \<longleftrightarrow> (\<exists>c \<in> set cols. c \<notin> get_name ` set (get_fields index)))
           \<and> (needFilter (ctxs ! i) \<longleftrightarrow> (\<exists>f. get_filter (ctxs ! i) = Some f \<and> f \<noteq> []))))
   \<and> planShape (isEdge pc) False False = [IndexScan, IndexOutput]
   \<and> planShape (isEdge pc) True False =
       [IndexScan, if isEdge pc then IndexEdge else IndexVertex, IndexOutput]
   \<and> planShape (isEdge pc) False True = [IndexScan, IndexFilter, IndexOutput]
   \<and> planShape (isEdge pc) True True =
       [IndexScan, if isEdge pc then IndexEdge else IndexVertex, IndexFilter, IndexOutput]"
proof -
  have shape: "\<exists>index. planIndex env space pc (get_index_id (ctxs ! i)) = Some index
      \<and> plan \<noteq> [] \<and> kind (last plan) = AggregateNode
      \<and> length (dependencies (last plan)) = length ctxs
      \<and> pipeline (length plan) plan (dependencies (last plan) ! i) =
          planShape (isEdge pc) (needData index cols) (needFilter (ctxs ! i))
      \<and> (needData index cols \<longleftrightarrow> (\<exists>c \<in> set cols. c \<notin> get_name ` set (get_fields index)))
      \<and> (needFilter (ctxs ! i) \<longleftrightarrow> (\<exists>f. get_filter (ctxs ! i) = Some f \<and> f \<noteq> []))"
    if built: "buildPlan env space pc ctxs cols = Inr plan" and i: "i < length ctxs"
  proof -
    from built obtain aggr' plan' where
      loop: "buildPlanLoop env space pc cols ctxs
               (\<lparr>node_id = 0, kind = AggregateNode, dependencies = []\<rparr>,
                \<lparr>nodes = [], made = 1\<rparr>) = Inr (aggr', plan')"
      and plan: "plan = nodes plan' @ [aggr']"
      by (auto simp: buildPlan_def Let_def addNode_def split: sum.splits)
    have fr: "fresh \<lparr>nodes = [], made = 1\<rparr>" by (simp add: fresh_def)
    from buildPlanLoop_chains [OF loop fr]
    obtain deps where kd: "kind aggr' = AggregateNode"
      and dp: "dependencies aggr' = deps" and ln: "length deps = length ctxs"
      and each: "\<forall>i < length ctxs.
          \<exists>index ids. planIndex env space pc (get_index_id (ctxs ! i)) = Some index
            \<and> linked (nodes plan') None ids
                 (planShape (isEdge pc) (needData index cols) (needFilter (ctxs ! i)))
            \<and> ids \<noteq> [] \<and> last ids = deps ! i \<and> length ids \<le> length (nodes plan')"
      by auto
    from each i obtain index ids where
      ix: "planIndex env space pc (get_index_id (ctxs ! i)) = Some index"
      and li: "linked (nodes plan') None ids
                 (planShape (isEdge pc) (needData index cols) (needFilter (ctxs ! i)))"
      and ne: "ids \<noteq> []" and la: "last ids = deps ! i" and le: "length ids \<le> length (nodes plan')"
      by blast
    from li have "linked plan None ids
                 (planShape (isEdge pc) (needData index cols) (needFilter (ctxs ! i)))"
      unfolding plan by (rule linked_append)
    from pipeline_linked [OF this ne, of "length plan"] le
    have pl: "pipeline (length plan) plan (deps ! i) =
        planShape (isEdge pc) (needData index cols) (needFilter (ctxs ! i))"
      by (simp add: plan la)
    show ?thesis
      using ix pl kd dp ln needData_iff [of index cols] needFilter_iff [of "ctxs ! i"]
      by (simp add: plan)
  qed
  have shapes: "planShape (isEdge pc) False False = [IndexScan, IndexOutput]
     \<and> planShape (isEdge pc) True False =
         [IndexScan, if isEdge pc then IndexEdge else IndexVertex, IndexOutput]
     \<and> planShape (isEdge pc) False True = [IndexScan, IndexFilter, IndexOutput]
     \<and> planShape (isEdge pc) True True =
         [IndexScan, if isEdge pc then IndexEdge else IndexVertex, IndexFilter, IndexOutput]"
    by (simp add: planShape_def)
  from buildPlan_succeeds_iff [of env space pc ctxs cols]
    contextError_None_iff [of env space pc cols ctx] shape shapes
  show ?thesis by blast
qed

section \<open>Lookup: the sample plans\<close>

lemma sampleEnv_lookup_simps [simp]:
  "checkSpaceVidLen sampleEnv s = (if s = 1 then (SUCCEEDED, 8) else (E_INVALID_SPACEVIDLEN, 0))"
  "getTagSchema sampleEnv s t = (if t = 2 then Some () else None)"
  "toEdgeName sampleEnv s t = (if t = 5 then Some ''e'' else None)"
  "toTagName sampleEnv s t = (if t = 2 then Some ''t'' else None)"
  "getEdgeIndex sampleEnv s i =
     (if i = 20 then Some \<lparr>get_fields = [sampleColumn ''c1'']\<rparr> else None)"
  "getTagIndex sampleEnv s i =
     (if i = 10 then Some \<lparr>get_fields = [sampleColumn ''c1'', sampleColumn ''c2'']\<rparr>
      else if i = 11 then Some \<lparr>get_fields = [sampleColumn ''c1'']\<rparr> else None)"
  "toValueType sampleEnv ty = (if ty = ''string'' then STRING else OTHER_TYPE 0)"
  by (simp_all add: sampleEnv_def)

lemmas sample_plan_defs =
  buildPlan_def buildContext_def planIndex_def needData_def needFilter_def
  buildPlanBasic_def buildPlanWithData_def buildPlanWithFilter_def buildPlanWithDataAndFilter_def
  planSchema_def planSchemaName_def addNode_def Let_def samplePlanContext_def sampleContext_def
  sampleColumn_def filterText_def

text \<open>
  The lookups of the specification's scenarios on tag 2 with index 10 on \<open>(c1, c2)\<close>:
  yielding \<open>c1, c2\<close> (indexed only), yielding \<open>c1\<close> under a filter, yielding \<open>c3\<close>
  without and with a filter; and an edge lookup through index 20 yielding \<open>c2\<close>.
\<close>

theorem buildPlan_shapes_witness:
  "buildPlan sampleEnv 1 (samplePlanContext False 2)
       [sampleContext 10 None, sampleContext 10 (Some ''c1 > 1'')] [''c1'', ''c2''] =
     Inr sampleIndexedPlan
   \<and> pipeline 6 sampleIndexedPlan 2 = [IndexScan, IndexOutput]
   \<and> pipeline 6 sampleIndexedPlan 5 = [IndexScan, IndexFilter, IndexOutput]
   \<and> buildPlan sampleEnv 1 (samplePlanContext False 2)
       [sampleContext 10 None, sampleContext 10 (Some ''c1 > 1'')] [''c3''] = Inr samplePlan
   \<and> pipeline 8 samplePlan 3 = [IndexScan, IndexVertex, IndexOutput]
   \<and> pipeline 8 samplePlan 7 = [IndexScan, IndexVertex, IndexFilter, IndexOutput]
   \<and> buildPlan sampleEnv 1 (samplePlanContext True 5) [sampleContext 20 None] [''c2''] =
     Inr sampleEdgePlan
   \<and> pipeline 4 sampleEdgePlan 3 = [IndexScan, IndexEdge, IndexOutput]
   \<and> contextError sampleEnv 1 (samplePlanContext False 2) [''c1'', ''c2'']
       (sampleContext 10 None) = None
   \<and> (\<exists>built :: (unit, nat) PlanNode list.
         buildPlan sampleEnv 1 (samplePlanContext False 2) [sampleContext 10 None]
           [''c1'', ''c2''] = Inr built)"
proof -
  let ?ctxs = "[sampleContext 10 None, sampleContext 10 (Some ''c1 > 1'')]"
  let ?pc = "samplePlanContext False 2"
  let ?pe = "samplePlanContext True 5"
  let ?ix = "\<lparr>get_fields = [sampleColumn ''c1'', sampleColumn ''c2'']\<rparr>"
  have ix: "planIndex sampleEnv 1 ?pc (get_index_id (?ctxs ! k)) = Some index \<Longrightarrow> k < 2
      \<Longrightarrow> index = ?ix" for k index
    by (cases k) (auto simp: planIndex_def samplePlanContext_def sampleContext_def less_Suc_eq)
  have a0: "buildPlan sampleEnv 1 ?pc ?ctxs [''c1'', ''c2''] = Inr sampleIndexedPlan"
    by (simp add: sample_plan_defs sampleIndexedPlan_def)
  have b0: "buildPlan sampleEnv 1 ?pc ?ctxs [''c3''] = Inr samplePlan"
    by (simp add: sample_plan_defs samplePlan_def)
  have c0: "buildPlan sampleEnv 1 ?pe [sampleContext 20 None] [''c2''] = Inr sampleEdgePlan"
    by (simp add: sample_plan_defs sampleEdgePlan_def)
  have la: "length sampleIndexedPlan = 6" "dependencies (last sampleIndexedPlan) = [2, 5]"
    by (simp_all add: sampleIndexedPlan_def)
  have lb: "length samplePlan = 8" "dependencies (last samplePlan) = [3, 7]"
    by (simp_all add: samplePlan_def)
  have lc: "length sampleEdgePlan = 4" "dependencies (last sampleEdgePlan) = [3]"
    by (simp_all add: sampleEdgePlan_def)
  have nd1: "\<not> needData ?ix [''c1'', ''c2'']" and nd3: "needData ?ix [''c3'']"
    by (simp_all add: needData_def sampleColumn_def)
  have nf: "\<not> needFilter (sampleContext 10 None)"
    "needFilter (sampleContext 10 (Some ''c1 > 1''))"
    by (simp_all add: needFilter_def sampleContext_def)
  have e: "isEdge ?pc = False" "isEdge ?pe = True" by (simp_all add: samplePlanContext_def)
  from buildPlan_shapes [where env = sampleEnv and space = 1 and pc = ?pc and ctxs = ?ctxs
      and cols = "[''c1'', ''c2'']" and plan = sampleIndexedPlan and i = 0,
      THEN conjunct2, THEN conjunct2, THEN conjunct1] a0
  obtain i0 where "planIndex sampleEnv 1 ?pc (get_index_id (?ctxs ! 0)) = Some i0"
    and p: "pipeline (length sampleIndexedPlan) sampleIndexedPlan
        (dependencies (last sampleIndexedPlan) ! 0) =
        planShape (isEdge ?pc) (needData i0 [''c1'', ''c2'']) (needFilter (?ctxs ! 0))"
    by auto
  with ix [of 0 i0] have a1: "pipeline 6 sampleIndexedPlan 2 = [IndexScan, IndexOutput]"
    by (simp add: la nd1 nf e planShape_def)
  from buildPlan_shapes [where env = sampleEnv and space = 1 and pc = ?pc and ctxs = ?ctxs
      and cols = "[''c1'', ''c2'']" and plan = sampleIndexedPlan and i = 1,
      THEN conjunct2, THEN conjunct2, THEN conjunct1] a0
  obtain i1 where "planIndex sampleEnv 1 ?pc (get_index_id (?ctxs ! 1)) = Some i1"
    and p: "pipeline (length sampleIndexedPlan) sampleIndexedPlan
        (dependencies (last sampleIndexedPlan) ! 1) =
        planShape (isEdge ?pc) (needData i1 [''c1'', ''c2'']) (needFilter (?ctxs ! 1))"
    by auto
  with ix [of 1 i1] have a2: "pipeline 6 sampleIndexedPlan 5 = [IndexScan, IndexFilter, IndexOutput]"
    by (simp add: la nd1 nf e planShape_def)
  from buildPlan_shapes [where env = sampleEnv and space = 1 and pc = ?pc and ctxs = ?ctxs
      and cols = "[''c3'']" and plan = samplePlan and i = 0,
      THEN conjunct2, THEN conjunct2, THEN conjunct1] b0
  obtain i2 where "planIndex sampleEnv 1 ?pc (get_index_id (?ctxs ! 0)) = Some i2"
    and p: "pipeline (length samplePlan) samplePlan (dependencies (last samplePlan) ! 0) =
        planShape (isEdge ?pc) (needData i2 [''c3'']) (needFilter (?ctxs ! 0))"
    by auto
  with ix [of 0 i2] have b1: "pipeline 8 samplePlan 3 = [IndexScan, IndexVertex, IndexOutput]"
    by (simp add: lb nd3 nf e planShape_def)
  from buildPlan_shapes [where env = sampleEnv and space = 1 and pc = ?pc and ctxs = ?ctxs
      and cols = "[''c3'']" and plan = samplePlan and i = 1,
      THEN conjunct2, THEN conjunct2, THEN conjunct1] b0
  obtain i3 where "planIndex sampleEnv 1 ?pc (get_index_id (?ctxs ! 1)) = Some i3"
    and p: "pipeline (length samplePlan) samplePlan (dependencies (last samplePlan) ! 1) =
        planShape (isEdge ?pc) (needData i3 [''c3'']) (needFilter (?ctxs ! 1))"
    by auto
  with ix [of 1 i3]
  have b2: "pipeline 8 samplePlan 7 = [IndexScan, IndexVertex, IndexFilter, IndexOutput]"
    by (simp add: lb nd3 nf e planShape_def)
  from buildPlan_shapes [where env = sampleEnv and space = 1 and pc = ?pe
      and ctxs = "[sampleContext 20 None]" and cols = "[''c2'']" and plan = sampleEdgePlan
      and i = 0,
      THEN conjunct2, THEN conjunct2, THEN conjunct1] c0
  obtain i4 where "planIndex sampleEnv 1 ?pe (get_index_id ([sampleContext 20 None] ! 0)) = Some i4"
    and p: "pipeline (length sampleEdgePlan) sampleEdgePlan
        (dependencies (last sampleEdgePlan) ! 0) =
        planShape (isEdge ?pe) (needData i4 [''c2'']) (needFilter ([sampleContext 20 None] ! 0))"
    by auto
  then have c1: "pipeline 4 sampleEdgePlan 3 = [IndexScan, IndexEdge, IndexOutput]"
    by (auto simp: lc e planShape_def planIndex_def samplePlanContext_def sampleContext_def
          needData_def needFilter_def sampleColumn_def)
  have ok: "contextError sampleEnv 1 ?pc [''c1'', ''c2''] (sampleContext 10 None) = None"
    by (simp add: contextError_def sample_plan_defs)
  then have "list_all (\<lambda>c. contextError sampleEnv 1 ?pc [''c1'', ''c2''] c = None)
      [sampleContext 10 None]" by simp
  with buildPlan_shapes [where env = sampleEnv and space = 1 and pc = ?pc
      and ctxs = "[sampleContext 10 None]" and cols = "[''c1'', ''c2'']", THEN conjunct1]
  have d: "\<exists>built :: (unit, nat) PlanNode list.
      buildPlan sampleEnv 1 ?pc [sampleContext 10 None] [''c1'', ''c2''] = Inr built"
    by blast
  from a0 a1 a2 b0 b1 b2 c0 c1 ok d show ?thesis by (intro conjI)
qed

theorem requestCheck_colNames_witness:
  "fst (checkSpaceVidLen sampleEnv 1) = SUCCEEDED
   \<and> [sampleContext 20 None] \<noteq> []
   \<and> requestCheck sampleEnv
        \<lparr>get_space_id = 1,
         get_indices = \<lparr>get_contexts = [sampleContext 20 None], get_is_edge = True,
                         get_tag_or_edge_id = 5\<rparr>,
         get_return_columns = Some [''c1'', ''c2'']\<rparr> newLookupProcessor =
      (SUCCEEDED,
       \<lparr>lookupSpaceId = 1, planContext = Some (samplePlanContext True 5),
        contexts = [sampleContext 20 None], yieldCols = [''c1'', ''c2''],
        colNames = [''_src'', ''_ranking'', ''_dst'', ''c1'', ''c2'']\<rparr>)
   \<and> colNames (snd (requestCheck sampleEnv
        \<lparr>get_space_id = 1,
         get_indices = \<lparr>get_contexts = [sampleContext 20 None], get_is_edge = False,
                         get_tag_or_edge_id = 2\<rparr>,
         get_return_columns = None\<rparr> newLookupProcessor)) = [''_vid'']"
proof -
  let ?r1 = "\<lparr>get_space_id = 1,
         get_indices = \<lparr>get_contexts = [sampleContext 20 None], get_is_edge = True,
                         get_tag_or_edge_id = 5\<rparr>,
         get_return_columns = Some [''c1'', ''c2'']\<rparr>"
  let ?r2 = "\<lparr>get_space_id = 1,
         get_indices = \<lparr>get_contexts = [sampleContext 20 None], get_is_edge = False,
                         get_tag_or_edge_id = 2\<rparr>,
         get_return_columns = None\<rparr>"
  have a1: "fst (checkSpaceVidLen sampleEnv (get_space_id ?r1)) = SUCCEEDED" by simp
  have b1: "get_contexts (get_indices ?r1) \<noteq> []" by simp
  have a2: "fst (checkSpaceVidLen sampleEnv (get_space_id ?r2)) = SUCCEEDED" by simp
  have b2: "get_contexts (get_indices ?r2) \<noteq> []" by simp
  have v: "requestCheck sampleEnv ?r1 newLookupProcessor =
      (SUCCEEDED,
       \<lparr>lookupSpaceId = 1, planContext = Some (samplePlanContext True 5),
        contexts = [sampleContext 20 None], yieldCols = [''c1'', ''c2''],
        colNames = [''_src'', ''_ranking'', ''_dst'', ''c1'', ''c2'']\<rparr>)"
    by (simp add: requestCheck_def newLookupProcessor_def Let_def samplePlanContext_def)
  from requestCheck_colNames [OF a1 b1] requestCheck_colNames [OF a2 b2] v
  show ?thesis by simp
qed

theorem planner_errors_witness:
  "fst (checkSpaceVidLen sampleEnv 1) = SUCCEEDED
   \<and> fst (requestCheck sampleEnv
        \<lparr>get_space_id = 1,
         get_indices = \<lparr>get_contexts = ([] :: nat IndexQueryContext list), get_is_edge = False,
                         get_tag_or_edge_id = 2\<rparr>,
         get_return_columns = None\<rparr> newLookupProcessor) = E_INVALID_OPERATION
   \<and> planIndex sampleEnv 1 (samplePlanContext False 2) 99 = None
   \<and> buildPlan sampleEnv 1 (samplePlanContext False 2)
        [sampleContext 10 None, sampleContext 99 None] [''c1''] = Inl IndexNotFound
   \<and> needData \<lparr>get_fields = [sampleColumn ''c1'']\<rparr> [''c3'']
   \<and> planSchema sampleEnv 1 (samplePlanContext False 3) = None
   \<and> buildPlan sampleEnv 1 (samplePlanContext False 3) [sampleContext 11 None] [''c3''] =
        Inl (Error ''Index scan plan error'')
   \<and> (\<exists>plan. buildPlan sampleEnv 1 (samplePlanContext False 2) [sampleContext 10 None]
                 [''c1''] = Inr plan)"
proof -
  let ?req = "\<lparr>get_space_id = 1,
         get_indices = \<lparr>get_contexts = ([] :: nat IndexQueryContext list), get_is_edge = False,
                         get_tag_or_edge_id = 2\<rparr>,
         get_return_columns = None\<rparr>"
  let ?pc2 = "samplePlanContext False 2"
  let ?pc3 = "samplePlanContext False 3"
  have ok10: "contextError sampleEnv 1 ?pc2 [''c1''] (sampleContext 10 None) = None"
    by (simp add: contextError_def sample_plan_defs)
  have a: "fst (checkSpaceVidLen sampleEnv (get_space_id ?req)) = SUCCEEDED
      \<and> get_contexts (get_indices ?req) = []" by simp
  have b: "list_all (\<lambda>c. contextError sampleEnv 1 ?pc2 [''c1''] c = None) [sampleContext 10 None]
      \<and> planIndex sampleEnv 1 ?pc2 (get_index_id (sampleContext 99 None)) = None"
    using ok10 by (simp add: sample_plan_defs)
  have c: "list_all (\<lambda>c. contextError sampleEnv 1 ?pc3 [''c3''] c = None) []
      \<and> planIndex sampleEnv 1 ?pc3 (get_index_id (sampleContext 11 None)) =
          Some \<lparr>get_fields = [sampleColumn ''c1'']\<rparr>
      \<and> needData \<lparr>get_fields = [sampleColumn ''c1'']\<rparr> [''c3'']
      \<and> (planSchema sampleEnv 1 ?pc3 = None \<or> planSchemaName sampleEnv 1 ?pc3 = None)"
    by (simp add: sample_plan_defs)
  have d: "list_all (\<lambda>c. contextError sampleEnv 1 ?pc2 [''c1''] c = None) [sampleContext 10 None]"
    using ok10 by simp
  note t1 = planner_errors [where env = sampleEnv and req = ?req and pr = newLookupProcessor
      and space = 1 and pc = ?pc2 and cols = "[''c1'']" and pre = "[sampleContext 10 None]"
      and ctx = "sampleContext 99 None" and post = "[]" and ctxs = "[sampleContext 10 None]"]
  note t2 = planner_errors [where env = sampleEnv and space = 1 and pc = ?pc3 and cols = "[''c3'']"
      and pre = "[]" and ctx = "sampleContext 11 None" and post = "[]"
      and index = "\<lparr>get_fields = [sampleColumn ''c1'']\<rparr>"]
  from t1 a have r1: "fst (requestCheck sampleEnv ?req newLookupProcessor) = E_INVALID_OPERATION"
    by blast
  from t1 b have r2: "buildPlan sampleEnv 1 ?pc2 ([sampleContext 10 None] @ sampleContext 99 None # [])
      [''c1''] = Inl IndexNotFound" by blast
  from t2 c have r3: "buildPlan sampleEnv 1 ?pc3 ([] @ sampleContext 11 None # []) [''c3''] =
      Inl (Error ''Index scan plan error'')" by blast
  from t1 d have r4: "\<exists>plan. buildPlan sampleEnv 1 ?pc2 [sampleContext 10 None] [''c1''] = Inr plan"
    by blast
  have e: "planIndex sampleEnv 1 ?pc2 99 = None" by (simp add: sample_plan_defs)
  have f: "planSchema sampleEnv 1 ?pc3 = None" by (simp add: sample_plan_defs)
  from r1 r2 r3 r4 c e f show ?thesis by simp
qed

text \<open>
  Claim C7 as the specification words it asks for a schema-not-found error here, and
  the code gives another one. A vertex lookup on tag 3, whose schema is missing,
  through index 11 on \<open>(c1)\<close>, yielding the column \<open>c3\<close> that the index does not hold: a
  data node is needed, the schema is not found, and the planner's status is the
  generic error with the message \<open>Index scan plan error\<close>.
\<close>

theorem planner_errors_counterexample:
  "planIndex sampleEnv 1 (samplePlanContext False 3) (get_index_id (sampleContext 11 None)) =
     Some \<lparr>get_fields = [sampleColumn ''c1'']\<rparr>
   \<and> needData \<lparr>get_fields = [sampleColumn ''c1'']\<rparr> [''c3'']
   \<and> planSchema sampleEnv 1 (samplePlanContext False 3) = None
   \<and> buildPlan sampleEnv 1 (samplePlanContext False 3) [sampleContext 11 None] [''c3''] =
       Inl (Error ''Index scan plan error'')"
  by (simp add: sample_plan_defs)

section \<open>Cluster identity: the three ways to an id\<close>

lemma waitForClusterId_present:
  "gClusterId st \<noteq> 0 \<Longrightarrow> waitForClusterId env st = Some st"
  by (subst waitForClusterId.simps) simp

lemma waitForClusterId_after:
  "gClusterId st = 0 \<Longrightarrow> (\<forall>j < k. clusterIdAt env (idReads st + j) = 0) \<Longrightarrow>
   clusterIdAt env (idReads st + k) \<noteq> 0 \<Longrightarrow>
   waitForClusterId env st =
     Some (st\<lparr>gClusterId := clusterIdAt env (idReads st + k), idReads := idReads st + k + 1,
              slept := slept st + k + 1\<rparr>)"
proof (induction k arbitrary: st)
  case 0
  then show ?case
    by (subst waitForClusterId.simps)
       (simp add: getClusterIdFromKV_def waitForClusterId_present)
next
  case (Suc k)
  let ?st' = "getClusterIdFromKV env (st\<lparr>slept := slept st + 1\<rparr>)"
  have z: "gClusterId ?st' = 0"
    using Suc.prems(2) [rule_format, of 0] by (simp add: getClusterIdFromKV_def)
  have a: "\<forall>j < k. clusterIdAt env (idReads ?st' + j) = 0"
    using Suc.prems(2) by (auto simp: getClusterIdFromKV_def)
  have b: "clusterIdAt env (idReads ?st' + k) \<noteq> 0"
    using Suc.prems(3) by (simp add: getClusterIdFromKV_def)
  have "waitForClusterId env st = waitForClusterId env ?st'"
    using Suc.prems(1) by (subst waitForClusterId.simps) simp
  also have "\<dots> = Some (?st'\<lparr>gClusterId := clusterIdAt env (idReads ?st' + k),
      idReads := idReads ?st' + k + 1, slept := slept ?st' + k + 1\<rparr>)"
    by (rule Suc.IH [OF z a b])
  finally show ?case by (simp add: getClusterIdFromKV_def)
qed

lemma waitForClusterId_returns:
  assumes "waitForClusterId env st = Some st'"
  shows "gClusterId st' \<noteq> 0 \<and> persistCalls st' = persistCalls st
     \<and> (gClusterId st \<noteq> 0 \<or> (\<exists>k. clusterIdAt env (idReads st + k) \<noteq> 0))"
  using assms
proof (induction rule: waitForClusterId.raw_induct [rotated 1, consumes 1])
  case (1 f env st st')
  show ?case
  proof (cases "gClusterId st = 0")
    case False
    with 1(2) show ?thesis by simp
  next
    case True
    let ?st1 = "getClusterIdFromKV env (st\<lparr>slept := slept st + 1\<rparr>)"
    from True 1(2) have "f env ?st1 = Some st'" by simp
    from 1(1) [OF this]
    have g: "gClusterId st' \<noteq> 0" and p: "persistCalls st' = persistCalls ?st1"
      and r: "gClusterId ?st1 \<noteq> 0 \<or> (\<exists>k. clusterIdAt env (idReads ?st1 + k) \<noteq> 0)"
      by simp_all
    from r have "\<exists>k. clusterIdAt env (idReads st + k) \<noteq> 0"
    proof
      assume "gClusterId ?st1 \<noteq> 0"
      then have "clusterIdAt env (idReads st + 0) \<noteq> 0" by (simp add: getClusterIdFromKV_def)
      then show ?thesis by blast
    next
      assume "\<exists>k. clusterIdAt env (idReads ?st1 + k) \<noteq> 0"
      then obtain k where "clusterIdAt env (idReads st + Suc k) \<noteq> 0"
        by (auto simp: getClusterIdFromKV_def)
      then show ?thesis by blast
    qed
    with g p show ?thesis by (simp add: getClusterIdFromKV_def)
  qed
qed

lemma waitForClusterId_never:
  "gClusterId st = 0 \<Longrightarrow> \<forall>k. clusterIdAt env (idReads st + k) = 0 \<Longrightarrow>
   waitForClusterId env st = None"
  using waitForClusterId_returns [of env st] by (cases "waitForClusterId env st") auto


lemma initClusterId_follower_persisted:
  "ldr \<noteq> localhost \<Longrightarrow> initClusterId env ldr localhost st = Some (ok, st') \<Longrightarrow>
   persistCalls st' = persistCalls st"
  by (auto simp: initClusterId_def Let_def getClusterIdFromKV_def
        split: if_splits option.splits dest!: waitForClusterId_returns)

lemma initClusterId_present_persisted:
  "clusterIdAt env (idReads st) \<noteq> 0 \<Longrightarrow> initClusterId env ldr localhost st = Some (ok, st') \<Longrightarrow>
   persistCalls st' = persistCalls st"
  by (auto simp: initClusterId_def Let_def getClusterIdFromKV_def)

text \<open>The id that \<open>create\<close> gives is not zero, whatever the hash, the salt and the peers.\<close>

lemma ClusterIdMan_create_nonzero: "ClusterIdMan_create hash salt addrs \<noteq> 0"
  by (simp add: ClusterIdMan_create_def Let_def)

lemma createClusterId_nonzero: "createClusterId env addrs \<noteq> 0"
  by (simp add: createClusterId_def ClusterIdMan_create_nonzero)

lemma initClusterId_nonzero:
  "initClusterId env ldr localhost st = Some (True, st') \<Longrightarrow> gClusterId st' \<noteq> 0"
  using createClusterId_nonzero [of env "meta_server_addrs env"]
  by (auto simp: initClusterId_def Let_def getClusterIdFromKV_def
        split: if_splits option.splits dest!: waitForClusterId_returns)

text \<open>The canonical form does not depend on the order in which the peers are configured.\<close>

lemma canonicalPeers_sample:
  "canonicalPeers ''m2:45500,m1:45500,m3:45500'' = ''m1:45500,m2:45500,m3:45500,''
   \<and> canonicalPeers ''m3:45500,m2:45500,m1:45500'' = ''m1:45500,m2:45500,m3:45500,''"
  by (simp add: canonicalPeers_def)

text \<open>
  Claim C5. After the leader \<open>ldr\<close> of the meta partition is found, \<open>initKV\<close> reads the
  cluster id key. If an id is there, it is adopted and nothing is written. If none is
  there and this replica is the leader, the id that \<open>create\<close> derives from the
  configured meta server addresses, which is not zero, is put under the key, and
  \<open>initKV\<close> fails when that write fails. If none is there and this replica is a
  follower, it sleeps one second and reads again, until an id is there: it returns
  that id after \<open>k + 1\<close> seconds when the first \<open>k\<close> further reads find none and the next
  one finds one, and it never returns when no read finds one. A follower writes
  nothing, and nothing is written when the first read finds an id. When \<open>initKV\<close> goes
  on, the cluster id it has is not zero.
\<close>

theorem initClusterId_cases:
  "(clusterIdAt env (idReads st) \<noteq> 0 \<longrightarrow>
      initClusterId env ldr localhost st =
        Some (True, st\<lparr>gClusterId := clusterIdAt env (idReads st), idReads := idReads st + 1\<rparr>))
   \<and> (clusterIdAt env (idReads st) = 0 \<and> ldr = localhost
        \<and> persistInKV env kClusterIdKey (createClusterId env (meta_server_addrs env)) \<longrightarrow>
      initClusterId env ldr localhost st =
        Some (True, st\<lparr>gClusterId := createClusterId env (meta_server_addrs env),
                       idReads := idReads st + 1,
                       persistCalls := persistCalls st
                         @ [(kClusterIdKey, createClusterId env (meta_server_addrs env))]\<rparr>))
   \<and> createClusterId env (meta_server_addrs env) \<noteq> 0
   \<and> createClusterId env (meta_server_addrs env) =
       ClusterIdMan_create (hashOf env) (idSalt env) (meta_server_addrs env)
   \<and> (clusterIdAt env (idReads st) = 0 \<and> ldr = localhost
        \<and> \<not> persistInKV env kClusterIdKey (createClusterId env (meta_server_addrs env)) \<longrightarrow>
      (\<exists>st'. initClusterId env ldr localhost st = Some (False, st')))
   \<and> (clusterIdAt env (idReads st) = 0 \<and> ldr \<noteq> localhost
        \<and> (\<forall>j < k. clusterIdAt env (idReads st + 1 + j) = 0)
        \<and> clusterIdAt env (idReads st + 1 + k) \<noteq> 0 \<longrightarrow>
      initClusterId env ldr localhost st =
        Some (True, st\<lparr>gClusterId := clusterIdAt env (idReads st + 1 + k),
                       idReads := idReads st + k + 2, slept := slept st + k + 1\<rparr>))
   \<and> (clusterIdAt env (idReads st) = 0 \<and> ldr \<noteq> localhost
        \<and> (\<forall>j. clusterIdAt env (idReads st + 1 + j) = 0) \<longrightarrow>
      initClusterId env ldr localhost st = None)
   \<and> (ldr \<noteq> localhost \<and> initClusterId env ldr localhost st = Some (ok, st') \<longrightarrow>
      persistCalls st' = persistCalls st)
   \<and> (clusterIdAt env (idReads st) \<noteq> 0 \<and> initClusterId env ldr localhost st = Some (ok, st') \<longrightarrow>
      persistCalls st' = persistCalls st)
   \<and> (initClusterId env ldr localhost st = Some (True, st') \<longrightarrow> gClusterId st' \<noteq> 0)"
proof -
  let ?st1 = "getClusterIdFromKV env st"
  have a: "initClusterId env ldr localhost st =
        Some (True, st\<lparr>gClusterId := clusterIdAt env (idReads st), idReads := idReads st + 1\<rparr>)"
    if "clusterIdAt env (idReads st) \<noteq> 0"
    using that by (simp add: initClusterId_def Let_def getClusterIdFromKV_def)
  have b: "initClusterId env ldr localhost st =
        Some (True, st\<lparr>gClusterId := createClusterId env (meta_server_addrs env),
                       idReads := idReads st + 1,
                       persistCalls := persistCalls st
                         @ [(kClusterIdKey, createClusterId env (meta_server_addrs env))]\<rparr>)"
    if "clusterIdAt env (idReads st) = 0" "ldr = localhost"
      "persistInKV env kClusterIdKey (createClusterId env (meta_server_addrs env))"
    using that by (simp add: initClusterId_def Let_def getClusterIdFromKV_def)
  have nz: "createClusterId env (meta_server_addrs env) \<noteq> 0"
    by (rule createClusterId_nonzero)
  have cr: "createClusterId env (meta_server_addrs env) =
       ClusterIdMan_create (hashOf env) (idSalt env) (meta_server_addrs env)"
    by (simp add: createClusterId_def)
  have c: "\<exists>st'. initClusterId env ldr localhost st = Some (False, st')"
    if "clusterIdAt env (idReads st) = 0" "ldr = localhost"
      "\<not> persistInKV env kClusterIdKey (createClusterId env (meta_server_addrs env))"
    using that by (simp add: initClusterId_def Let_def getClusterIdFromKV_def)
  have d: "initClusterId env ldr localhost st =
        Some (True, st\<lparr>gClusterId := clusterIdAt env (idReads st + 1 + k),
                       idReads := idReads st + k + 2, slept := slept st + k + 1\<rparr>)"
    if z: "clusterIdAt env (idReads st) = 0" and f: "ldr \<noteq> localhost"
      and w: "\<forall>j < k. clusterIdAt env (idReads st + 1 + j) = 0"
      and p: "clusterIdAt env (idReads st + 1 + k) \<noteq> 0"
  proof -
    have g: "gClusterId ?st1 = 0" using z by (simp add: getClusterIdFromKV_def)
    have w': "\<forall>j < k. clusterIdAt env (idReads ?st1 + j) = 0"
      using w by (simp add: getClusterIdFromKV_def)
    have p': "clusterIdAt env (idReads ?st1 + k) \<noteq> 0"
      using p by (simp add: getClusterIdFromKV_def)
    from waitForClusterId_after [OF g w' p'] g f show ?thesis
      by (simp add: initClusterId_def Let_def) (simp add: getClusterIdFromKV_def)
  qed
  have e: "initClusterId env ldr localhost st = None"
    if z: "clusterIdAt env (idReads st) = 0" and f: "ldr \<noteq> localhost"
      and w: "\<forall>j. clusterIdAt env (idReads st + 1 + j) = 0"
  proof -
    have g: "gClusterId ?st1 = 0" using z by (simp add: getClusterIdFromKV_def)
    have w': "\<forall>j. clusterIdAt env (idReads ?st1 + j) = 0"
      using w by (simp add: getClusterIdFromKV_def)
    from waitForClusterId_never [OF g w'] g f show ?thesis
      by (simp add: initClusterId_def Let_def)
  qed
  show ?thesis
    using a b nz cr c d e initClusterId_follower_persisted [of ldr localhost env st ok st']
      initClusterId_present_persisted [of env st ldr localhost ok st']
      initClusterId_nonzero [of env ldr localhost st st']
    by blast
qed

lemma sample_createClusterId [simp]:
  "createClusterId (sampleMetaEnv n b) (meta_server_addrs (sampleMetaEnv n b)) = 30"
  by (simp add: createClusterId_def ClusterIdMan_create_def sampleMetaEnv_def canonicalPeers_def
        Let_def)

theorem initClusterId_cases_witness:
  "initClusterId (sampleMetaEnv 3 True) \<lparr>host = ''m1'', port = 45500\<rparr>
       \<lparr>host = ''m2'', port = 45500\<rparr> newMetaState =
     Some (True, \<lparr>gClusterId = 42, leaderCalls = 0, idReads = 4, slept = 3, persistCalls = [],
                  upgraded = False\<rparr>)
   \<and> initClusterId (sampleMetaEnv 3 True) \<lparr>host = ''m1'', port = 45500\<rparr>
       \<lparr>host = ''m1'', port = 45500\<rparr> newMetaState =
     Some (True, \<lparr>gClusterId = 30, leaderCalls = 0, idReads = 1, slept = 0,
                  persistCalls = [(kClusterIdKey, 30)], upgraded = False\<rparr>)
   \<and> (\<exists>st'. initClusterId (sampleMetaEnv 3 False) \<lparr>host = ''m1'', port = 45500\<rparr>
       \<lparr>host = ''m1'', port = 45500\<rparr> newMetaState = Some (False, st'))
   \<and> initClusterId (sampleMetaEnv 0 True) \<lparr>host = ''m1'', port = 45500\<rparr>
       \<lparr>host = ''m1'', port = 45500\<rparr> newMetaState =
     Some (True, \<lparr>gClusterId = 42, leaderCalls = 0, idReads = 1, slept = 0, persistCalls = [],
                  upgraded = False\<rparr>)
   \<and> ClusterIdMan_create (\<lambda>s. 0) ''id:'' ''m2:45500,m1:45500,m3:45500'' = 1"
proof -
  let ?m1 = "\<lparr>host = ''m1'', port = 45500\<rparr>"
  let ?m2 = "\<lparr>host = ''m2'', port = 45500\<rparr>"
  note t1 = initClusterId_cases [where env = "sampleMetaEnv 3 True" and st = newMetaState
      and ldr = ?m1 and localhost = ?m2 and k = 2]
  note t2 = initClusterId_cases [where env = "sampleMetaEnv 3 True" and st = newMetaState
      and ldr = ?m1 and localhost = ?m1]
  note t3 = initClusterId_cases [where env = "sampleMetaEnv 3 False" and st = newMetaState
      and ldr = ?m1 and localhost = ?m1]
  note t4 = initClusterId_cases [where env = "sampleMetaEnv 0 True" and st = newMetaState
      and ldr = ?m1 and localhost = ?m1]
  have h1: "clusterIdAt (sampleMetaEnv 3 True) (idReads newMetaState) = 0 \<and> ?m1 \<noteq> ?m2
      \<and> (\<forall>j < 2. clusterIdAt (sampleMetaEnv 3 True) (idReads newMetaState + 1 + j) = 0)
      \<and> clusterIdAt (sampleMetaEnv 3 True) (idReads newMetaState + 1 + 2) \<noteq> 0"
    by (simp add: sampleMetaEnv_def newMetaState_def)
  have h2: "clusterIdAt (sampleMetaEnv 3 True) (idReads newMetaState) = 0 \<and> ?m1 = ?m1
      \<and> persistInKV (sampleMetaEnv 3 True) kClusterIdKey
           (createClusterId (sampleMetaEnv 3 True) (meta_server_addrs (sampleMetaEnv 3 True)))"
    by (simp add: sampleMetaEnv_def newMetaState_def)
  have h3: "clusterIdAt (sampleMetaEnv 3 False) (idReads newMetaState) = 0 \<and> ?m1 = ?m1
      \<and> \<not> persistInKV (sampleMetaEnv 3 False) kClusterIdKey
           (createClusterId (sampleMetaEnv 3 False) (meta_server_addrs (sampleMetaEnv 3 False)))"
    by (simp add: sampleMetaEnv_def newMetaState_def)
  have h4: "clusterIdAt (sampleMetaEnv 0 True) (idReads newMetaState) \<noteq> 0"
    by (simp add: sampleMetaEnv_def newMetaState_def)
  from t1 h1 have r1: "initClusterId (sampleMetaEnv 3 True) ?m1 ?m2 newMetaState =
      Some (True, newMetaState\<lparr>gClusterId :=
                clusterIdAt (sampleMetaEnv 3 True) (idReads newMetaState + 1 + 2),
              idReads := idReads newMetaState + 2 + 2, slept := slept newMetaState + 2 + 1\<rparr>)"
    by blast
  from t2 h2 have r2: "initClusterId (sampleMetaEnv 3 True) ?m1 ?m1 newMetaState =
      Some (True, newMetaState\<lparr>gClusterId :=
                createClusterId (sampleMetaEnv 3 True) (meta_server_addrs (sampleMetaEnv 3 True)),
              idReads := idReads newMetaState + 1,
              persistCalls := persistCalls newMetaState
                @ [(kClusterIdKey, createClusterId (sampleMetaEnv 3 True)
                                     (meta_server_addrs (sampleMetaEnv 3 True)))]\<rparr>)"
    by blast
  from t3 h3 have r3: "\<exists>st'. initClusterId (sampleMetaEnv 3 False) ?m1 ?m1 newMetaState =
      Some (False, st')" by blast
  from t4 h4 have r4: "initClusterId (sampleMetaEnv 0 True) ?m1 ?m1 newMetaState =
      Some (True, newMetaState\<lparr>gClusterId :=
                clusterIdAt (sampleMetaEnv 0 True) (idReads newMetaState),
              idReads := idReads newMetaState + 1\<rparr>)"
    by blast
  have r5: "ClusterIdMan_create (\<lambda>s. 0) ''id:'' ''m2:45500,m1:45500,m3:45500'' = 1"
    by (simp add: ClusterIdMan_create_def)
  have c: "clusterIdAt (sampleMetaEnv n b) m = (if m < n then 0 else 42)" for n b m
    by (simp add: sampleMetaEnv_def)
  from r1 r2 r3 r4 r5 show ?thesis by (simp add: c newMetaState_def)
qed

section \<open>Further facts\<close>

text \<open>The row encoder's faults as processor errors, for edges and for vertices.\<close>

lemma writeResultTo_table:
  "writeResultTo UNKNOWN_FIELD True = E_EDGE_PROP_NOT_FOUND
   \<and> writeResultTo UNKNOWN_FIELD False = E_TAG_PROP_NOT_FOUND
   \<and> writeResultTo NOT_NULLABLE b = E_NOT_NULLABLE
   \<and> writeResultTo TYPE_MISMATCH b = E_DATA_TYPE_MISMATCH
   \<and> writeResultTo FIELD_UNSET b = E_FIELD_UNSET
   \<and> writeResultTo OUT_OF_RANGE b = E_OUT_OF_RANGE
   \<and> writeResultTo INCORRECT_VALUE b = E_INVALID_FIELD_VALUE
   \<and> writeResultTo W_SUCCEEDED b = SUCCEEDED"
  by simp

text \<open>
  The atomic writer's entry: without a vertex id length for the space, every listed
  partition gets \<open>E_INVALID_SPACEVIDLEN\<close> and the processor finishes; with one, the
  request goes to \<open>processByChain\<close>.
\<close>

lemma process_invalid_vid_len:
  "getSpaceVidLen env (space_id req) = None \<Longrightarrow>
   process env sched req p =
     Some (onFinished
             (p\<lparr>codes := codes p
                  @ map (\<lambda>part. \<lparr>code = E_INVALID_SPACEVIDLEN, part_id = fst part, leader = None\<rparr>)
                      (parts req)\<rparr>))"
  using fold_pushResultCode [of "\<lambda>part. E_INVALID_SPACEVIDLEN" "parts req" p]
  by (simp add: process_def)

lemma process_by_chain:
  "getSpaceVidLen env (space_id req) = Some v \<Longrightarrow>
   process env sched req p = processByChain env sched v req p"
  by (simp add: process_def)

text \<open>
  \<open>initKV\<close> around the cluster id: the wait for the leader ends at the first answer that
  is an error or an address other than the zero address, and \<open>initKV\<close> goes on to the
  cluster id with the leader found.
\<close>

lemma waitForLeader_elected:
  "leaderAt env (leaderCalls st) = Inr addr \<Longrightarrow> addr \<noteq> \<lparr>host = [], port = 0\<rparr> \<Longrightarrow>
   waitForLeader env st = Some (Some addr, st\<lparr>leaderCalls := leaderCalls st + 1\<rparr>)"
  by (subst waitForLeader.simps) simp

lemma waitForLeader_not_yet:
  "leaderAt env (leaderCalls st) = Inr \<lparr>host = [], port = 0\<rparr> \<Longrightarrow>
   waitForLeader env st =
     waitForLeader env (st\<lparr>leaderCalls := leaderCalls st + 1, slept := slept st + 1\<rparr>)"
  by (subst waitForLeader.simps) simp

text \<open>
  An id that a leader created is found by every later start that reads it: it is
  adopted, and nothing is written.
\<close>

lemma initClusterId_created_id_kept:
  "clusterIdAt env (idReads st) = createClusterId leaderEnv addrs \<Longrightarrow>
   initClusterId env ldr localhost st =
     Some (True, st\<lparr>gClusterId := createClusterId leaderEnv addrs, idReads := idReads st + 1\<rparr>)"
  using createClusterId_nonzero [of leaderEnv addrs]
  by (simp add: initClusterId_def Let_def getClusterIdFromKV_def)

lemma initKV_cluster_id:
  "storeInit env \<Longrightarrow> waitForLeader env st = Some (Some ldr, st1) \<Longrightarrow>
   initKV env localhost st =
     (case initClusterId env ldr localhost st1 of
        None \<Rightarrow> None
      | Some (False, st2) \<Rightarrow> Some (False, st2)
      | Some (True, st2) \<Rightarrow>
          Some (True, if upgrade_meta_data env then st2\<lparr>upgraded := True\<rparr> else st2))"
  by (simp add: initKV_def)

end
